theory Spec2Isabelle
  imports Complex_Main "HOL-Library.Signed_Division" "HOL-Library.Word"
begin

section \<open>Conventions of the embedding\<close>

text \<open>
  The three Go packages of the repository (\<^verbatim>\<open>pcore\<close>, \<^verbatim>\<open>pbwm\<close>, \<^verbatim>\<open>pvlv\<close>) are embedded
  function by function.

  \<^item> A Go \<^verbatim>\<open>float32\<close> is a \<^typ>\<open>real\<close>: the theorems are about the formulas the code
    evaluates, in exact arithmetic. Rounding, infinities and NaN are outside the model.
  \<^item> A Go \<^verbatim>\<open>int\<close> is an \<^typ>\<open>int\<close> holding a value of the 64-bit signed range (the width
    of \<^verbatim>\<open>int\<close> on the 64-bit platforms). The only integer the code steps without a bound of
    its own is the gate counter \<^verbatim>\<open>Cnt\<close>, by \<^verbatim>\<open>Cnt++\<close> and \<^verbatim>\<open>Cnt--\<close> in \<^verbatim>\<open>UpdtGateCnt\<close>: there
    the wrap-around of Go is written out, as \<open>wrap64\<close>. The other integer expressions of the
    code (the index arithmetic of \<^verbatim>\<open>DeepMaint\<close> on the shape of a layer, and \<^verbatim>\<open>Cnt - 1\<close> there)
    are taken exactly.
  \<^item> A run-time panic of Go (index out of range, slice bounds, nil dereference, failed
    type assertion, integer division by zero) is the value \<open>Inl p\<close> of a sum type; a
    normal return is \<open>Inr\<close>.
  \<^item> \<^verbatim>\<open>for i := range xs\<close> is \<open>forE body [0..<length xs]\<close>, threading the mutated
    state through the iterations and stopping at the first panic.
  \<^item> A network is a store from layer names to layers (\<^verbatim>\<open>Network.LayerByName\<close>); a
    layer's \<^verbatim>\<open>Nm\<close> is the key it is stored under.
  \<^item> Methods of types that are not part of the sources (\<^verbatim>\<open>DecayStatePool\<close>,
    \<^verbatim>\<open>NormFmAbsDWt\<close>, \<^verbatim>\<open>MomentFmDWt\<close>, \<^verbatim>\<open>PFCDyns.Value\<close>) are parameters.
\<close>

datatype panic =
    IndexOutOfRange
  | SliceBoundsOutOfRange
  | NilDereference
  | TypeAssertionFailed
  | DivideByZero

definition bindE :: "panic + 'a \<Rightarrow> ('a \<Rightarrow> panic + 'b) \<Rightarrow> panic + 'b" where
  "bindE m f = (case m of Inl e \<Rightarrow> Inl e | Inr x \<Rightarrow> f x)"

text \<open>\<^verbatim>\<open>xs[i]\<close> for a Go integer \<open>i\<close>.\<close>

definition at_idx :: "'a list \<Rightarrow> int \<Rightarrow> panic + 'a" where
  "at_idx xs i = (if 0 \<le> i \<and> i < int (length xs) then Inr (xs ! nat i) else Inl IndexOutOfRange)"

text \<open>The bounds check of \<^verbatim>\<open>xs[lo:hi]\<close> on a slice of length (and capacity) \<open>n\<close>.\<close>

definition slice_chk :: "nat \<Rightarrow> int \<Rightarrow> int \<Rightarrow> panic + unit" where
  "slice_chk n lo hi = (if 0 \<le> lo \<and> lo \<le> hi \<and> hi \<le> int n then Inr () else Inl SliceBoundsOutOfRange)"

text \<open>Go's integer \<^verbatim>\<open>/\<close> and \<^verbatim>\<open>%\<close>: truncation towards zero, panic on a zero divisor.\<close>

definition go_div :: "int \<Rightarrow> int \<Rightarrow> panic + int" where
  "go_div a b = (if b = 0 then Inl DivideByZero else Inr (a sdiv b))"

definition go_mod :: "int \<Rightarrow> int \<Rightarrow> panic + int" where
  "go_mod a b = (if b = 0 then Inl DivideByZero else Inr (a smod b))"

text \<open>
  The value a 64-bit signed \<^verbatim>\<open>int\<close> holds after an arithmetic operation whose exact result is
  \<open>x\<close>: Go wraps around silently, \<open>2 ^ 63\<close> becomes \<open>- (2 ^ 63)\<close> and \<open>- (2 ^ 63) - 1\<close>
  becomes \<open>2 ^ 63 - 1\<close>.
\<close>

definition wrap64 :: "int \<Rightarrow> int" where
  "wrap64 x = (x + 2 ^ 63) mod 2 ^ 64 - 2 ^ 63"

fun forE :: "(nat \<Rightarrow> 's \<Rightarrow> panic + 's) \<Rightarrow> nat list \<Rightarrow> 's \<Rightarrow> panic + 's" where
  "forE body [] s = Inr s"
| "forE body (i # is) s = (case body i s of Inl e \<Rightarrow> Inl e | Inr s' \<Rightarrow> forE body is s')"

section \<open>Types of the \<^verbatim>\<open>leabra\<close> substrate, as far as the sources use them\<close>

text \<open>\<^verbatim>\<open>leabra.Time\<close>: the quarter and the cycle of the trial.\<close>

record Time =
  Quarter :: int
  Cycle :: int

text \<open>\<^verbatim>\<open>leabra.Neuron\<close>; \<open>IsOff\<close> is the result of the method \<^verbatim>\<open>IsOff()\<close>.\<close>

record Neuron =
  IsOff :: bool
  SubPool :: int
  Act :: real
  Ext :: real
  ActLrn :: real

text \<open>\<^verbatim>\<open>leabra.Synapse\<close>.\<close>

record Synapse =
  Wt :: real
  DWt :: real
  Norm :: real
  Moment :: real

text \<open>\<^verbatim>\<open>leabra.Layer\<close>: its units and its shape (\<^verbatim>\<open>Shp.Dim(i)\<close> is \<open>at_idx (Shp ly) i\<close>).\<close>

record LeabraLayer =
  Neurons :: "Neuron list"
  Shp :: "int list"

section \<open>Package \<^verbatim>\<open>pcore\<close>: \<^verbatim>\<open>matrix.go\<close>\<close>

subsection \<open>Matrix layer\<close>

record MatrixParams =
  ThalLay :: string
  ThalThr :: real
  Deriv :: bool
  BurstGain :: real
  DipGain :: real

definition MatrixParams_Defaults :: "MatrixParams \<Rightarrow> MatrixParams" where
  "MatrixParams_Defaults mp =
     mp\<lparr>ThalLay := (if ThalLay mp = [] then ''VThal'' else ThalLay mp),
        ThalThr := 0.25, Deriv := True, BurstGain := 1, DipGain := 1\<rparr>"

definition LrnFactor :: "MatrixParams \<Rightarrow> real \<Rightarrow> real" where
  "LrnFactor mp act = (if \<not> Deriv mp then act else 2 * act * (1 - act))"

datatype DaReceptors = D1R | D2R

text \<open>\<^verbatim>\<open>pcore.Layer\<close> embeds \<^verbatim>\<open>leabra.Layer\<close>; \<^verbatim>\<open>MatrixLayer\<close> and \<^verbatim>\<open>VThalLayer\<close> embed it.\<close>

record Layer = LeabraLayer +
  DA :: real
  AlphaMaxCyc :: int
  AlphaMaxs :: "real list"

record MatrixLayer = Layer +
  DaR :: DaReceptors
  Matrix :: MatrixParams
  DALrn :: real
  ACh :: real

text \<open>
  A layer of the network as \<^verbatim>\<open>ThalLayer\<close> sees it: the type assertion
  \<^verbatim>\<open>tly.(*VThalLayer)\<close> succeeds on a \<open>VThalLayer\<close> and panics on any other layer.
\<close>

datatype PCoreLayer = VThalLayer Layer | OtherLayer

type_synonym PCoreNetwork = "string \<Rightarrow> PCoreLayer option"

text \<open>
  \<^verbatim>\<open>ThalLayer\<close> returns \<^verbatim>\<open>(nil, err)\<close> when the name is not in the network (after
  logging): \<open>Inr None\<close>.
\<close>

definition ThalLayer :: "PCoreNetwork \<Rightarrow> MatrixLayer \<Rightarrow> panic + Layer option" where
  "ThalLayer net ly =
     (case net (ThalLay (Matrix ly)) of
        None \<Rightarrow> Inr None
      | Some (VThalLayer tly) \<Rightarrow> Inr (Some tly)
      | Some OtherLayer \<Rightarrow> Inl TypeAssertionFailed)"

text \<open>Lines 160 to 169 of \<^verbatim>\<open>DAActLrn\<close>: the effective learning dopamine.\<close>

definition DALrn_FmDA :: "MatrixLayer \<Rightarrow> real" where
  "DALrn_FmDA ly =
     (let da = DA ly;
          da = (if da > 0 then da * BurstGain (Matrix ly) else da * DipGain (Matrix ly));
          da = (if DaR ly = D2R then da * (- 1) else da)
      in da)"

text \<open>The body of the loop over the units, lines 178 to 188.\<close>

definition DAActLrn_unit :: "MatrixLayer \<Rightarrow> Layer \<Rightarrow> nat \<Rightarrow> Neuron list \<Rightarrow> panic + Neuron list" where
  "DAActLrn_unit ly tly ni ns =
     (let nrn = ns ! ni in
      if IsOff nrn then Inr ns
      else
        bindE (at_idx (AlphaMaxs ly) (int ni)) (\<lambda>a.
        let amax = LrnFactor (Matrix ly) a in
        bindE (at_idx (AlphaMaxs tly) (SubPool nrn - 1)) (\<lambda>tact.
        if tact > ThalThr (Matrix ly)
        then Inr (ns[ni := nrn\<lparr>ActLrn := amax\<rparr>])
        else Inr (ns[ni := nrn\<lparr>ActLrn := - amax\<rparr>]))))"

definition DAActLrn :: "PCoreNetwork \<Rightarrow> Time \<Rightarrow> MatrixLayer \<Rightarrow> panic + MatrixLayer" where
  "DAActLrn net ltime ly0 =
     (let ly = ly0\<lparr>DALrn := DALrn_FmDA ly0\<rparr> in
      if Cycle ltime < AlphaMaxCyc ly then Inr ly
      else
        bindE (ThalLayer net ly) (\<lambda>r.
        case r of
          None \<Rightarrow> Inr ly
        | Some tly \<Rightarrow>
            bindE (forE (DAActLrn_unit ly tly) [0..<length (Neurons ly)] (Neurons ly)) (\<lambda>ns.
            Inr (ly\<lparr>Neurons := ns\<rparr>))))"

subsection \<open>Matrix projection\<close>

record MatrixTraceParams =
  CurTrlDA :: bool
  Decay :: real

definition MatrixTraceParams_Defaults :: "MatrixTraceParams \<Rightarrow> MatrixTraceParams" where
  "MatrixTraceParams_Defaults tp = tp\<lparr>CurTrlDA := True, Decay := 2\<rparr>"

text \<open>\<^verbatim>\<open>TraceSyn\<close> (declared elsewhere in the package): the two fields the sources use.\<close>

record TraceSyn =
  NTr :: real
  Tr :: real

text \<open>
  \<^verbatim>\<open>MatrixPrjn\<close> with the fields of the embedded \<^verbatim>\<open>leabra.Prjn\<close> that \<^verbatim>\<open>DWt\<close> and
  \<^verbatim>\<open>Defaults\<close> touch; \<open>Learn_Norm_On\<close> is \<^verbatim>\<open>pj.Learn.Norm.On\<close>, and so on. The two
  generic primitives take the field they update first and return its new value with
  their result.
\<close>

record MatrixPrjn =
  Learn_Learn :: bool
  Learn_Lrate :: real
  Learn_WtSig_Gain :: real
  Learn_Norm_On :: bool
  Learn_Momentum_On :: bool
  Learn_WtBal_On :: bool
  Learn_Norm_NormFmAbsDWt :: "real \<Rightarrow> real \<Rightarrow> real \<times> real"
  Learn_Momentum_MomentFmDWt :: "real \<Rightarrow> real \<Rightarrow> real \<times> real"
  SConN :: "int list"
  SConIdxSt :: "int list"
  SConIdx :: "int list"
  Syns :: "Synapse list"
  Trace :: MatrixTraceParams
  TrSyns :: "TraceSyn list"

text \<open>\<^verbatim>\<open>Defaults\<close>; \<open>prjn_defaults\<close> is the embedded \<^verbatim>\<open>pj.Prjn.Defaults()\<close>.\<close>

definition MatrixPrjn_Defaults :: "(MatrixPrjn \<Rightarrow> MatrixPrjn) \<Rightarrow> MatrixPrjn \<Rightarrow> MatrixPrjn" where
  "MatrixPrjn_Defaults prjn_defaults pj0 =
     (let pj = prjn_defaults pj0;
          pj = pj\<lparr>Trace := MatrixTraceParams_Defaults (Trace pj)\<rparr>
      in pj\<lparr>Learn_WtSig_Gain := 1, Learn_Norm_On := False,
             Learn_Momentum_On := False, Learn_WtBal_On := False\<rparr>)"

definition ClearTrace :: "MatrixPrjn \<Rightarrow> MatrixPrjn" where
  "ClearTrace pj = pj\<lparr>TrSyns := map (\<lambda>sy. sy\<lparr>NTr := 0, Tr := 0\<rparr>) (TrSyns pj)\<rparr>"

text \<open>Line 307: the decay factor of the pass.\<close>

definition achDk :: "MatrixLayer \<Rightarrow> MatrixPrjn \<Rightarrow> real" where
  "achDk rlay pj = min 1 (ACh rlay * Decay (Trace pj))"

text \<open>Line 335: \<^verbatim>\<open>tr -= achDk * tr\<close>.\<close>

definition decay_tr :: "real \<Rightarrow> real \<Rightarrow> real" where
  "decay_tr dk tr = tr - dk * tr"

text \<open>
  Lines 323 to 339: from the stored trace \<open>tr0\<close> and this trial's \<open>ntr\<close> to the raw
  weight change and the new trace.
\<close>

definition trace_dwt :: "bool \<Rightarrow> real \<Rightarrow> real \<Rightarrow> real \<Rightarrow> real \<Rightarrow> real \<Rightarrow> real \<times> real" where
  "trace_dwt curTrlDA da daLrn dk ntr tr0 =
     (let tr = (if curTrlDA then tr0 + ntr else tr0);
          dwt = (if da \<noteq> 0 then daLrn * tr else 0);
          tr = decay_tr dk tr;
          tr = (if \<not> curTrlDA then tr + ntr else tr)
      in (dwt, tr))"

text \<open>Lines 323 to 355: the whole update of one synapse and its trace.\<close>

definition DWt_syn :: "MatrixPrjn \<Rightarrow> real \<Rightarrow> real \<Rightarrow> real \<Rightarrow> real \<Rightarrow> Synapse \<times> TraceSyn \<Rightarrow> Synapse \<times> TraceSyn" where
  "DWt_syn pj da daLrn dk ntr = (\<lambda>(sy, trsy).
     let (dwt, tr) = trace_dwt (CurTrlDA (Trace pj)) da daLrn dk ntr (Tr trsy);
         trsy = trsy\<lparr>Tr := tr, NTr := ntr\<rparr>;
         (sy, norm) =
           (if Learn_Norm_On pj
            then (let (n', r) = Learn_Norm_NormFmAbsDWt pj (Norm sy) \<bar>dwt\<bar> in (sy\<lparr>Norm := n'\<rparr>, r))
            else (sy\<lparr>Norm := NTr trsy, Moment := Tr trsy\<rparr>, 1));
         (sy, dwt) =
           (if Learn_Momentum_On pj
            then (let (m', r) = Learn_Momentum_MomentFmDWt pj (Moment sy) dwt in (sy\<lparr>Moment := m'\<rparr>, norm * r))
            else (sy, dwt * norm))
     in (sy\<lparr>DWt := DWt sy + Learn_Lrate pj * dwt\<rparr>, trsy))"

text \<open>
  One iteration of the loop over the connections of a sending unit: synapse \<open>st + ci\<close>
  of the flat arrays (the three slices \<^verbatim>\<open>[st : st+nc]\<close> share their arrays with the
  projection).
\<close>

definition DWt_con :: "MatrixLayer \<Rightarrow> real \<Rightarrow> real \<Rightarrow> real \<Rightarrow> Neuron \<Rightarrow> int \<Rightarrow> nat \<Rightarrow> MatrixPrjn \<Rightarrow> panic + MatrixPrjn" where
  "DWt_con rlay da daLrn dk sn st ci pj =
     (let j = nat (st + int ci) in
      bindE (at_idx (Neurons rlay) (SConIdx pj ! j)) (\<lambda>rn.
      let ntr = ActLrn rn * ActLrn sn;
          (sy, trsy) = DWt_syn pj da daLrn dk ntr (Syns pj ! j, TrSyns pj ! j)
      in Inr (pj\<lparr>Syns := (Syns pj)[j := sy], TrSyns := (TrSyns pj)[j := trsy]\<rparr>)))"

text \<open>Lines 358 to 370: the maximum of \<^verbatim>\<open>Norm\<close> over the sending unit's synapses.\<close>

definition norm_agg :: "int \<Rightarrow> int \<Rightarrow> MatrixPrjn \<Rightarrow> MatrixPrjn" where
  "norm_agg st nc pj =
     (let js = map (\<lambda>ci. nat (st + int ci)) [0..<nat nc];
          maxNorm = fold (\<lambda>j m. if Norm (Syns pj ! j) > m then Norm (Syns pj ! j) else m) js 0
      in pj\<lparr>Syns := fold (\<lambda>j ss. ss[j := (ss ! j)\<lparr>Norm := maxNorm\<rparr>]) js (Syns pj)\<rparr>)"

text \<open>One iteration of the loop over the sending units, lines 310 to 370.\<close>

definition DWt_send :: "'a LeabraLayer_scheme \<Rightarrow> MatrixLayer \<Rightarrow> real \<Rightarrow> real \<Rightarrow> real \<Rightarrow> nat \<Rightarrow> MatrixPrjn \<Rightarrow> panic + MatrixPrjn" where
  "DWt_send slay rlay da daLrn dk si pj =
     (let sn = Neurons slay ! si in
      bindE (at_idx (SConN pj) (int si)) (\<lambda>nc.
      bindE (at_idx (SConIdxSt pj) (int si)) (\<lambda>st.
      bindE (slice_chk (length (Syns pj)) st (st + nc)) (\<lambda>_.
      bindE (slice_chk (length (TrSyns pj)) st (st + nc)) (\<lambda>_.
      bindE (slice_chk (length (SConIdx pj)) st (st + nc)) (\<lambda>_.
      bindE (forE (DWt_con rlay da daLrn dk sn st) [0..<nat nc] pj) (\<lambda>pj.
      Inr (if Learn_Norm_On pj then norm_agg st nc pj else pj))))))))"

text \<open>\<^verbatim>\<open>MatrixPrjn.DWt\<close>, with the sending and the receiving layer of the projection.\<close>

definition MatrixPrjn_DWt :: "'a LeabraLayer_scheme \<Rightarrow> MatrixLayer \<Rightarrow> MatrixPrjn \<Rightarrow> panic + MatrixPrjn" where
  "MatrixPrjn_DWt slay rlay pj =
     (if \<not> Learn_Learn pj then Inr pj
      else
        let da = DA rlay;
            daLrn = DALrn rlay;
            dk = achDk rlay pj
        in forE (DWt_send slay rlay da daLrn dk) [0..<length (Neurons slay)] pj)"

section \<open>Package \<^verbatim>\<open>pvlv\<close>: \<^verbatim>\<open>pv_layer.go\<close>\<close>

text \<open>
  \<^verbatim>\<open>ModNeuron\<close> and \<^verbatim>\<open>ModLayer\<close> are declared elsewhere in the package; these are the
  fields the sources use.
\<close>

record ModNeuron =
  PVAct :: real

record ModLayer =
  ModNeurs :: "ModNeuron list"
  IsPVReceiver :: bool

text \<open>
  A layer of the network as \<^verbatim>\<open>SendPVAct\<close> sees it: the type assertion
  \<^verbatim>\<open>.(IModLayer)\<close> succeeds on a modulatory layer and panics on any other layer, and
  on the nil interface that \<^verbatim>\<open>LayerByName\<close> returns for an unknown name.
\<close>

datatype PVLVLayer = IModLayer ModLayer | NotModLayer

type_synonym PVLVNetwork = "string \<Rightarrow> PVLVLayer option"

record PVLayer = LeabraLayer +
  SendPVQuarter :: int
  PVReceivers :: "string list"

text \<open>
  The inner loop of \<^verbatim>\<open>SendPVAct\<close>, lines 47 to 51 (the index \<^verbatim>\<open>pi\<close> of the source is
  \<open>p_i\<close> here and in \<^verbatim>\<open>DeepMaint\<close>).
\<close>

definition SendPVAct_unit :: "PVLayer \<Rightarrow> nat \<Rightarrow> ModLayer \<Rightarrow> panic + ModLayer" where
  "SendPVAct_unit ly p_i rly =
     (let pnr = Neurons ly ! p_i in
      bindE (at_idx (ModNeurs rly) (int p_i)) (\<lambda>mnr.
      Inr (rly\<lparr>ModNeurs := (ModNeurs rly)[p_i := mnr\<lparr>PVAct := max (Neuron.Act pnr) (Ext pnr)\<rparr>]\<rparr>)))"

text \<open>The outer loop, lines 45 to 52: one registered receiver.\<close>

definition SendPVAct_recv :: "PVLayer \<Rightarrow> nat \<Rightarrow> PVLVNetwork \<Rightarrow> panic + PVLVNetwork" where
  "SendPVAct_recv ly li net =
     (let nm = PVReceivers ly ! li in
      case net nm of
        None \<Rightarrow> Inl TypeAssertionFailed
      | Some NotModLayer \<Rightarrow> Inl TypeAssertionFailed
      | Some (IModLayer rly) \<Rightarrow>
          bindE (forE (SendPVAct_unit ly) [0..<length (Neurons ly)] rly) (\<lambda>rly'.
          Inr (net(nm \<mapsto> IModLayer rly'))))"

definition SendPVAct :: "PVLayer \<Rightarrow> PVLVNetwork \<Rightarrow> panic + PVLVNetwork" where
  "SendPVAct ly net = forE (SendPVAct_recv ly) [0..<length (PVReceivers ly)] net"

definition CyclePost :: "Time \<Rightarrow> PVLayer \<Rightarrow> PVLVNetwork \<Rightarrow> panic + PVLVNetwork" where
  "CyclePost ltime ly net =
     (if Quarter ltime = SendPVQuarter ly then SendPVAct ly net else Inr net)"

section \<open>Package \<^verbatim>\<open>pbwm\<close>: the PFC deep layer of \<^verbatim>\<open>neuron.go\<close>\<close>

text \<open>
  \<^verbatim>\<open>leabra.Quarters\<close> is a set of quarters (bit flags): \<^verbatim>\<open>GateQtr.Has(q)\<close> is
  \<open>q \<in> GateQtr\<close>.
\<close>

record PFCGateParams =
  GateQtr :: "int set"
  OutGate :: bool
  OutQ1Only :: bool

record PFCMaintParams =
  UseDyn :: bool
  MaintGain :: real
  OutClearMaint :: bool
  Clear :: real
  MaxMaint :: int

definition PFCMaintParams_Defaults :: "PFCMaintParams \<Rightarrow> PFCMaintParams" where
  "PFCMaintParams_Defaults mp =
     mp\<lparr>MaintGain := 0.8, OutClearMaint := False, Clear := 0, MaxMaint := 100\<rparr>"

record PFCNeuron =
  ActG :: real
  Maint :: real
  MaintGe :: real

text \<open>\<^verbatim>\<open>GateState\<close>, one per pool (declared with \<^verbatim>\<open>GateLayer\<close>, elsewhere in the package).\<close>

record GateState =
  Act :: real
  Now :: bool
  Cnt :: int

text \<open>
  \<^verbatim>\<open>PFCDeepLayer\<close>: the embedded \<^verbatim>\<open>GateLayer\<close> brings the layer and \<open>GateStates\<close>;
  \<open>Dyns_Value\<close> is the method \<^verbatim>\<open>ly.Dyns.Value\<close>.
\<close>

record PFCDeepLayer = LeabraLayer +
  GateStates :: "GateState list"
  Gate :: PFCGateParams
  Maint :: PFCMaintParams
  Dyns_Value :: "int \<Rightarrow> real \<Rightarrow> real"
  PFCNeurs :: "PFCNeuron list"

text \<open>A layer of the network: a PFC deep layer, or any other layer (\<^verbatim>\<open>leabra.Layer\<close>).\<close>

datatype PBWMLayer = PFCDeep PFCDeepLayer | Leabra LeabraLayer

type_synonym PBWMNetwork = "string \<Rightarrow> PBWMLayer option"

text \<open>\<^verbatim>\<open>AsLeabra()\<close>: the embedded \<^verbatim>\<open>leabra.Layer\<close> of a layer, read and written.\<close>

fun AsLeabra_Neurons :: "PBWMLayer \<Rightarrow> Neuron list" where
  "AsLeabra_Neurons (PFCDeep l) = Neurons l"
| "AsLeabra_Neurons (Leabra l) = Neurons l"

fun AsLeabra_Shp :: "PBWMLayer \<Rightarrow> int list" where
  "AsLeabra_Shp (PFCDeep l) = Shp l"
| "AsLeabra_Shp (Leabra l) = Shp l"

fun AsLeabra_set_Neurons :: "Neuron list \<Rightarrow> PBWMLayer \<Rightarrow> PBWMLayer" where
  "AsLeabra_set_Neurons ns (PFCDeep l) = PFCDeep (l\<lparr>Neurons := ns\<rparr>)"
| "AsLeabra_set_Neurons ns (Leabra l) = Leabra (l\<lparr>Neurons := ns\<rparr>)"

text \<open>
  \<^verbatim>\<open>MaintPFC\<close> of the layer named \<open>nm\<close>: the name and the state of the maintenance
  layer, \<open>None\<close> for the nil it returns when the network has no such layer.
\<close>

definition MaintPFC :: "PBWMNetwork \<Rightarrow> string \<Rightarrow> panic + (string \<times> PFCDeepLayer) option" where
  "MaintPFC net nm =
     (if length nm < 4 then Inl SliceBoundsOutOfRange
      else
        let mnm = take (length nm - 4) nm @ ''mntD'' in
        case net mnm of
          None \<Rightarrow> Inr None
        | Some (PFCDeep l) \<Rightarrow> Inr (Some (mnm, l))
        | Some (Leabra l) \<Rightarrow> Inl TypeAssertionFailed)"

text \<open>\<^verbatim>\<open>SuperPFC\<close>: the name of the super layer, \<open>None\<close> for nil.\<close>

definition SuperPFC :: "PBWMNetwork \<Rightarrow> string \<Rightarrow> panic + string option" where
  "SuperPFC net nm =
     (if length nm < 1 then Inl SliceBoundsOutOfRange
      else
        let dnm = take (length nm - 1) nm in
        case net dnm of
          None \<Rightarrow> Inr None
        | Some l \<Rightarrow> Inr (Some dnm))"

text \<open>
  \<^verbatim>\<open>X.AsLeabra().DecayStatePool(pool, decay)\<close> on the result \<open>X\<close> of \<^verbatim>\<open>SuperPFC\<close>:
  a method call on the nil interface panics. \<open>dsp\<close> is \<^verbatim>\<open>leabra.Layer.DecayStatePool\<close>, on
  the units of the layer.
\<close>

definition AsLeabra_DecayStatePool ::
  "(Neuron list \<Rightarrow> int \<Rightarrow> real \<Rightarrow> Neuron list) \<Rightarrow> string option \<Rightarrow> int \<Rightarrow> real \<Rightarrow> PBWMNetwork \<Rightarrow> panic + PBWMNetwork" where
  "AsLeabra_DecayStatePool dsp x pool decay net =
     (case x of
        None \<Rightarrow> Inl NilDereference
      | Some snm \<Rightarrow>
          (case net snm of
             None \<Rightarrow> Inl NilDereference
           | Some l \<Rightarrow> Inr (net(snm \<mapsto> AsLeabra_set_Neurons (dsp (AsLeabra_Neurons l) pool decay) l))))"

text \<open>\<^verbatim>\<open>ClearMaint\<close>, called on the layer named \<open>nm\<close>.\<close>

definition ClearMaint ::
  "(Neuron list \<Rightarrow> int \<Rightarrow> real \<Rightarrow> Neuron list) \<Rightarrow> string \<Rightarrow> int \<Rightarrow> PBWMNetwork \<Rightarrow> panic + PBWMNetwork" where
  "ClearMaint dsp nm pool net =
     bindE (MaintPFC net nm) (\<lambda>r.
     case r of
       None \<Rightarrow> Inr net
     | Some (mnm, pfcm) \<Rightarrow>
         bindE (at_idx (GateStates pfcm) pool) (\<lambda>gs.
         if Cnt gs \<ge> 1
         then
           let net1 = net(mnm \<mapsto> PFCDeep (pfcm\<lparr>GateStates := (GateStates pfcm)[nat pool := gs\<lparr>Cnt := - 1\<rparr>]\<rparr>)) in
           bindE (SuperPFC net1 mnm) (\<lambda>pfcs.
           AsLeabra_DecayStatePool dsp pfcs pool (Clear (PFCDeepLayer.Maint pfcm)) net1)
         else Inr net))"

text \<open>
  One iteration of the loop of \<^verbatim>\<open>Gating\<close>, lines 213 to 231, on pool \<open>gi\<close> of the layer
  named \<open>nm\<close>. The receiver of a method is a layer of the network; the last line of each
  \<open>case\<close> stands for a receiver that is none.
\<close>

definition Gating_pool ::
  "(Neuron list \<Rightarrow> int \<Rightarrow> real \<Rightarrow> Neuron list) \<Rightarrow> string \<Rightarrow> nat \<Rightarrow> PBWMNetwork \<Rightarrow> panic + PBWMNetwork" where
  "Gating_pool dsp nm gi net =
     (case net nm of
        Some (PFCDeep ly) \<Rightarrow>
          let gs = GateStates ly ! gi in
          if \<not> Now gs then Inr net
          else
            bindE
              (if GateState.Act gs > 0
               then
                 let net1 = net(nm \<mapsto> PFCDeep (ly\<lparr>GateStates := (GateStates ly)[gi := gs\<lparr>Cnt := 0\<rparr>]\<rparr>)) in
                 if OutGate (Gate ly)
                 then (if OutClearMaint (PFCDeepLayer.Maint ly) then ClearMaint dsp nm (int gi) net1 else Inr net1)
                 else
                   bindE (SuperPFC net1 nm) (\<lambda>pfcs.
                   AsLeabra_DecayStatePool dsp pfcs (int gi) (Clear (PFCDeepLayer.Maint ly)) net1)
               else Inr net)
              (\<lambda>net2.
                 case net2 nm of
                   Some (PFCDeep ly2) \<Rightarrow>
                     let gs2 = GateStates ly2 ! gi in
                     if Cnt gs2 \<ge> MaxMaint (PFCDeepLayer.Maint ly2)
                     then Inr (net2(nm \<mapsto> PFCDeep (ly2\<lparr>GateStates := (GateStates ly2)[gi := gs2\<lparr>Cnt := - 1\<rparr>]\<rparr>)))
                     else Inr net2
                 | _ \<Rightarrow> Inl NilDereference)
      | _ \<Rightarrow> Inl NilDereference)"

definition Gating ::
  "(Neuron list \<Rightarrow> int \<Rightarrow> real \<Rightarrow> Neuron list) \<Rightarrow> string \<Rightarrow> Time \<Rightarrow> PBWMNetwork \<Rightarrow> panic + PBWMNetwork" where
  "Gating dsp nm ltime net =
     (case net nm of
        Some (PFCDeep ly) \<Rightarrow>
          if OutGate (Gate ly) \<and> OutQ1Only (Gate ly) \<and> Quarter ltime > 1 then Inr net
          else forE (Gating_pool dsp nm) [0..<length (GateStates ly)] net
      | _ \<Rightarrow> Inl NilDereference)"

text \<open>
  One iteration of the loop of \<^verbatim>\<open>DeepMaint\<close>, lines 279 to 303; the state of the loop
  is \<^verbatim>\<open>ly.PFCNeurs\<close>, and \<open>sns\<close> are the units of the super layer.
\<close>

definition DeepMaint_unit ::
  "PFCDeepLayer \<Rightarrow> Neuron list \<Rightarrow> int \<Rightarrow> int \<Rightarrow> int \<Rightarrow> int \<Rightarrow> int \<Rightarrow> int \<Rightarrow> nat \<Rightarrow> PFCNeuron list \<Rightarrow> panic + PFCNeuron list" where
  "DeepMaint_unit ly sns xN nn syN sxN snn dtyp ni pns =
     (let nrn = Neurons ly ! ni in
      if IsOff nrn then Inr pns
      else
        bindE (go_mod (int ni) nn) (\<lambda>ui.
        bindE (go_div (int ni) nn) (\<lambda>p_i.
        bindE (go_div ui xN) (\<lambda>uy.
        bindE (go_mod ui xN) (\<lambda>ux.
        bindE (at_idx pns (int ni)) (\<lambda>pnr.
        bindE (at_idx (GateStates ly) (SubPool nrn - 1)) (\<lambda>gs.
        bindE
          (if Cnt gs < 0 then Inr (pnr\<lparr>PFCNeuron.Maint := 0, MaintGe := 0\<rparr>)
           else if Cnt gs \<le> 1
           then
             bindE (go_mod uy syN) (\<lambda>sy.
             let si = p_i * snn + sy * sxN + ux in
             bindE (at_idx sns si) (\<lambda>snr.
             Inr (pnr\<lparr>PFCNeuron.Maint := MaintGain (PFCDeepLayer.Maint ly) * Neuron.Act snr\<rparr>)))
           else Inr pnr)
          (\<lambda>pnr.
             Inr (pns[ni :=
               (if UseDyn (PFCDeepLayer.Maint ly)
                then pnr\<lparr>MaintGe := PFCNeuron.Maint pnr * Dyns_Value ly dtyp (real_of_int (Cnt gs - 1))\<rparr>
                else pnr\<lparr>MaintGe := PFCNeuron.Maint pnr\<rparr>)])))))))))"

text \<open>\<^verbatim>\<open>DeepMaint\<close>, called on the layer named \<open>nm\<close>.\<close>

definition DeepMaint :: "string \<Rightarrow> Time \<Rightarrow> PBWMNetwork \<Rightarrow> panic + PBWMNetwork" where
  "DeepMaint nm ltime net =
     (case net nm of
        Some (PFCDeep ly) \<Rightarrow>
          if Quarter ltime \<notin> GateQtr (Gate ly) then Inr net
          else
            bindE (SuperPFC net nm) (\<lambda>slyi.
            case slyi of
              None \<Rightarrow> Inr net
            | Some snm \<Rightarrow>
                (case net snm of
                   None \<Rightarrow> Inl NilDereference
                 | Some sly \<Rightarrow>
                     bindE (at_idx (Shp ly) 2) (\<lambda>yN.
                     bindE (at_idx (Shp ly) 3) (\<lambda>xN.
                     let nn = yN * xN in
                     bindE (at_idx (AsLeabra_Shp sly) 2) (\<lambda>syN.
                     bindE (at_idx (AsLeabra_Shp sly) 3) (\<lambda>sxN.
                     let snn = syN * sxN in
                     bindE (go_div yN syN) (\<lambda>dper.
                     bindE (go_div yN dper) (\<lambda>dtyp.
                     bindE (forE (DeepMaint_unit ly (AsLeabra_Neurons sly) xN nn syN sxN snn dtyp)
                              [0..<length (Neurons ly)] (PFCNeurs ly)) (\<lambda>pns.
                     Inr (net(nm \<mapsto> PFCDeep (ly\<lparr>PFCNeurs := pns\<rparr>))))))))))))
      | _ \<Rightarrow> Inl NilDereference)"

text \<open>\<^verbatim>\<open>UpdtGateCnt\<close>: it touches nothing but the gate states of its own layer.\<close>

definition UpdtGateCnt_pool :: "GateState \<Rightarrow> GateState" where
  "UpdtGateCnt_pool gs =
     (if Cnt gs < 0 then gs\<lparr>Cnt := wrap64 (Cnt gs - 1)\<rparr> else gs\<lparr>Cnt := wrap64 (Cnt gs + 1)\<rparr>)"

definition UpdtGateCnt :: "Time \<Rightarrow> PFCDeepLayer \<Rightarrow> PFCDeepLayer" where
  "UpdtGateCnt ltime ly =
     (if Quarter ltime \<notin> GateQtr (Gate ly) then ly
      else ly\<lparr>GateStates := map UpdtGateCnt_pool (GateStates ly)\<rparr>)"

section \<open>Auxiliary notions for stating the properties\<close>

text \<open>
  Everything of a projection but its two arrays of synaptic state: what a learning pass
  reads and never writes.
\<close>

definition prjn_params :: "MatrixPrjn \<Rightarrow> MatrixPrjn" where
  "prjn_params pj = pj\<lparr>Syns := [], TrSyns := []\<rparr>"

text \<open>
  Synapse \<open>j\<close> of the flat arrays lies in the range \<^verbatim>\<open>[st : st+nc]\<close> of sending unit
  \<open>si\<close>. In a projection as \<^verbatim>\<open>Build\<close> lays it out, every synapse is owned by one
  sending unit.
\<close>

definition sender_owns :: "MatrixPrjn \<Rightarrow> nat \<Rightarrow> nat \<Rightarrow> bool" where
  "sender_owns pj si j \<longleftrightarrow>
     si < length (SConN pj) \<and> si < length (SConIdxSt pj) \<and>
     SConIdxSt pj ! si \<le> int j \<and> int j < SConIdxSt pj ! si + SConN pj ! si"

text \<open>
  The layout in which the range of each sending unit starts where the range of the
  unit before it ends (\<^verbatim>\<open>SConIdxSt\<close> is the running sum of \<^verbatim>\<open>SConN\<close>): there no synapse
  has two owners (lemma \<open>packed_layout_owns_once\<close>).
\<close>

definition packed_layout :: "MatrixPrjn \<Rightarrow> nat \<Rightarrow> bool" where
  "packed_layout pj n \<longleftrightarrow>
     n \<le> length (SConN pj) \<and> n \<le> length (SConIdxSt pj) \<and>
     (\<forall>si<n. 0 \<le> SConN pj ! si \<and> SConIdxSt pj ! si = sum_list (take si (SConN pj)))"

text \<open>What the pass can read or write at synapse \<open>j\<close>.\<close>

definition syn_view :: "nat \<Rightarrow> MatrixPrjn \<Rightarrow> (Synapse \<times> TraceSyn) \<times> MatrixPrjn \<times> nat \<times> nat" where
  "syn_view j pj = ((Syns pj ! j, TrSyns pj ! j), prjn_params pj, length (Syns pj), length (TrSyns pj))"

text \<open>
  The state of a receiver after one broadcast from the layer \<open>ly\<close>, the receivers that
  a broadcast can serve, and the network after a broadcast to the receivers \<open>rs\<close>.
\<close>

definition sent_PVAct :: "PVLayer \<Rightarrow> ModLayer \<Rightarrow> ModLayer" where
  "sent_PVAct ly rly =
     rly\<lparr>ModNeurs := map (\<lambda>p_i.
        if p_i < length (Neurons ly)
        then (ModNeurs rly ! p_i)\<lparr>PVAct := max (Neuron.Act (Neurons ly ! p_i)) (Ext (Neurons ly ! p_i))\<rparr>
        else ModNeurs rly ! p_i) [0..<length (ModNeurs rly)]\<rparr>"

definition recv_ok :: "PVLayer \<Rightarrow> PVLVNetwork \<Rightarrow> string \<Rightarrow> bool" where
  "recv_ok ly net r \<longleftrightarrow>
     (case net r of Some (IModLayer rly) \<Rightarrow> length (Neurons ly) \<le> length (ModNeurs rly) | _ \<Rightarrow> False)"

definition sent_net :: "PVLayer \<Rightarrow> PVLVNetwork \<Rightarrow> string list \<Rightarrow> PVLVNetwork" where
  "sent_net ly net rs = (\<lambda>r.
     if r \<in> set rs
     then (case net r of Some (IModLayer rly) \<Rightarrow> Some (IModLayer (sent_PVAct ly rly)) | x \<Rightarrow> x)
     else net r)"

text \<open>
  The index of the super-layer unit that \<^verbatim>\<open>DeepMaint\<close> reads for the deep unit \<open>ni\<close>, and
  the dynamics type it passes to \<^verbatim>\<open>Dyns.Value\<close>: the arithmetic of lines 266 to 295
  where no division panics.
\<close>

definition DeepMaint_si :: "int \<Rightarrow> int \<Rightarrow> int \<Rightarrow> int \<Rightarrow> nat \<Rightarrow> int" where
  "DeepMaint_si yN xN syN sxN ni =
     (let nn = yN * xN;
          snn = syN * sxN;
          ui = int ni smod nn;
          p_i = int ni sdiv nn;
          uy = ui sdiv xN;
          ux = ui smod xN;
          sy = uy smod syN
      in p_i * snn + sy * sxN + ux)"

definition DeepMaint_dtyp :: "int \<Rightarrow> int \<Rightarrow> int" where
  "DeepMaint_dtyp yN syN = yN sdiv (yN sdiv syN)"

text \<open>
  The counter of a pool after one iteration of the loop of \<^verbatim>\<open>Gating\<close> on it, and the part
  of a layer that the gating state machine reads and writes.
\<close>

definition gating_cnt :: "PFCMaintParams \<Rightarrow> GateState \<Rightarrow> int" where
  "gating_cnt mp gs =
     (if \<not> Now gs then Cnt gs
      else
        let c = (if GateState.Act gs > 0 then 0 else Cnt gs)
        in if c \<ge> MaxMaint mp then - 1 else c)"

fun gate_part :: "PBWMLayer option \<Rightarrow> (GateState list \<times> PFCGateParams \<times> PFCMaintParams) option option" where
  "gate_part None = None"
| "gate_part (Some (Leabra l)) = Some None"
| "gate_part (Some (PFCDeep ly)) = Some (Some (GateStates ly, Gate ly, PFCDeepLayer.Maint ly))"

text \<open>
  The connectivity of a projection is within bounds: this is what \<^verbatim>\<open>Build\<close> of the \<^verbatim>\<open>leabra\<close>
  projection establishes for the arrays that \<^verbatim>\<open>DWt\<close> indexes.
\<close>

definition prjn_wf :: "'a LeabraLayer_scheme \<Rightarrow> MatrixLayer \<Rightarrow> MatrixPrjn \<Rightarrow> bool" where
  "prjn_wf slay rlay pj \<longleftrightarrow>
     (\<forall>si<length (Neurons slay).
        si < length (SConN pj) \<and> si < length (SConIdxSt pj) \<and>
        0 \<le> SConIdxSt pj ! si \<and> 0 \<le> SConN pj ! si \<and>
        SConIdxSt pj ! si + SConN pj ! si \<le> int (length (Syns pj)) \<and>
        SConIdxSt pj ! si + SConN pj ! si \<le> int (length (TrSyns pj)) \<and>
        SConIdxSt pj ! si + SConN pj ! si \<le> int (length (SConIdx pj)) \<and>
        (\<forall>j. SConIdxSt pj ! si \<le> int j \<and> int j < SConIdxSt pj ! si + SConN pj ! si \<longrightarrow>
             0 \<le> SConIdx pj ! j \<and> SConIdx pj ! j < int (length (Neurons rlay))))"

section \<open>Example data\<close>

text \<open>
  A matrix layer of three units (the third is off) over two pools, its thalamic layer,
  a sending layer of two units and a projection of three synapses: the first sending
  unit owns synapses 0 and 1, the second owns synapse 2.
\<close>

definition ex_matrix :: MatrixLayer where
  "ex_matrix =
     \<lparr>Neurons = [\<lparr>IsOff = False, SubPool = 1, Act = 0.5, Ext = 0, ActLrn = 0.25\<rparr>,
                 \<lparr>IsOff = False, SubPool = 2, Act = 0.25, Ext = 0, ActLrn = 0.5\<rparr>,
                 \<lparr>IsOff = True, SubPool = 2, Act = 0, Ext = 0, ActLrn = 7\<rparr>],
      Shp = [1, 2, 1, 1],
      DA = 0.5, AlphaMaxCyc = 30, AlphaMaxs = [0.5, 0.25, 0.75],
      DaR = D1R,
      Matrix = \<lparr>ThalLay = ''VThal'', ThalThr = 0.25, Deriv = True, BurstGain = 2, DipGain = 1\<rparr>,
      DALrn = 0, ACh = 0.25\<rparr>"

definition ex_vthal :: Layer where
  "ex_vthal = \<lparr>Neurons = [], Shp = [1, 2, 1, 1], DA = 0, AlphaMaxCyc = 30, AlphaMaxs = [0.5, 0.125]\<rparr>"

definition ex_pcore_net :: PCoreNetwork where
  "ex_pcore_net = [''VThal'' \<mapsto> VThalLayer ex_vthal]"

definition ex_send :: LeabraLayer where
  "ex_send =
     \<lparr>Neurons = [\<lparr>IsOff = False, SubPool = 1, Act = 1, Ext = 0, ActLrn = 1\<rparr>,
                 \<lparr>IsOff = False, SubPool = 1, Act = 0.5, Ext = 0, ActLrn = 0.5\<rparr>],
      Shp = [1, 1, 1, 2]\<rparr>"

definition ex_prjn :: MatrixPrjn where
  "ex_prjn =
     \<lparr>Learn_Learn = True, Learn_Lrate = 0.5, Learn_WtSig_Gain = 1,
      Learn_Norm_On = False, Learn_Momentum_On = False, Learn_WtBal_On = False,
      Learn_Norm_NormFmAbsDWt = (\<lambda>n d. (max n d, 1)),
      Learn_Momentum_MomentFmDWt = (\<lambda>m d. (m + d, m + d)),
      SConN = [2, 1], SConIdxSt = [0, 2], SConIdx = [0, 1, 1],
      Syns = [\<lparr>Wt = 0.5, DWt = 0, Norm = 3, Moment = 4\<rparr>,
              \<lparr>Wt = 0.5, DWt = 1, Norm = 3, Moment = 4\<rparr>,
              \<lparr>Wt = 0.5, DWt = 0, Norm = 3, Moment = 4\<rparr>],
      Trace = \<lparr>CurTrlDA = True, Decay = 2\<rparr>,
      TrSyns = [\<lparr>NTr = 0, Tr = 1\<rparr>, \<lparr>NTr = 0, Tr = 0.5\<rparr>, \<lparr>NTr = 0, Tr = 0.25\<rparr>]\<rparr>"

text \<open>
  A primary-value layer of two units that sends in the fourth quarter to two
  modulatory layers, one of them registered twice.
\<close>

definition ex_pv :: PVLayer where
  "ex_pv =
     \<lparr>Neurons = [\<lparr>IsOff = False, SubPool = 0, Act = 0.25, Ext = 0.75, ActLrn = 0\<rparr>,
                 \<lparr>IsOff = False, SubPool = 0, Act = 0.5, Ext = 0, ActLrn = 0\<rparr>],
      Shp = [1, 2, 1, 1], SendPVQuarter = 3, PVReceivers = [''VSPatch'', ''CElAcq'', ''VSPatch'']\<rparr>"

definition ex_pvlv_net :: PVLVNetwork where
  "ex_pvlv_net =
     [''PosPV'' \<mapsto> NotModLayer,
      ''VSPatch'' \<mapsto> IModLayer \<lparr>ModNeurs = [\<lparr>PVAct = 0\<rparr>, \<lparr>PVAct = 0\<rparr>], IsPVReceiver = True\<rparr>,
      ''CElAcq'' \<mapsto> IModLayer \<lparr>ModNeurs = [\<lparr>PVAct = 1\<rparr>, \<lparr>PVAct = 1\<rparr>, \<lparr>PVAct = 1\<rparr>], IsPVReceiver = True\<rparr>]"

text \<open>
  A maintenance PFC deep layer of three pools with two rows of units each (two dynamics
  per super-layer unit), its super layer of three pools of one unit, and an output-gate
  deep layer that clears maintenance; \<open>ex_dsp\<close> stands for \<^verbatim>\<open>DecayStatePool\<close>.
\<close>

definition ex_dsp :: "Neuron list \<Rightarrow> int \<Rightarrow> real \<Rightarrow> Neuron list" where
  "ex_dsp ns pool decay =
     map (\<lambda>n. if SubPool n = pool + 1 then n\<lparr>Neuron.Act := Neuron.Act n - decay * Neuron.Act n\<rparr> else n) ns"

definition ex_super :: LeabraLayer where
  "ex_super =
     \<lparr>Neurons = [\<lparr>IsOff = False, SubPool = 1, Act = 0.5, Ext = 0, ActLrn = 0\<rparr>,
                 \<lparr>IsOff = False, SubPool = 2, Act = 0.25, Ext = 0, ActLrn = 0\<rparr>,
                 \<lparr>IsOff = False, SubPool = 3, Act = 1, Ext = 0, ActLrn = 0\<rparr>],
      Shp = [1, 3, 1, 1]\<rparr>"

definition ex_deep :: PFCDeepLayer where
  "ex_deep =
     \<lparr>Neurons = [\<lparr>IsOff = False, SubPool = 1, Act = 0, Ext = 0, ActLrn = 0\<rparr>,
                 \<lparr>IsOff = False, SubPool = 1, Act = 0, Ext = 0, ActLrn = 0\<rparr>,
                 \<lparr>IsOff = False, SubPool = 2, Act = 0, Ext = 0, ActLrn = 0\<rparr>,
                 \<lparr>IsOff = False, SubPool = 2, Act = 0, Ext = 0, ActLrn = 0\<rparr>,
                 \<lparr>IsOff = False, SubPool = 3, Act = 0, Ext = 0, ActLrn = 0\<rparr>,
                 \<lparr>IsOff = True, SubPool = 3, Act = 0, Ext = 0, ActLrn = 0\<rparr>],
      Shp = [1, 3, 2, 1],
      GateStates = [\<lparr>Act = 1, Now = True, Cnt = 1\<rparr>,
                    \<lparr>Act = 0, Now = True, Cnt = - 2\<rparr>,
                    \<lparr>Act = 0, Now = True, Cnt = 3\<rparr>],
      Gate = \<lparr>GateQtr = {1, 3}, OutGate = False, OutQ1Only = True\<rparr>,
      Maint = \<lparr>UseDyn = True, MaintGain = 0.5, OutClearMaint = False, Clear = 0.5, MaxMaint = 3\<rparr>,
      Dyns_Value = (\<lambda>dyn t. 2 + t),
      PFCNeurs = replicate 6 \<lparr>ActG = 0, Maint = 0.25, MaintGe = 0.125\<rparr>\<rparr>"

definition ex_out :: PFCDeepLayer where
  "ex_out =
     ex_deep\<lparr>GateStates := [\<lparr>Act = 1, Now = True, Cnt = 2\<rparr>,
                              \<lparr>Act = 1, Now = False, Cnt = - 1\<rparr>,
                              \<lparr>Act = 0, Now = True, Cnt = 1\<rparr>],
             Gate := \<lparr>GateQtr = {0}, OutGate = True, OutQ1Only = True\<rparr>,
             Maint := \<lparr>UseDyn = True, MaintGain = 0.5, OutClearMaint = True, Clear = 0, MaxMaint = 1\<rparr>\<rparr>"

definition ex_pbwm_net :: PBWMNetwork where
  "ex_pbwm_net = [''PFCmnt'' \<mapsto> Leabra ex_super, ''PFCmntD'' \<mapsto> PFCDeep ex_deep,
                  ''PFCoutD'' \<mapsto> PFCDeep ex_out]"

section \<open>Loops and panics: general lemmas\<close>

lemma bindE_Inr_iff: "bindE m f = Inr y \<longleftrightarrow> (\<exists>x. m = Inr x \<and> f x = Inr y)"
  by (cases m) (simp_all add: bindE_def)

lemma bindE_Inr [simp]: "bindE (Inr x) f = f x"
  by (simp add: bindE_def)

lemma bindE_Inl [simp]: "bindE (Inl e) f = Inl e"
  by (simp add: bindE_def)

lemma at_idx_Inr_iff: "at_idx xs i = Inr x \<longleftrightarrow> 0 \<le> i \<and> i < int (length xs) \<and> x = xs ! nat i"
  by (auto simp: at_idx_def)

lemma forE_append: "forE body (is @ js) s = bindE (forE body is s) (forE body js)"
  by (induction "is" arbitrary: s) (simp_all split: sum.splits)

lemma forE_single: "forE body [i] = body i"
  by (rule ext) (simp split: sum.splits)

lemma forE_snoc: "forE body (is @ [i]) s = bindE (forE body is s) (body i)"
  by (simp add: forE_append forE_single)

lemma forE_invariant:
  assumes "forE body is s = Inr s'" and "P s"
    and "\<And>i t t'. i \<in> set is \<Longrightarrow> P t \<Longrightarrow> body i t = Inr t' \<Longrightarrow> P t'"
  shows "P s'"
  using assms
proof (induction "is" arbitrary: s)
  case Nil
  then show ?case by simp
next
  case (Cons i "is")
  from Cons.prems(1) obtain t where t: "body i s = Inr t" and r: "forE body is t = Inr s'"
    by (auto split: sum.splits)
  have "P t" using Cons.prems(3) [of i s t] Cons.prems(2) t by simp
  moreover have "\<And>k u u'. k \<in> set is \<Longrightarrow> P u \<Longrightarrow> body k u = Inr u' \<Longrightarrow> P u'"
    by (rule Cons.prems(3)) simp_all
  ultimately show ?case using Cons.IH [OF r] by blast
qed

lemma forE_focus:
  assumes "forE body is s = Inr s'" and "distinct is" and "i \<in> set is"
    and "\<And>j t t'. j \<in> set is \<Longrightarrow> j \<noteq> i \<Longrightarrow> body j t = Inr t' \<Longrightarrow> v t' = v t"
  shows "\<exists>t t'. v t = v s \<and> body i t = Inr t' \<and> v t' = v s'"
  using assms
proof (induction "is" arbitrary: s)
  case Nil
  then show ?case by simp
next
  case (Cons j js)
  from Cons.prems(1) obtain u where u: "body j s = Inr u" and r: "forE body js u = Inr s'"
    by (auto split: sum.splits)
  show ?case
  proof (cases "j = i")
    case True
    then have "i \<notin> set js" using Cons.prems(2) by simp
    have "v s' = v u"
    proof (rule forE_invariant [OF r, where P = "\<lambda>t. v t = v u"])
      show "v u = v u" by simp
    next
      fix k t t' assume "k \<in> set js" "v t = v u" "body k t = Inr t'"
      moreover have "k \<noteq> i" using \<open>k \<in> set js\<close> \<open>i \<notin> set js\<close> by auto
      ultimately show "v t' = v u" using Cons.prems(4) [of k t t'] by simp
    qed
    then show ?thesis using u True by auto
  next
    case False
    then have i: "i \<in> set js" using Cons.prems(3) by simp
    have vu: "v u = v s" using Cons.prems(4) [of j s u] False u by simp
    have d: "distinct js" using Cons.prems(2) by simp
    have st: "\<And>k t t'. k \<in> set js \<Longrightarrow> k \<noteq> i \<Longrightarrow> body k t = Inr t' \<Longrightarrow> v t' = v t"
      by (rule Cons.prems(4)) simp_all
    have "\<exists>t t'. v t = v u \<and> body i t = Inr t' \<and> v t' = v s'"
      by (rule Cons.IH [OF r d i st])
    then show ?thesis using vu by auto
  qed
qed

lemma forE_focus_inv:
  assumes "forE body is s = Inr s'" and "distinct is" and "i \<in> set is" and "I s"
    and "\<And>j t t'. j \<in> set is \<Longrightarrow> I t \<Longrightarrow> body j t = Inr t' \<Longrightarrow> I t'"
    and "\<And>j t t'. j \<in> set is \<Longrightarrow> j \<noteq> i \<Longrightarrow> I t \<Longrightarrow> body j t = Inr t' \<Longrightarrow> v t' = v t"
  shows "\<exists>t t'. I t \<and> v t = v s \<and> body i t = Inr t' \<and> v t' = v s'"
  using assms
proof (induction "is" arbitrary: s)
  case Nil
  then show ?case by simp
next
  case (Cons j js)
  from Cons.prems(1) obtain u where u: "body j s = Inr u" and r: "forE body js u = Inr s'"
    by (auto split: sum.splits)
  have Iu: "I u" using Cons.prems(5) [of j s u] Cons.prems(4) u by simp
  have inv: "\<And>k t t'. k \<in> set js \<Longrightarrow> I t \<Longrightarrow> body k t = Inr t' \<Longrightarrow> I t'"
    by (rule Cons.prems(5)) simp_all
  have oth: "\<And>k t t'. k \<in> set js \<Longrightarrow> k \<noteq> i \<Longrightarrow> I t \<Longrightarrow> body k t = Inr t' \<Longrightarrow> v t' = v t"
    by (rule Cons.prems(6)) simp_all
  show ?case
  proof (cases "j = i")
    case True
    then have ni: "i \<notin> set js" using Cons.prems(2) by simp
    have "I s' \<and> v s' = v u"
    proof (rule forE_invariant [OF r, where P = "\<lambda>t. I t \<and> v t = v u"])
      show "I u \<and> v u = v u" using Iu by simp
    next
      fix k t t' assume k: "k \<in> set js" and t: "I t \<and> v t = v u" and b: "body k t = Inr t'"
      have "k \<noteq> i" using k ni by auto
      then show "I t' \<and> v t' = v u" using inv [OF k _ b] oth [OF k _ _ b] t by simp
    qed
    then show ?thesis using u True Cons.prems(4) by auto
  next
    case False
    then have i: "i \<in> set js" using Cons.prems(3) by simp
    have vu: "v u = v s" using Cons.prems(6) [of j s u] False u Cons.prems(4) by simp
    have d: "distinct js" using Cons.prems(2) by simp
    have "\<exists>t t'. I t \<and> v t = v u \<and> body i t = Inr t' \<and> v t' = v s'"
      by (rule Cons.IH [OF r d i Iu inv oth])
    then show ?thesis using vu by auto
  qed
qed

lemma forE_total:
  assumes "P s"
    and "\<And>i t. i \<in> set is \<Longrightarrow> P t \<Longrightarrow> \<exists>t'. body i t = Inr t' \<and> P t'"
  shows "\<exists>s'. forE body is s = Inr s' \<and> P s'"
  using assms
proof (induction "is" arbitrary: s)
  case Nil
  then show ?case by simp
next
  case (Cons i "is")
  from Cons.prems(2) [of i s] Cons.prems(1) obtain t where t: "body i s = Inr t" "P t" by auto
  have st: "\<And>k u. k \<in> set is \<Longrightarrow> P u \<Longrightarrow> \<exists>u'. body k u = Inr u' \<and> P u'"
    by (rule Cons.prems(2)) simp_all
  from Cons.IH [OF t(2) st] obtain s' where "forE body is t = Inr s'" "P s'"
    by blast
  then show ?case using t by simp
qed

lemma abs_decay_tr: "0 \<le> dk \<Longrightarrow> dk \<le> 1 \<Longrightarrow> \<bar>decay_tr dk tr\<bar> \<le> \<bar>tr\<bar>"
proof -
  assume a: "0 \<le> dk" "dk \<le> 1"
  have "decay_tr dk tr = (1 - dk) * tr" by (simp add: decay_tr_def algebra_simps)
  then have "\<bar>decay_tr dk tr\<bar> = (1 - dk) * \<bar>tr\<bar>" using a by (simp add: abs_mult)
  also have "\<dots> \<le> 1 * \<bar>tr\<bar>" using a by (intro mult_right_mono) simp_all
  finally show ?thesis by simp
qed

section \<open>Properties of the matrix layer\<close>

lemma DAActLrn_DALrn: "DAActLrn net ltime ly = Inr ly' \<Longrightarrow> DALrn ly' = DALrn_FmDA ly"
  unfolding DAActLrn_def Let_def
  by (auto simp: bindE_Inr_iff split: if_splits option.splits)

lemma ex_DAActLrn_early:
  "DAActLrn ex_pcore_net \<lparr>Quarter = 0, Cycle = 0\<rparr> ex_matrix = Inr (ex_matrix\<lparr>DALrn := 1\<rparr>)"
  by (simp add: DAActLrn_def ex_matrix_def DALrn_FmDA_def)

lemma ex_DAActLrn_early_D2R:
  "DAActLrn ex_pcore_net \<lparr>Quarter = 0, Cycle = 0\<rparr> (ex_matrix\<lparr>DaR := D2R\<rparr>)
     = Inr (ex_matrix\<lparr>DaR := D2R, DALrn := - 1\<rparr>)"
  by (simp add: DAActLrn_def ex_matrix_def DALrn_FmDA_def)

lemma ex_DAActLrn_late:
  "DAActLrn ex_pcore_net \<lparr>Quarter = 1, Cycle = 40\<rparr> ex_matrix =
     Inr (ex_matrix\<lparr>DALrn := 1,
            Neurons := [\<lparr>IsOff = False, SubPool = 1, Act = 0.5, Ext = 0, ActLrn = 0.5\<rparr>,
                        \<lparr>IsOff = False, SubPool = 2, Act = 0.25, Ext = 0, ActLrn = - 0.375\<rparr>,
                        \<lparr>IsOff = True, SubPool = 2, Act = 0, Ext = 0, ActLrn = 7\<rparr>]\<rparr>)"
  by (simp add: DAActLrn_def ex_matrix_def DALrn_FmDA_def ex_pcore_net_def ex_vthal_def ThalLayer_def
      DAActLrn_unit_def at_idx_def upt_rec LrnFactor_def Let_def)

text \<open>
  Claim C5. Whenever \<^verbatim>\<open>DAActLrn\<close> returns, the layer's \<open>DALrn\<close> is the raw \<open>DA\<close> times
  \<open>BurstGain\<close> when \<open>DA > 0\<close> and times \<open>DipGain\<close> otherwise, negated exactly for a
  \<open>D2R\<close> layer; it returns on every cycle before \<open>AlphaMaxCyc\<close>; and two layers with the
  same gains and raw \<open>DA = 0.5\<close>, one \<open>D1R\<close> and one \<open>D2R\<close>, get opposite values.
\<close>

theorem DALrn_burst_dip_polarity:
  "(DAActLrn net ltime ly = Inr ly' \<longrightarrow>
      DALrn ly' = (if DaR ly = D2R then - 1 else 1) *
                  (if DA ly > 0 then DA ly * BurstGain (Matrix ly) else DA ly * DipGain (Matrix ly)))
   \<and> (Cycle ltime < AlphaMaxCyc ly \<longrightarrow> (\<exists>ly'. DAActLrn net ltime ly = Inr ly'))
   \<and> (DAActLrn net1 t1 ly1 = Inr ly1' \<and> DAActLrn net2 t2 ly2 = Inr ly2' \<and>
      DA ly1 = 0.5 \<and> DA ly2 = 0.5 \<and>
      BurstGain (Matrix ly1) = BurstGain (Matrix ly2) \<and> DipGain (Matrix ly1) = DipGain (Matrix ly2) \<and>
      DaR ly1 = D1R \<and> DaR ly2 = D2R \<longrightarrow>
      DALrn ly1' = 0.5 * BurstGain (Matrix ly1) \<and> DALrn ly2' = - DALrn ly1')"
proof (intro conjI impI)
  assume "DAActLrn net ltime ly = Inr ly'"
  then show "DALrn ly' = (if DaR ly = D2R then - 1 else 1) *
                  (if DA ly > 0 then DA ly * BurstGain (Matrix ly) else DA ly * DipGain (Matrix ly))"
    by (simp add: DAActLrn_DALrn DALrn_FmDA_def)
next
  assume "Cycle ltime < AlphaMaxCyc ly"
  then show "\<exists>ly'. DAActLrn net ltime ly = Inr ly'"
    by (simp add: DAActLrn_def)
next
  assume a: "DAActLrn net1 t1 ly1 = Inr ly1' \<and> DAActLrn net2 t2 ly2 = Inr ly2' \<and>
      DA ly1 = 0.5 \<and> DA ly2 = 0.5 \<and>
      BurstGain (Matrix ly1) = BurstGain (Matrix ly2) \<and> DipGain (Matrix ly1) = DipGain (Matrix ly2) \<and>
      DaR ly1 = D1R \<and> DaR ly2 = D2R"
  then have 1: "DALrn ly1' = DALrn_FmDA ly1" and 2: "DALrn ly2' = DALrn_FmDA ly2"
    by (blast dest: DAActLrn_DALrn)+
  show "DALrn ly1' = 0.5 * BurstGain (Matrix ly1)"
    using a 1 by (simp add: DALrn_FmDA_def)
  show "DALrn ly2' = - DALrn ly1'"
    using a 1 2 by (simp add: DALrn_FmDA_def)
qed

theorem DALrn_burst_dip_polarity_witness:
  "DAActLrn ex_pcore_net \<lparr>Quarter = 0, Cycle = 0\<rparr> ex_matrix = Inr (ex_matrix\<lparr>DALrn := 1\<rparr>)
   \<and> DAActLrn ex_pcore_net \<lparr>Quarter = 0, Cycle = 0\<rparr> (ex_matrix\<lparr>DaR := D2R\<rparr>)
       = Inr (ex_matrix\<lparr>DaR := D2R, DALrn := - 1\<rparr>)
   \<and> DA ex_matrix = 0.5 \<and> BurstGain (Matrix ex_matrix) = 2
   \<and> DALrn (ex_matrix\<lparr>DALrn := 1\<rparr>) = 0.5 * 2
   \<and> DALrn (ex_matrix\<lparr>DaR := D2R, DALrn := - 1\<rparr>) = - DALrn (ex_matrix\<lparr>DALrn := 1\<rparr>)"
  using DALrn_burst_dip_polarity
    [of ex_pcore_net "\<lparr>Quarter = 0, Cycle = 0\<rparr>" ex_matrix "ex_matrix\<lparr>DALrn := 1\<rparr>"
        ex_pcore_net "\<lparr>Quarter = 0, Cycle = 0\<rparr>" ex_matrix "ex_matrix\<lparr>DALrn := 1\<rparr>"
        ex_pcore_net "\<lparr>Quarter = 0, Cycle = 0\<rparr>" "ex_matrix\<lparr>DaR := D2R\<rparr>"
        "ex_matrix\<lparr>DaR := D2R, DALrn := - 1\<rparr>"]
    ex_DAActLrn_early ex_DAActLrn_early_D2R
  by (simp add: ex_matrix_def)

lemma DAActLrn_unit_other:
  "DAActLrn_unit ly tly j t = Inr t' \<Longrightarrow> j \<noteq> ni \<Longrightarrow> (t' ! ni, length t') = (t ! ni, length t)"
  unfolding DAActLrn_unit_def Let_def
  by (auto simp: bindE_Inr_iff split: if_splits)

lemma DAActLrn_unit_self:
  assumes "DAActLrn_unit ly tly ni t = Inr t'" and "ni < length t" and "\<not> IsOff (t ! ni)"
  shows "t' ! ni = (t ! ni)\<lparr>ActLrn :=
            (if AlphaMaxs tly ! nat (SubPool (t ! ni) - 1) > ThalThr (Matrix ly)
             then LrnFactor (Matrix ly) (AlphaMaxs ly ! ni)
             else - LrnFactor (Matrix ly) (AlphaMaxs ly ! ni))\<rparr>"
  using assms unfolding DAActLrn_unit_def Let_def
  by (auto simp: bindE_Inr_iff at_idx_Inr_iff split: if_splits)

text \<open>
  Claim C6. Whenever \<^verbatim>\<open>DAActLrn\<close> returns: on a cycle before \<open>AlphaMaxCyc\<close> no unit is
  changed; on a cycle at or after it, with the thalamic layer \<open>tly\<close> found under the
  configured name, every unit that is on keeps its fields but \<open>ActLrn\<close>, which becomes
  \<open>LrnFactor\<close> of the unit's alpha-max when the alpha-max of the unit's pool in \<open>tly\<close>
  exceeds \<open>ThalThr\<close>, and minus that otherwise.
\<close>

theorem ActLrn_contrastive_after_AlphaMaxCyc:
  assumes "DAActLrn net ltime ly = Inr ly'"
  shows "(Cycle ltime < AlphaMaxCyc ly \<longrightarrow> Neurons ly' = Neurons ly)
       \<and> (AlphaMaxCyc ly \<le> Cycle ltime \<and> net (ThalLay (Matrix ly)) = Some (VThalLayer tly) \<and>
          ni < length (Neurons ly) \<and> \<not> IsOff (Neurons ly ! ni) \<longrightarrow>
            Neurons ly' ! ni = (Neurons ly ! ni)\<lparr>ActLrn :=
              (if AlphaMaxs tly ! nat (SubPool (Neurons ly ! ni) - 1) > ThalThr (Matrix ly)
               then LrnFactor (Matrix ly) (AlphaMaxs ly ! ni)
               else - LrnFactor (Matrix ly) (AlphaMaxs ly ! ni))\<rparr>)"
proof (intro conjI impI)
  assume "Cycle ltime < AlphaMaxCyc ly"
  then show "Neurons ly' = Neurons ly"
    using assms by (auto simp: DAActLrn_def)
next
  assume a: "AlphaMaxCyc ly \<le> Cycle ltime \<and> net (ThalLay (Matrix ly)) = Some (VThalLayer tly) \<and>
          ni < length (Neurons ly) \<and> \<not> IsOff (Neurons ly ! ni)"
  define ly1 where "ly1 = ly\<lparr>DALrn := DALrn_FmDA ly\<rparr>"
  have th: "ThalLayer net ly1 = Inr (Some tly)"
    using a by (simp add: ThalLayer_def ly1_def)
  have "\<not> Cycle ltime < AlphaMaxCyc ly" using a by simp
  then obtain ns where loop: "forE (DAActLrn_unit ly1 tly) [0..<length (Neurons ly)] (Neurons ly) = Inr ns"
    and ly': "ly' = ly1\<lparr>Neurons := ns\<rparr>"
    using assms th unfolding DAActLrn_def Let_def ly1_def [symmetric]
    by (auto simp: bindE_Inr_iff ly1_def)
  have "\<exists>t t'. (t ! ni, length t) = (Neurons ly ! ni, length (Neurons ly))
            \<and> DAActLrn_unit ly1 tly ni t = Inr t' \<and> (t' ! ni, length t') = (ns ! ni, length ns)"
  proof (rule forE_focus [OF loop])
    show "distinct [0..<length (Neurons ly)]" by simp
    show "ni \<in> set [0..<length (Neurons ly)]" using a by simp
    show "\<And>j t t'. j \<in> set [0..<length (Neurons ly)] \<Longrightarrow> j \<noteq> ni \<Longrightarrow>
        DAActLrn_unit ly1 tly j t = Inr t' \<Longrightarrow> (t' ! ni, length t') = (t ! ni, length t)"
      by (rule DAActLrn_unit_other)
  qed
  then obtain t t' where t: "t ! ni = Neurons ly ! ni" "length t = length (Neurons ly)"
    and b: "DAActLrn_unit ly1 tly ni t = Inr t'" and t': "t' ! ni = ns ! ni"
    by auto
  have "t' ! ni = (t ! ni)\<lparr>ActLrn :=
            (if AlphaMaxs tly ! nat (SubPool (t ! ni) - 1) > ThalThr (Matrix ly1)
             then LrnFactor (Matrix ly1) (AlphaMaxs ly1 ! ni)
             else - LrnFactor (Matrix ly1) (AlphaMaxs ly1 ! ni))\<rparr>"
    using a t by (intro DAActLrn_unit_self [OF b]) simp_all
  then show "Neurons ly' ! ni = (Neurons ly ! ni)\<lparr>ActLrn :=
              (if AlphaMaxs tly ! nat (SubPool (Neurons ly ! ni) - 1) > ThalThr (Matrix ly)
               then LrnFactor (Matrix ly) (AlphaMaxs ly ! ni)
               else - LrnFactor (Matrix ly) (AlphaMaxs ly ! ni))\<rparr>"
    using t t' ly' by (simp add: ly1_def)
qed

theorem ActLrn_contrastive_after_AlphaMaxCyc_witness:
  "DAActLrn ex_pcore_net \<lparr>Quarter = 1, Cycle = 40\<rparr> ex_matrix =
     Inr (ex_matrix\<lparr>DALrn := 1,
            Neurons := [\<lparr>IsOff = False, SubPool = 1, Act = 0.5, Ext = 0, ActLrn = 0.5\<rparr>,
                        \<lparr>IsOff = False, SubPool = 2, Act = 0.25, Ext = 0, ActLrn = - 0.375\<rparr>,
                        \<lparr>IsOff = True, SubPool = 2, Act = 0, Ext = 0, ActLrn = 7\<rparr>]\<rparr>)
   \<and> AlphaMaxCyc ex_matrix \<le> 40
   \<and> ex_pcore_net (ThalLay (Matrix ex_matrix)) = Some (VThalLayer ex_vthal)
   \<and> \<not> IsOff (Neurons ex_matrix ! 1)
   \<and> \<not> AlphaMaxs ex_vthal ! nat (SubPool (Neurons ex_matrix ! 1) - 1) > ThalThr (Matrix ex_matrix)
   \<and> - LrnFactor (Matrix ex_matrix) (AlphaMaxs ex_matrix ! 1) = - 0.375"
  using ActLrn_contrastive_after_AlphaMaxCyc [where tly = ex_vthal and ni = 1, OF ex_DAActLrn_late]
    ex_DAActLrn_late
  by (simp add: ex_matrix_def ex_vthal_def ex_pcore_net_def LrnFactor_def)

subsection \<open>The learning activation is computed for every unit\<close>

text \<open>
  With a thalamus layer of the right type under the name \<^verbatim>\<open>Matrix.ThalLay\<close>, and every unit
  that is on having a slot in \<^verbatim>\<open>AlphaMaxs\<close> and a sub-pool among the units of the thalamus
  layer, \<^verbatim>\<open>DAActLrn\<close> returns a layer.
\<close>

lemma DAActLrn_returns:
  assumes thal: "net (ThalLay (Matrix ly)) = Some (VThalLayer tly)"
    and wf: "\<And>ni. ni < length (Neurons ly) \<Longrightarrow> \<not> IsOff (Neurons ly ! ni) \<Longrightarrow>
           ni < length (AlphaMaxs ly) \<and> 1 \<le> SubPool (Neurons ly ! ni)
           \<and> SubPool (Neurons ly ! ni) \<le> int (length (AlphaMaxs tly))"
  shows "\<exists>ly'. DAActLrn net ltime ly = Inr ly'"
proof -
  define ly1 where "ly1 = ly\<lparr>DALrn := DALrn_FmDA ly\<rparr>"
  let ?P = "\<lambda>ns :: Neuron list. length ns = length (Neurons ly) \<and>
      (\<forall>ni<length ns. IsOff (ns ! ni) = IsOff (Neurons ly ! ni) \<and> SubPool (ns ! ni) = SubPool (Neurons ly ! ni))"
  have "\<exists>ns. forE (DAActLrn_unit ly1 tly) [0..<length (Neurons ly)] (Neurons ly) = Inr ns \<and> ?P ns"
  proof (rule forE_total [where P = ?P])
    show "?P (Neurons ly)" by simp
  next
    fix ni t
    assume ni: "ni \<in> set [0..<length (Neurons ly)]" and t: "?P t"
    then have n: "ni < length (Neurons ly)" "ni < length t" by simp_all
    show "\<exists>t'. DAActLrn_unit ly1 tly ni t = Inr t' \<and> ?P t'"
    proof (cases "IsOff (t ! ni)")
      case True
      then show ?thesis using t by (simp add: DAActLrn_unit_def Let_def)
    next
      case False
      then have "\<not> IsOff (Neurons ly ! ni)" using t n by simp
      from wf [OF n(1) this] have w: "ni < length (AlphaMaxs ly)"
        "1 \<le> SubPool (t ! ni)" "SubPool (t ! ni) \<le> int (length (AlphaMaxs tly))"
        using t n by simp_all
      show ?thesis
        using False w t n
        by (auto simp: DAActLrn_unit_def Let_def at_idx_def ly1_def nth_list_update)
    qed
  qed
  then show ?thesis
    using thal unfolding DAActLrn_def Let_def ly1_def [symmetric]
    by (auto simp: ThalLayer_def ly1_def)
qed

section \<open>Properties of the matrix projection\<close>

text \<open>
  Claim C7. For \<open>ACh \<ge> 0\<close> and a decay gain \<open>\<ge> 0\<close>, the decay factor \<open>dk\<close> of a learning
  pass is \<open>min 1 (ACh * Decay)\<close>, it lies between 0 and 1, and the decay step
  \<^verbatim>\<open>tr -= achDk * tr\<close> never increases the absolute value of the trace: under
  current-trial DA the stored trace is at most \<open>\<bar>tr0 + ntr\<bar>\<close> in absolute value, and
  under delayed DA it is \<open>ntr\<close> plus a part at most \<open>\<bar>tr0\<bar>\<close>.
\<close>

theorem achDk_decay_bounded:
  assumes "0 \<le> ACh rlay" and "0 \<le> Decay (Trace pj)" and "dk = achDk rlay pj"
  shows "dk = min 1 (ACh rlay * Decay (Trace pj))
       \<and> 0 \<le> dk \<and> dk \<le> 1
       \<and> \<bar>decay_tr dk tr\<bar> \<le> \<bar>tr\<bar>
       \<and> \<bar>snd (trace_dwt True da daLrn dk ntr tr0)\<bar> \<le> \<bar>tr0 + ntr\<bar>
       \<and> \<bar>snd (trace_dwt False da daLrn dk ntr tr0) - ntr\<bar> \<le> \<bar>tr0\<bar>"
proof -
  have 0: "0 \<le> dk" using assms by (simp add: achDk_def)
  have 1: "dk \<le> 1" using assms by (simp add: achDk_def)
  have a: "snd (trace_dwt True da daLrn dk ntr tr0) = decay_tr dk (tr0 + ntr)"
    and b: "snd (trace_dwt False da daLrn dk ntr tr0) - ntr = decay_tr dk tr0"
    by (simp_all add: trace_dwt_def Let_def)
  have c: "\<bar>snd (trace_dwt True da daLrn dk ntr tr0)\<bar> \<le> \<bar>tr0 + ntr\<bar>"
    unfolding a by (rule abs_decay_tr [OF 0 1])
  have d: "\<bar>snd (trace_dwt False da daLrn dk ntr tr0) - ntr\<bar> \<le> \<bar>tr0\<bar>"
    unfolding b by (rule abs_decay_tr [OF 0 1])
  have e: "dk = min 1 (ACh rlay * Decay (Trace pj))"
    using assms(3) by (simp add: achDk_def)
  show ?thesis
    using 0 1 abs_decay_tr [OF 0 1, of tr] c d e by blast
qed

theorem achDk_decay_bounded_witness:
  "0 \<le> ACh ex_matrix \<and> 0 \<le> Decay (Trace ex_prjn)
   \<and> achDk ex_matrix ex_prjn = 0.5
   \<and> decay_tr (achDk ex_matrix ex_prjn) (- 3) = - 1.5
   \<and> \<bar>decay_tr (achDk ex_matrix ex_prjn) (- 3)\<bar> \<le> \<bar>- 3 :: real\<bar>
   \<and> snd (trace_dwt True 1 1 (achDk ex_matrix ex_prjn) 1 (- 3)) = - 1
   \<and> snd (trace_dwt False 1 1 (achDk ex_matrix ex_prjn) 1 (- 3)) = - 0.5"
proof -
  have p: "0 \<le> ACh ex_matrix" "0 \<le> Decay (Trace ex_prjn)"
    by (simp_all add: ex_matrix_def ex_prjn_def)
  note a = achDk_decay_bounded [OF p refl, of "- 3" 1 1 1 "- 3"]
  show ?thesis
    using a p by (simp add: ex_matrix_def ex_prjn_def achDk_def decay_tr_def trace_dwt_def Let_def)
qed

lemma prjn_params_fields:
  assumes "prjn_params pj = prjn_params pj0"
  shows "Learn_Learn pj = Learn_Learn pj0" "Learn_Lrate pj = Learn_Lrate pj0"
    "Learn_Norm_On pj = Learn_Norm_On pj0" "Learn_Momentum_On pj = Learn_Momentum_On pj0"
    "Learn_Norm_NormFmAbsDWt pj a b = Learn_Norm_NormFmAbsDWt pj0 a b"
    "Learn_Momentum_MomentFmDWt pj a b = Learn_Momentum_MomentFmDWt pj0 a b"
    "SConN pj = SConN pj0" "SConIdxSt pj = SConIdxSt pj0" "SConIdx pj = SConIdx pj0"
    "Trace pj = Trace pj0"
  using assms unfolding prjn_params_def
  by (cases pj, cases pj0, simp)+

lemma DWt_syn_params:
  "prjn_params pj = prjn_params pj0 \<Longrightarrow> DWt_syn pj = DWt_syn pj0"
  by (intro ext) (simp add: DWt_syn_def prjn_params_fields [of pj pj0] cong: if_cong)

lemma sender_owns_params:
  "prjn_params pj = prjn_params pj0 \<Longrightarrow> sender_owns pj = sender_owns pj0"
  by (intro ext) (simp add: sender_owns_def prjn_params_fields [of pj pj0])

lemma sum_list_take_mono:
  assumes "\<And>k. k < n \<Longrightarrow> 0 \<le> (xs :: int list) ! k" and "a \<le> b" and "b \<le> n" and "n \<le> length xs"
  shows "sum_list (take a xs) \<le> sum_list (take b xs)"
  using assms(2,3)
proof (induction b)
  case 0
  then show ?case by simp
next
  case (Suc b)
  show ?case
  proof (cases "a = Suc b")
    case True
    then show ?thesis by simp
  next
    case False
    then have ab: "a \<le> b" using Suc.prems by simp
    have b: "b < length xs" "b < n" using Suc.prems assms(4) by simp_all
    have "sum_list (take (Suc b) xs) = sum_list (take b xs) + xs ! b"
      using b by (simp add: take_Suc_conv_app_nth)
    moreover have "0 \<le> xs ! b" using assms(1) b by simp
    ultimately show ?thesis using Suc.IH [OF ab] Suc.prems by simp
  qed
qed

lemma packed_layout_owns_once:
  assumes p: "packed_layout pj n" and "si < n" and "sj < n"
    and oi: "sender_owns pj si j" and oj: "sender_owns pj sj j"
  shows "si = sj"
proof -
  have lt: False if a: "a < b" "b < n" "sender_owns pj a j" "sender_owns pj b j" for a b
  proof -
    have nn: "\<And>k. k < n \<Longrightarrow> 0 \<le> SConN pj ! k" using p by (simp add: packed_layout_def)
    have len: "n \<le> length (SConN pj)" using p by (simp add: packed_layout_def)
    have sa: "SConIdxSt pj ! a = sum_list (take a (SConN pj))"
      and sb: "SConIdxSt pj ! b = sum_list (take b (SConN pj))"
      using p a by (simp_all add: packed_layout_def)
    have "sum_list (take (Suc a) (SConN pj)) \<le> sum_list (take b (SConN pj))"
      using a by (intro sum_list_take_mono [OF nn _ _ len]) simp_all
    moreover have "sum_list (take (Suc a) (SConN pj)) = sum_list (take a (SConN pj)) + SConN pj ! a"
      using a len by (simp add: take_Suc_conv_app_nth)
    ultimately have "SConIdxSt pj ! a + SConN pj ! a \<le> SConIdxSt pj ! b" using sa sb by simp
    then show False using a(3,4) by (simp add: sender_owns_def)
  qed
  show ?thesis
  proof (rule ccontr)
    assume "si \<noteq> sj"
    then consider "si < sj" | "sj < si" by linarith
    then show False using lt assms by cases blast+
  qed
qed

lemma ex_prjn_packed: "packed_layout ex_prjn (length (Neurons ex_send))"
  by (simp add: packed_layout_def ex_prjn_def ex_send_def less_Suc_eq)

lemma DWt_con_other:
  assumes "DWt_con rlay da daLrn dk sn st ci pj = Inr pj'" and "k \<noteq> nat (st + int ci)"
  shows "syn_view k pj' = syn_view k pj"
  using assms unfolding DWt_con_def Let_def syn_view_def prjn_params_def
  by (auto simp: bindE_Inr_iff split_def)

lemma DWt_con_self:
  assumes "DWt_con rlay da daLrn dk sn st ci pj = Inr pj'" and "j = nat (st + int ci)"
    and "j < length (Syns pj)" and "j < length (TrSyns pj)"
  shows "syn_view j pj' =
          (DWt_syn pj da daLrn dk (ActLrn (Neurons rlay ! nat (SConIdx pj ! j)) * ActLrn sn) (Syns pj ! j, TrSyns pj ! j),
           prjn_params pj, length (Syns pj), length (TrSyns pj))"
  using assms unfolding DWt_con_def Let_def syn_view_def prjn_params_def
  by (auto simp: bindE_Inr_iff at_idx_Inr_iff split_def)

lemma DWt_inner_other:
  assumes "forE (DWt_con rlay da daLrn dk sn st) [0..<n] pj = Inr pj'"
    and "\<And>ci. ci < n \<Longrightarrow> k \<noteq> nat (st + int ci)"
  shows "syn_view k pj' = syn_view k pj"
proof (rule forE_invariant [OF assms(1), where P = "\<lambda>t. syn_view k t = syn_view k pj"])
  show "syn_view k pj = syn_view k pj" by simp
next
  fix ci t t'
  assume "ci \<in> set [0..<n]" and t: "syn_view k t = syn_view k pj"
    and b: "DWt_con rlay da daLrn dk sn st ci t = Inr t'"
  then have "k \<noteq> nat (st + int ci)" using assms(2) by simp
  from DWt_con_other [OF b this] t show "syn_view k t' = syn_view k pj" by simp
qed

lemma DWt_inner_params:
  assumes "forE (DWt_con rlay da daLrn dk sn st) is pj = Inr pj'"
  shows "prjn_params pj' = prjn_params pj \<and> length (Syns pj') = length (Syns pj)
       \<and> length (TrSyns pj') = length (TrSyns pj)"
proof (rule forE_invariant [OF assms, where P = "\<lambda>t. prjn_params t = prjn_params pj \<and> length (Syns t) = length (Syns pj)
       \<and> length (TrSyns t) = length (TrSyns pj)"])
  show "prjn_params pj = prjn_params pj \<and> length (Syns pj) = length (Syns pj)
       \<and> length (TrSyns pj) = length (TrSyns pj)" by simp
next
  fix ci t t'
  assume t: "prjn_params t = prjn_params pj \<and> length (Syns t) = length (Syns pj)
       \<and> length (TrSyns t) = length (TrSyns pj)"
    and b: "DWt_con rlay da daLrn dk sn st ci t = Inr t'"
  have "prjn_params t' = prjn_params t \<and> length (Syns t') = length (Syns t) \<and> length (TrSyns t') = length (TrSyns t)"
    using b unfolding DWt_con_def Let_def prjn_params_def
    by (auto simp: bindE_Inr_iff split_def)
  then show "prjn_params t' = prjn_params pj \<and> length (Syns t') = length (Syns pj)
       \<and> length (TrSyns t') = length (TrSyns pj)" using t by simp
qed

lemma DWt_inner_self:
  assumes loop: "forE (DWt_con rlay da daLrn dk sn st) [0..<n] pj = Inr pj'"
    and "ci < n" and "0 \<le> st" and j: "j = nat (st + int ci)"
    and "j < length (Syns pj)" and "j < length (TrSyns pj)"
  shows "syn_view j pj' =
          (DWt_syn pj da daLrn dk (ActLrn (Neurons rlay ! nat (SConIdx pj ! j)) * ActLrn sn) (Syns pj ! j, TrSyns pj ! j),
           prjn_params pj, length (Syns pj), length (TrSyns pj))"
proof -
  have "\<exists>t t'. syn_view j t = syn_view j pj \<and> DWt_con rlay da daLrn dk sn st ci t = Inr t'
          \<and> syn_view j t' = syn_view j pj'"
  proof (rule forE_focus [OF loop])
    show "distinct [0..<n]" by simp
    show "ci \<in> set [0..<n]" using assms(2) by simp
    fix cj t t'
    assume "cj \<noteq> ci" and b: "DWt_con rlay da daLrn dk sn st cj t = Inr t'"
    then have "j \<noteq> nat (st + int cj)" using j assms(3) by auto
    from DWt_con_other [OF b this] show "syn_view j t' = syn_view j t" .
  qed
  then obtain t t' where t: "syn_view j t = syn_view j pj"
    and b: "DWt_con rlay da daLrn dk sn st ci t = Inr t'"
    and t': "syn_view j t' = syn_view j pj'" by blast
  from t have eqs: "Syns t ! j = Syns pj ! j" "TrSyns t ! j = TrSyns pj ! j"
    "prjn_params t = prjn_params pj" "length (Syns t) = length (Syns pj)"
    "length (TrSyns t) = length (TrSyns pj)"
    by (simp_all add: syn_view_def)
  have "syn_view j t' =
          (DWt_syn t da daLrn dk (ActLrn (Neurons rlay ! nat (SConIdx t ! j)) * ActLrn sn) (Syns t ! j, TrSyns t ! j),
           prjn_params t, length (Syns t), length (TrSyns t))"
    using assms(5,6) eqs by (intro DWt_con_self [OF b j]) simp_all
  then show ?thesis
    using t' eqs DWt_syn_params [OF eqs(3)] prjn_params_fields(9) [OF eqs(3)] by simp
qed

lemma fold_Norm_length:
  "length (fold (\<lambda>j ss. ss[j := (ss ! j)\<lparr>Norm := m\<rparr>]) js ss) = length ss"
  by (induction js arbitrary: ss) simp_all

lemma fold_Norm_other:
  "k \<notin> set js \<Longrightarrow> fold (\<lambda>j ss. ss[j := (ss ! j)\<lparr>Norm := m\<rparr>]) js ss ! k = ss ! k"
  by (induction js arbitrary: ss) simp_all

lemma fold_Norm_upto:
  "k < length ss \<Longrightarrow>
     (fold (\<lambda>j ss. ss[j := (ss ! j)\<lparr>Norm := m\<rparr>]) js ss ! k)\<lparr>Norm := c\<rparr> = (ss ! k)\<lparr>Norm := c\<rparr>"
proof (induction js arbitrary: ss)
  case Nil
  then show ?case by simp
next
  case (Cons j js)
  have "(ss[j := (ss ! j)\<lparr>Norm := m\<rparr>] ! k)\<lparr>Norm := c\<rparr> = (ss ! k)\<lparr>Norm := c\<rparr>"
    using Cons.prems by (cases "j = k") simp_all
  then show ?case using Cons.IH [of "ss[j := (ss ! j)\<lparr>Norm := m\<rparr>]"] Cons.prems by simp
qed

lemma norm_agg_frame:
  "prjn_params (norm_agg st nc pj) = prjn_params pj"
  "length (Syns (norm_agg st nc pj)) = length (Syns pj)"
  "TrSyns (norm_agg st nc pj) = TrSyns pj"
  by (simp_all add: norm_agg_def Let_def prjn_params_def fold_Norm_length)

lemma norm_agg_other:
  assumes "\<And>ci. ci < nat nc \<Longrightarrow> k \<noteq> nat (st + int ci)"
  shows "Syns (norm_agg st nc pj) ! k = Syns pj ! k"
proof -
  have "k \<notin> set (map (\<lambda>ci. nat (st + int ci)) [0..<nat nc])"
  proof
    assume "k \<in> set (map (\<lambda>ci. nat (st + int ci)) [0..<nat nc])"
    then obtain ci where "ci < nat nc" "k = nat (st + int ci)" by auto
    then show False using assms by blast
  qed
  then show ?thesis by (simp add: norm_agg_def Let_def fold_Norm_other)
qed

lemma norm_agg_upto:
  "k < length (Syns pj) \<Longrightarrow> (Syns (norm_agg st nc pj) ! k)\<lparr>Norm := c\<rparr> = (Syns pj ! k)\<lparr>Norm := c\<rparr>"
  by (simp add: norm_agg_def Let_def fold_Norm_upto)

lemma DWt_send_params:
  assumes "DWt_send slay rlay da daLrn dk si pj = Inr pj'"
  shows "prjn_params pj' = prjn_params pj"
  using assms unfolding DWt_send_def Let_def
  by (auto simp: bindE_Inr_iff norm_agg_frame dest: DWt_inner_params split: if_splits)

lemma DWt_send_other:
  assumes "DWt_send slay rlay da daLrn dk sj pj = Inr pj'" and "\<not> sender_owns pj sj k"
  shows "syn_view k pj' = syn_view k pj"
proof -
  from assms(1) obtain nc st q where nc: "at_idx (SConN pj) (int sj) = Inr nc"
    and st: "at_idx (SConIdxSt pj) (int sj) = Inr st"
    and chk: "slice_chk (length (Syns pj)) st (st + nc) = Inr ()"
    and loop: "forE (DWt_con rlay da daLrn dk (Neurons slay ! sj) st) [0..<nat nc] pj = Inr q"
    and pj': "pj' = (if Learn_Norm_On q then norm_agg st nc q else q)"
    unfolding DWt_send_def Let_def by (auto simp: bindE_Inr_iff)
  have st0: "0 \<le> st" using chk by (auto simp: slice_chk_def split: if_splits)
  have out: "k \<noteq> nat (st + int ci)" if "ci < nat nc" for ci
    using assms(2) nc st st0 that by (auto simp: sender_owns_def at_idx_Inr_iff)
  have q: "syn_view k q = syn_view k pj"
    by (rule DWt_inner_other [OF loop out])
  show ?thesis
  proof (cases "Learn_Norm_On q")
    case True
    then show ?thesis
      using q pj' norm_agg_frame [of st nc q] norm_agg_other [of nc k st q] out
      by (simp add: syn_view_def)
  next
    case False
    then show ?thesis using q pj' by simp
  qed
qed

lemma DWt_send_self:
  assumes "DWt_send slay rlay da daLrn dk si pj = Inr pj'" and "sender_owns pj si j"
  shows "\<exists>r. r = DWt_syn pj da daLrn dk (ActLrn (Neurons rlay ! nat (SConIdx pj ! j)) * ActLrn (Neurons slay ! si))
                 (Syns pj ! j, TrSyns pj ! j)
       \<and> TrSyns pj' ! j = snd r
       \<and> (Syns pj' ! j)\<lparr>Norm := 0\<rparr> = (fst r)\<lparr>Norm := 0\<rparr>
       \<and> (\<not> Learn_Norm_On pj \<longrightarrow> Syns pj' ! j = fst r)"
proof -
  from assms(1) obtain nc st q where nc: "at_idx (SConN pj) (int si) = Inr nc"
    and st: "at_idx (SConIdxSt pj) (int si) = Inr st"
    and chk: "slice_chk (length (Syns pj)) st (st + nc) = Inr ()"
    and chk2: "slice_chk (length (TrSyns pj)) st (st + nc) = Inr ()"
    and loop: "forE (DWt_con rlay da daLrn dk (Neurons slay ! si) st) [0..<nat nc] pj = Inr q"
    and pj': "pj' = (if Learn_Norm_On q then norm_agg st nc q else q)"
    unfolding DWt_send_def Let_def by (auto simp: bindE_Inr_iff)
  have st0: "0 \<le> st" using chk by (auto simp: slice_chk_def split: if_splits)
  have rng: "st \<le> int j" "int j < st + nc"
    using assms(2) nc st by (auto simp: sender_owns_def at_idx_Inr_iff)
  define ci where "ci = nat (int j - st)"
  have ci: "ci < nat nc" "j = nat (st + int ci)" using rng st0 by (auto simp: ci_def)
  have jl: "j < length (Syns pj)" "j < length (TrSyns pj)"
    using chk chk2 rng by (auto simp: slice_chk_def split: if_splits)
  have v: "syn_view j q =
          (DWt_syn pj da daLrn dk (ActLrn (Neurons rlay ! nat (SConIdx pj ! j)) * ActLrn (Neurons slay ! si)) (Syns pj ! j, TrSyns pj ! j),
           prjn_params pj, length (Syns pj), length (TrSyns pj))"
    by (rule DWt_inner_self [OF loop ci(1) st0 ci(2) jl])
  have no: "Learn_Norm_On q = Learn_Norm_On pj"
    using v by (simp add: syn_view_def prjn_params_fields(3) [of q pj])
  have qj: "Syns q ! j = fst (DWt_syn pj da daLrn dk (ActLrn (Neurons rlay ! nat (SConIdx pj ! j)) * ActLrn (Neurons slay ! si)) (Syns pj ! j, TrSyns pj ! j))"
    "TrSyns q ! j = snd (DWt_syn pj da daLrn dk (ActLrn (Neurons rlay ! nat (SConIdx pj ! j)) * ActLrn (Neurons slay ! si)) (Syns pj ! j, TrSyns pj ! j))"
    "length (Syns q) = length (Syns pj)"
    using v by (simp_all add: syn_view_def prod_eq_iff)
  show ?thesis
  proof (cases "Learn_Norm_On q")
    case True
    then show ?thesis
      using qj pj' no jl norm_agg_frame [of st nc q] norm_agg_upto [of j q 0 st nc]
      by simp
  next
    case False
    then show ?thesis using qj pj' no by simp
  qed
qed

lemma DWt_synapse:
  assumes run: "MatrixPrjn_DWt slay rlay pj = Inr pj'" and "Learn_Learn pj"
    and si: "si < length (Neurons slay)" and own: "sender_owns pj si j"
    and excl: "\<And>sj. sj < length (Neurons slay) \<Longrightarrow> sj \<noteq> si \<Longrightarrow> \<not> sender_owns pj sj j"
  shows "\<exists>r. r = DWt_syn pj (DA rlay) (DALrn rlay) (achDk rlay pj)
                 (ActLrn (Neurons rlay ! nat (SConIdx pj ! j)) * ActLrn (Neurons slay ! si))
                 (Syns pj ! j, TrSyns pj ! j)
       \<and> TrSyns pj' ! j = snd r
       \<and> (Syns pj' ! j)\<lparr>Norm := 0\<rparr> = (fst r)\<lparr>Norm := 0\<rparr>
       \<and> (\<not> Learn_Norm_On pj \<longrightarrow> Syns pj' ! j = fst r)"
proof -
  let ?body = "DWt_send slay rlay (DA rlay) (DALrn rlay) (achDk rlay pj)"
  have loop: "forE ?body [0..<length (Neurons slay)] pj = Inr pj'"
    using run assms(2) by (simp add: MatrixPrjn_DWt_def Let_def)
  have "\<exists>t t'. prjn_params t = prjn_params pj \<and> syn_view j t = syn_view j pj
            \<and> ?body si t = Inr t' \<and> syn_view j t' = syn_view j pj'"
  proof (rule forE_focus_inv [OF loop, where I = "\<lambda>t. prjn_params t = prjn_params pj"])
    show "distinct [0..<length (Neurons slay)]" by simp
    show "si \<in> set [0..<length (Neurons slay)]" using si by simp
    show "prjn_params pj = prjn_params pj" by simp
  next
    fix sj t t'
    assume "prjn_params t = prjn_params pj" and "?body sj t = Inr t'"
    then show "prjn_params t' = prjn_params pj" using DWt_send_params by metis
  next
    fix sj t t'
    assume sj: "sj \<in> set [0..<length (Neurons slay)]" "sj \<noteq> si"
      and t: "prjn_params t = prjn_params pj" and b: "?body sj t = Inr t'"
    have "\<not> sender_owns t sj j" using excl [of sj] sj sender_owns_params [OF t] by simp
    then show "syn_view j t' = syn_view j t" by (rule DWt_send_other [OF b])
  qed
  then obtain t t' where t: "prjn_params t = prjn_params pj" "syn_view j t = syn_view j pj"
    and b: "?body si t = Inr t'" and t': "syn_view j t' = syn_view j pj'" by blast
  have "sender_owns t si j" using own sender_owns_params [OF t(1)] by simp
  from DWt_send_self [OF b this]
  have "TrSyns t' ! j = snd (DWt_syn t (DA rlay) (DALrn rlay) (achDk rlay pj)
                 (ActLrn (Neurons rlay ! nat (SConIdx t ! j)) * ActLrn (Neurons slay ! si))
                 (Syns t ! j, TrSyns t ! j))
       \<and> (Syns t' ! j)\<lparr>Norm := 0\<rparr> = (fst (DWt_syn t (DA rlay) (DALrn rlay) (achDk rlay pj)
                 (ActLrn (Neurons rlay ! nat (SConIdx t ! j)) * ActLrn (Neurons slay ! si))
                 (Syns t ! j, TrSyns t ! j)))\<lparr>Norm := 0\<rparr>
       \<and> (\<not> Learn_Norm_On t \<longrightarrow> Syns t' ! j = fst (DWt_syn t (DA rlay) (DALrn rlay) (achDk rlay pj)
                 (ActLrn (Neurons rlay ! nat (SConIdx t ! j)) * ActLrn (Neurons slay ! si))
                 (Syns t ! j, TrSyns t ! j)))"
    by simp
  moreover have "Syns t ! j = Syns pj ! j" "TrSyns t ! j = TrSyns pj ! j"
    "Syns t' ! j = Syns pj' ! j" "TrSyns t' ! j = TrSyns pj' ! j"
    using t(2) t' by (simp_all add: syn_view_def)
  ultimately show ?thesis
    using DWt_syn_params [OF t(1)] prjn_params_fields(3,9) [OF t(1)] by simp
qed

lemma trace_dwt_CurTrlDA:
  "trace_dwt True da daLrn dk ntr tr0 =
     ((if da \<noteq> 0 then daLrn * (tr0 + ntr) else 0), (tr0 + ntr) - dk * (tr0 + ntr))"
  by (simp add: trace_dwt_def decay_tr_def Let_def)

lemma trace_dwt_delayed:
  "trace_dwt False da daLrn dk ntr tr0 =
     ((if da \<noteq> 0 then daLrn * tr0 else 0), (tr0 - dk * tr0) + ntr)"
  by (simp add: trace_dwt_def decay_tr_def Let_def)

lemma DWt_syn_trace:
  "snd (DWt_syn pj da daLrn dk ntr (sy, trsy)) =
     trsy\<lparr>Tr := snd (trace_dwt (CurTrlDA (Trace pj)) da daLrn dk ntr (Tr trsy)), NTr := ntr\<rparr>"
  by (simp add: DWt_syn_def Let_def split_def)

lemma DWt_syn_plain:
  "\<not> Learn_Norm_On pj \<Longrightarrow> \<not> Learn_Momentum_On pj \<Longrightarrow>
   fst (DWt_syn pj da daLrn dk ntr (sy, trsy)) =
     sy\<lparr>Norm := ntr, Moment := snd (trace_dwt (CurTrlDA (Trace pj)) da daLrn dk ntr (Tr trsy)),
        DWt := DWt sy + Learn_Lrate pj * fst (trace_dwt (CurTrlDA (Trace pj)) da daLrn dk ntr (Tr trsy))\<rparr>"
  by (simp add: DWt_syn_def Let_def split_def)

lemma DWt_syn_Norm_off:
  "\<not> Learn_Norm_On pj \<Longrightarrow>
   Norm (fst (DWt_syn pj da daLrn dk ntr (sy, trsy))) = ntr \<and>
   Moment (fst (DWt_syn pj da daLrn dk ntr (sy, trsy))) =
     (if Learn_Momentum_On pj
      then fst (Learn_Momentum_MomentFmDWt pj
                 (snd (trace_dwt (CurTrlDA (Trace pj)) da daLrn dk ntr (Tr trsy)))
                 (fst (trace_dwt (CurTrlDA (Trace pj)) da daLrn dk ntr (Tr trsy))))
      else snd (trace_dwt (CurTrlDA (Trace pj)) da daLrn dk ntr (Tr trsy)))"
  by (simp add: DWt_syn_def Let_def split_def)

lemmas ex_DWt_defs =
  MatrixPrjn_DWt_def DWt_send_def DWt_con_def DWt_syn_def trace_dwt_def decay_tr_def achDk_def
  at_idx_def slice_chk_def upt_rec Let_def ex_send_def ex_matrix_def ex_prjn_def

lemma ex_DWt_CurTrlDA:
  "MatrixPrjn_DWt ex_send (ex_matrix\<lparr>DALrn := 1\<rparr>) ex_prjn =
     Inr (ex_prjn\<lparr>Syns := [\<lparr>Wt = 0.5, DWt = 5 / 8, Norm = 1 / 4, Moment = 5 / 8\<rparr>,
                           \<lparr>Wt = 0.5, DWt = 3 / 2, Norm = 1 / 2, Moment = 1 / 2\<rparr>,
                           \<lparr>Wt = 0.5, DWt = 1 / 4, Norm = 1 / 4, Moment = 1 / 4\<rparr>],
                  TrSyns := [\<lparr>NTr = 1 / 4, Tr = 5 / 8\<rparr>, \<lparr>NTr = 1 / 2, Tr = 1 / 2\<rparr>,
                             \<lparr>NTr = 1 / 4, Tr = 1 / 4\<rparr>]\<rparr>)"
  by (simp add: ex_DWt_defs)

lemma ex_DWt_delayed:
  "MatrixPrjn_DWt ex_send (ex_matrix\<lparr>DALrn := 1\<rparr>) (ex_prjn\<lparr>Trace := \<lparr>CurTrlDA = False, Decay = 2\<rparr>\<rparr>) =
     Inr (ex_prjn\<lparr>Trace := \<lparr>CurTrlDA = False, Decay = 2\<rparr>,
                  Syns := [\<lparr>Wt = 0.5, DWt = 1 / 2, Norm = 1 / 4, Moment = 3 / 4\<rparr>,
                           \<lparr>Wt = 0.5, DWt = 5 / 4, Norm = 1 / 2, Moment = 3 / 4\<rparr>,
                           \<lparr>Wt = 0.5, DWt = 1 / 8, Norm = 1 / 4, Moment = 3 / 8\<rparr>],
                  TrSyns := [\<lparr>NTr = 1 / 4, Tr = 3 / 4\<rparr>, \<lparr>NTr = 1 / 2, Tr = 3 / 4\<rparr>,
                             \<lparr>NTr = 1 / 4, Tr = 3 / 8\<rparr>]\<rparr>)"
  by (simp add: ex_DWt_defs)

lemma ex_DWt_momentum:
  "MatrixPrjn_DWt ex_send (ex_matrix\<lparr>DALrn := 1\<rparr>) (ex_prjn\<lparr>Learn_Momentum_On := True\<rparr>) =
     Inr (ex_prjn\<lparr>Learn_Momentum_On := True,
                  Syns := [\<lparr>Wt = 0.5, DWt = 15 / 16, Norm = 1 / 4, Moment = 15 / 8\<rparr>,
                           \<lparr>Wt = 0.5, DWt = 7 / 4, Norm = 1 / 2, Moment = 3 / 2\<rparr>,
                           \<lparr>Wt = 0.5, DWt = 3 / 8, Norm = 1 / 4, Moment = 3 / 4\<rparr>],
                  TrSyns := [\<lparr>NTr = 1 / 4, Tr = 5 / 8\<rparr>, \<lparr>NTr = 1 / 2, Tr = 1 / 2\<rparr>,
                             \<lparr>NTr = 1 / 4, Tr = 1 / 4\<rparr>]\<rparr>)"
  by (simp add: ex_DWt_defs)

lemma ex_owns:
  "sender_owns ex_prjn 0 1" "\<forall>sj<length (Neurons ex_send). sj \<noteq> 0 \<longrightarrow> \<not> sender_owns ex_prjn sj 1"
  by (auto simp: sender_owns_def ex_prjn_def ex_send_def less_Suc_eq)

lemma ex_owns_delayed:
  "sender_owns (ex_prjn\<lparr>Trace := \<lparr>CurTrlDA = False, Decay = 2\<rparr>\<rparr>) 0 1"
  "\<forall>sj<length (Neurons ex_send). sj \<noteq> 0 \<longrightarrow> \<not> sender_owns (ex_prjn\<lparr>Trace := \<lparr>CurTrlDA = False, Decay = 2\<rparr>\<rparr>) sj 1"
  by (auto simp: sender_owns_def ex_prjn_def ex_send_def less_Suc_eq)

lemma ex_owns_momentum:
  "sender_owns (ex_prjn\<lparr>Learn_Momentum_On := True\<rparr>) 0 1"
  "\<forall>sj<length (Neurons ex_send). sj \<noteq> 0 \<longrightarrow> \<not> sender_owns (ex_prjn\<lparr>Learn_Momentum_On := True\<rparr>) sj 1"
  by (auto simp: sender_owns_def ex_prjn_def ex_send_def less_Suc_eq)

text \<open>
  Claim C1. In a learning pass of a projection that learns, take a synapse \<open>j\<close> owned by
  the sending unit \<open>si\<close> alone, its stored trace \<open>tr0\<close>, the decay factor \<open>dk\<close> of the
  pass and \<open>ntr\<close>, the product of the \<open>ActLrn\<close> of the receiving and of the sending unit.
  The pass stores \<open>NTr = ntr\<close>. Under current-trial DA the trace is first raised by
  \<open>ntr\<close>, the raw weight change is \<open>DALrn * (tr0 + ntr)\<close> when the raw \<open>DA\<close> is not 0
  and 0 otherwise, and the stored trace is the raised trace decayed. Under delayed DA
  the raw weight change is \<open>DALrn * tr0\<close> when \<open>DA\<close> is not 0 and 0 otherwise (the
  trace without this trial's \<open>ntr\<close>), and the stored trace is \<open>tr0\<close> decayed, plus
  \<open>ntr\<close>. With normalization and momentum off, the synapse's \<open>DWt\<close> grows by the
  learning rate times that raw weight change.
\<close>

theorem DWt_trace_policies:
  assumes "MatrixPrjn_DWt slay rlay pj = Inr pj'" and "Learn_Learn pj"
    and "si < length (Neurons slay)" and "sender_owns pj si j"
    and "\<forall>sj<length (Neurons slay). sj \<noteq> si \<longrightarrow> \<not> sender_owns pj sj j"
    and "ntr = ActLrn (Neurons rlay ! nat (SConIdx pj ! j)) * ActLrn (Neurons slay ! si)"
    and "tr0 = Tr (TrSyns pj ! j)" and "dk = achDk rlay pj"
  shows "NTr (TrSyns pj' ! j) = ntr
    \<and> (CurTrlDA (Trace pj) \<longrightarrow>
         trace_dwt (CurTrlDA (Trace pj)) (DA rlay) (DALrn rlay) dk ntr tr0 =
           ((if DA rlay \<noteq> 0 then DALrn rlay * (tr0 + ntr) else 0), (tr0 + ntr) - dk * (tr0 + ntr))
         \<and> Tr (TrSyns pj' ! j) = (tr0 + ntr) - dk * (tr0 + ntr)
         \<and> (\<not> Learn_Norm_On pj \<and> \<not> Learn_Momentum_On pj \<longrightarrow>
              DWt (Syns pj' ! j) = DWt (Syns pj ! j)
                + Learn_Lrate pj * (if DA rlay \<noteq> 0 then DALrn rlay * (tr0 + ntr) else 0)))
    \<and> (\<not> CurTrlDA (Trace pj) \<longrightarrow>
         trace_dwt (CurTrlDA (Trace pj)) (DA rlay) (DALrn rlay) dk ntr tr0 =
           ((if DA rlay \<noteq> 0 then DALrn rlay * tr0 else 0), (tr0 - dk * tr0) + ntr)
         \<and> Tr (TrSyns pj' ! j) = (tr0 - dk * tr0) + ntr
         \<and> (\<not> Learn_Norm_On pj \<and> \<not> Learn_Momentum_On pj \<longrightarrow>
              DWt (Syns pj' ! j) = DWt (Syns pj ! j)
                + Learn_Lrate pj * (if DA rlay \<noteq> 0 then DALrn rlay * tr0 else 0)))"
proof -
  define r where "r = DWt_syn pj (DA rlay) (DALrn rlay) dk ntr (Syns pj ! j, TrSyns pj ! j)"
  have "\<exists>r. r = DWt_syn pj (DA rlay) (DALrn rlay) (achDk rlay pj)
                 (ActLrn (Neurons rlay ! nat (SConIdx pj ! j)) * ActLrn (Neurons slay ! si))
                 (Syns pj ! j, TrSyns pj ! j)
       \<and> TrSyns pj' ! j = snd r
       \<and> (Syns pj' ! j)\<lparr>Norm := 0\<rparr> = (fst r)\<lparr>Norm := 0\<rparr>
       \<and> (\<not> Learn_Norm_On pj \<longrightarrow> Syns pj' ! j = fst r)"
    using assms(5) by (intro DWt_synapse [OF assms(1-4)]) simp
  then have tr: "TrSyns pj' ! j = snd r" and sy: "\<not> Learn_Norm_On pj \<Longrightarrow> Syns pj' ! j = fst r"
    using assms(6,8) by (simp_all add: r_def)
  have trv: "TrSyns pj' ! j = (TrSyns pj ! j)\<lparr>Tr := snd (trace_dwt (CurTrlDA (Trace pj)) (DA rlay) (DALrn rlay) dk ntr tr0), NTr := ntr\<rparr>"
    using tr assms(7) by (simp add: r_def DWt_syn_trace)
  have syv: "DWt (Syns pj' ! j) = DWt (Syns pj ! j)
      + Learn_Lrate pj * fst (trace_dwt (CurTrlDA (Trace pj)) (DA rlay) (DALrn rlay) dk ntr tr0)"
    if "\<not> Learn_Norm_On pj" "\<not> Learn_Momentum_On pj"
    using sy that assms(7) by (simp add: r_def DWt_syn_plain)
  show ?thesis
  proof (cases "CurTrlDA (Trace pj)")
    case True
    then show ?thesis using trv syv by (simp add: trace_dwt_CurTrlDA)
  next
    case False
    then show ?thesis using trv syv by (simp add: trace_dwt_delayed)
  qed
qed

theorem DWt_trace_policies_witness:
  "(\<exists>pj'. MatrixPrjn_DWt ex_send (ex_matrix\<lparr>DALrn := 1\<rparr>) ex_prjn = Inr pj'
      \<and> CurTrlDA (Trace ex_prjn) \<and> Tr (TrSyns ex_prjn ! 1) = 1 / 2 \<and> DWt (Syns ex_prjn ! 1) = 1
      \<and> NTr (TrSyns pj' ! 1) = 1 / 2 \<and> Tr (TrSyns pj' ! 1) = 1 / 2 \<and> DWt (Syns pj' ! 1) = 3 / 2)
   \<and> (\<exists>pj'. MatrixPrjn_DWt ex_send (ex_matrix\<lparr>DALrn := 1\<rparr>)
              (ex_prjn\<lparr>Trace := \<lparr>CurTrlDA = False, Decay = 2\<rparr>\<rparr>) = Inr pj'
      \<and> NTr (TrSyns pj' ! 1) = 1 / 2 \<and> Tr (TrSyns pj' ! 1) = 3 / 4 \<and> DWt (Syns pj' ! 1) = 5 / 4)"
proof -
  have p: "Learn_Learn ex_prjn" "0 < length (Neurons ex_send)"
    "Learn_Learn (ex_prjn\<lparr>Trace := \<lparr>CurTrlDA = False, Decay = 2\<rparr>\<rparr>)"
    by (simp_all add: ex_prjn_def ex_send_def)
  note a = DWt_trace_policies [OF ex_DWt_CurTrlDA p(1,2) ex_owns refl refl refl]
  note b = DWt_trace_policies [OF ex_DWt_delayed p(3,2) ex_owns_delayed refl refl refl]
  show ?thesis
    using a b
    by (simp add: ex_DWt_CurTrlDA ex_DWt_delayed)
       (simp add: ex_prjn_def ex_send_def ex_matrix_def achDk_def)
qed

text \<open>
  Claim C10. In a learning pass with \<^verbatim>\<open>Learn.Norm.On\<close> off, every synapse owned by one
  sending unit ends with \<open>Norm\<close> equal to this trial's \<open>NTr\<close>; its \<open>Moment\<close> is
  overwritten with the updated \<open>Tr\<close>, which is its final value when momentum is off,
  and the value the momentum primitive starts from (instead of the old \<open>Moment\<close>) when
  momentum is on. Neither field keeps anything of its old value. \<^verbatim>\<open>Defaults\<close> switches
  normalization and momentum off.
\<close>

theorem DWt_overwrites_Norm_Moment:
  assumes "MatrixPrjn_DWt slay rlay pj = Inr pj'" and "Learn_Learn pj"
    and "\<not> Learn_Norm_On pj"
    and "si < length (Neurons slay)" and "sender_owns pj si j"
    and "\<forall>sj<length (Neurons slay). sj \<noteq> si \<longrightarrow> \<not> sender_owns pj sj j"
    and "raw = fst (trace_dwt (CurTrlDA (Trace pj)) (DA rlay) (DALrn rlay) (achDk rlay pj)
                 (ActLrn (Neurons rlay ! nat (SConIdx pj ! j)) * ActLrn (Neurons slay ! si))
                 (Tr (TrSyns pj ! j)))"
  shows "Norm (Syns pj' ! j) = NTr (TrSyns pj' ! j)
    \<and> NTr (TrSyns pj' ! j) = ActLrn (Neurons rlay ! nat (SConIdx pj ! j)) * ActLrn (Neurons slay ! si)
    \<and> (\<not> Learn_Momentum_On pj \<longrightarrow> Moment (Syns pj' ! j) = Tr (TrSyns pj' ! j))
    \<and> (Learn_Momentum_On pj \<longrightarrow>
         Moment (Syns pj' ! j) = fst (Learn_Momentum_MomentFmDWt pj (Tr (TrSyns pj' ! j)) raw))
    \<and> \<not> Learn_Norm_On (MatrixPrjn_Defaults prjn_defaults pj0)
    \<and> \<not> Learn_Momentum_On (MatrixPrjn_Defaults prjn_defaults pj0)"
proof -
  define ntr where "ntr = ActLrn (Neurons rlay ! nat (SConIdx pj ! j)) * ActLrn (Neurons slay ! si)"
  define r where "r = DWt_syn pj (DA rlay) (DALrn rlay) (achDk rlay pj) ntr (Syns pj ! j, TrSyns pj ! j)"
  have "\<exists>r. r = DWt_syn pj (DA rlay) (DALrn rlay) (achDk rlay pj)
                 (ActLrn (Neurons rlay ! nat (SConIdx pj ! j)) * ActLrn (Neurons slay ! si))
                 (Syns pj ! j, TrSyns pj ! j)
       \<and> TrSyns pj' ! j = snd r
       \<and> (Syns pj' ! j)\<lparr>Norm := 0\<rparr> = (fst r)\<lparr>Norm := 0\<rparr>
       \<and> (\<not> Learn_Norm_On pj \<longrightarrow> Syns pj' ! j = fst r)"
    using assms(6) by (intro DWt_synapse [OF assms(1,2,4,5)]) simp
  then have tr: "TrSyns pj' ! j = snd r" and sy: "Syns pj' ! j = fst r"
    using assms(3) by (simp_all add: r_def ntr_def)
  have trv: "TrSyns pj' ! j = (TrSyns pj ! j)\<lparr>Tr := snd (trace_dwt (CurTrlDA (Trace pj)) (DA rlay) (DALrn rlay) (achDk rlay pj) ntr (Tr (TrSyns pj ! j))), NTr := ntr\<rparr>"
    using tr by (simp add: r_def DWt_syn_trace)
  have d: "\<not> Learn_Norm_On (MatrixPrjn_Defaults prjn_defaults pj0)
    \<and> \<not> Learn_Momentum_On (MatrixPrjn_Defaults prjn_defaults pj0)"
    by (simp add: MatrixPrjn_Defaults_def Let_def)
  show ?thesis
    using d trv sy DWt_syn_Norm_off [OF assms(3), of "DA rlay" "DALrn rlay" "achDk rlay pj" ntr "Syns pj ! j" "TrSyns pj ! j"]
      assms(7)
    by (simp add: r_def ntr_def [symmetric])
qed

theorem DWt_overwrites_Norm_Moment_witness:
  "(\<exists>pj'. MatrixPrjn_DWt ex_send (ex_matrix\<lparr>DALrn := 1\<rparr>) ex_prjn = Inr pj'
      \<and> \<not> Learn_Norm_On ex_prjn \<and> \<not> Learn_Momentum_On ex_prjn
      \<and> Norm (Syns ex_prjn ! 1) = 3 \<and> Moment (Syns ex_prjn ! 1) = 4
      \<and> Norm (Syns pj' ! 1) = 1 / 2 \<and> NTr (TrSyns pj' ! 1) = 1 / 2
      \<and> Moment (Syns pj' ! 1) = 1 / 2 \<and> Tr (TrSyns pj' ! 1) = 1 / 2)
   \<and> (\<exists>pj'. MatrixPrjn_DWt ex_send (ex_matrix\<lparr>DALrn := 1\<rparr>) (ex_prjn\<lparr>Learn_Momentum_On := True\<rparr>) = Inr pj'
      \<and> Norm (Syns pj' ! 1) = 1 / 2 \<and> Tr (TrSyns pj' ! 1) = 1 / 2
      \<and> Moment (Syns pj' ! 1) = fst (Learn_Momentum_MomentFmDWt ex_prjn (1 / 2) 1))"
proof -
  have p: "Learn_Learn ex_prjn" "\<not> Learn_Norm_On ex_prjn" "0 < length (Neurons ex_send)"
    "Learn_Learn (ex_prjn\<lparr>Learn_Momentum_On := True\<rparr>)"
    "\<not> Learn_Norm_On (ex_prjn\<lparr>Learn_Momentum_On := True\<rparr>)"
    by (simp_all add: ex_prjn_def ex_send_def)
  note a = DWt_overwrites_Norm_Moment [OF ex_DWt_CurTrlDA p(1,2,3) ex_owns refl,
      where prjn_defaults = id and ?pj0.0 = ex_prjn]
  note b = DWt_overwrites_Norm_Moment [OF ex_DWt_momentum p(4,5,3) ex_owns_momentum refl,
      where prjn_defaults = id and ?pj0.0 = ex_prjn]
  show ?thesis
    using a b
    by (simp add: ex_DWt_CurTrlDA ex_DWt_momentum)
       (simp add: ex_prjn_def ex_send_def ex_matrix_def achDk_def trace_dwt_def decay_tr_def)
qed

subsection \<open>The weight change runs to completion\<close>

text \<open>
  On a projection whose connectivity arrays are as long as the sending layer, whose blocks lie
  inside the synapse arrays and whose receiver indexes are units of the receiving layer,
  \<^verbatim>\<open>DWt\<close> indexes nothing out of range: it returns a projection. The example projection is
  of this kind.
\<close>

lemma DWt_con_returns:
  assumes "0 \<le> SConIdx pj ! nat (st + int ci)"
    and "SConIdx pj ! nat (st + int ci) < int (length (Neurons rlay))"
  shows "\<exists>pj'. DWt_con rlay da daLrn dk sn st ci pj = Inr pj'"
  using assms by (simp add: DWt_con_def Let_def at_idx_def split_def)

lemma MatrixPrjn_DWt_returns:
  assumes "prjn_wf slay rlay pj"
  shows "\<exists>pj'. MatrixPrjn_DWt slay rlay pj = Inr pj'"
proof (cases "Learn_Learn pj")
  case False
  then show ?thesis by (simp add: MatrixPrjn_DWt_def)
next
  case True
  let ?P = "\<lambda>t. prjn_params t = prjn_params pj \<and> length (Syns t) = length (Syns pj)
       \<and> length (TrSyns t) = length (TrSyns pj)"
  let ?body = "DWt_send slay rlay (DA rlay) (DALrn rlay) (achDk rlay pj)"
  have "\<exists>pj'. forE ?body [0..<length (Neurons slay)] pj = Inr pj' \<and> ?P pj'"
  proof (rule forE_total [where P = ?P])
    show "?P pj" by simp
  next
    fix si t
    assume si: "si \<in> set [0..<length (Neurons slay)]" and t: "?P t"
    then have s: "si < length (Neurons slay)" by simp
    note f = prjn_params_fields [of t pj]
    have eq: "SConN t = SConN pj" "SConIdxSt t = SConIdxSt pj" "SConIdx t = SConIdx pj"
      using t f by simp_all
    let ?st = "SConIdxSt pj ! si" and ?nc = "SConN pj ! si"
    from assms s have w: "si < length (SConN pj)" "si < length (SConIdxSt pj)"
      "0 \<le> ?st" "0 \<le> ?nc"
      "?st + ?nc \<le> int (length (Syns pj))" "?st + ?nc \<le> int (length (TrSyns pj))"
      "?st + ?nc \<le> int (length (SConIdx pj))"
      and idx: "\<And>j. ?st \<le> int j \<Longrightarrow> int j < ?st + ?nc \<Longrightarrow>
             0 \<le> SConIdx pj ! j \<and> SConIdx pj ! j < int (length (Neurons rlay))"
      by (simp_all add: prjn_wf_def)
    let ?Q = "\<lambda>u. prjn_params u = prjn_params pj \<and> length (Syns u) = length (Syns pj)
       \<and> length (TrSyns u) = length (TrSyns pj)"
    have "\<exists>q. forE (DWt_con rlay (DA rlay) (DALrn rlay) (achDk rlay pj) (Neurons slay ! si) ?st) [0..<nat ?nc] t = Inr q \<and> ?Q q"
    proof (rule forE_total [where P = ?Q])
      show "?Q t" using t by simp
    next
      fix ci u
      assume ci: "ci \<in> set [0..<nat ?nc]" and u: "?Q u"
      then have c: "ci < nat ?nc" by simp
      have "SConIdx u = SConIdx pj" using u prjn_params_fields(9) [of u pj] by simp
      moreover have "?st \<le> int (nat (?st + int ci))" "int (nat (?st + int ci)) < ?st + ?nc"
        using c w(3) by simp_all
      ultimately have "0 \<le> SConIdx u ! nat (?st + int ci)"
        "SConIdx u ! nat (?st + int ci) < int (length (Neurons rlay))"
        using idx [of "nat (?st + int ci)"] by simp_all
      from DWt_con_returns [OF this] obtain u' where
        b: "DWt_con rlay (DA rlay) (DALrn rlay) (achDk rlay pj) (Neurons slay ! si) ?st ci u = Inr u'"
        by blast
      have "prjn_params u' = prjn_params u \<and> length (Syns u') = length (Syns u) \<and> length (TrSyns u') = length (TrSyns u)"
        using b unfolding DWt_con_def Let_def prjn_params_def
        by (auto simp: bindE_Inr_iff split_def)
      then show "\<exists>u'. DWt_con rlay (DA rlay) (DALrn rlay) (achDk rlay pj) (Neurons slay ! si) ?st ci u = Inr u' \<and> ?Q u'"
        using b u by simp
    qed
    then obtain q where q: "forE (DWt_con rlay (DA rlay) (DALrn rlay) (achDk rlay pj) (Neurons slay ! si) ?st) [0..<nat ?nc] t = Inr q"
      and Qq: "?Q q" by blast
    have "?body si t = Inr (if Learn_Norm_On q then norm_agg ?st ?nc q else q)"
      using w eq t q by (simp add: DWt_send_def Let_def at_idx_def slice_chk_def)
    moreover have "?P (if Learn_Norm_On q then norm_agg ?st ?nc q else q)"
      using Qq by (simp add: norm_agg_frame)
    ultimately show "\<exists>t'. ?body si t = Inr t' \<and> ?P t'" by simp
  qed
  then show ?thesis using True by (auto simp: MatrixPrjn_DWt_def Let_def)
qed

lemma ex_prjn_wf: "prjn_wf ex_send (ex_matrix\<lparr>DALrn := 1\<rparr>) ex_prjn"
  by (simp add: prjn_wf_def ex_send_def ex_matrix_def ex_prjn_def less_Suc_eq nth_Cons split: nat.splits)

section \<open>Properties of the primary-value layer\<close>

lemma sent_PVAct_idem: "sent_PVAct ly (sent_PVAct ly rly) = sent_PVAct ly rly"
  by (simp add: sent_PVAct_def)

lemma SendPVAct_unit_at:
  "n < length (ModNeurs q) \<Longrightarrow>
   SendPVAct_unit ly n q =
     Inr (q\<lparr>ModNeurs := (ModNeurs q)[n := (ModNeurs q ! n)\<lparr>PVAct := max (Neuron.Act (Neurons ly ! n)) (Ext (Neurons ly ! n))\<rparr>]\<rparr>)"
  by (simp add: SendPVAct_unit_def at_idx_def Let_def)

lemma SendPVAct_unit_beyond:
  "\<not> n < length (ModNeurs q) \<Longrightarrow> SendPVAct_unit ly n q = Inl IndexOutOfRange"
  by (simp add: SendPVAct_unit_def at_idx_def Let_def)

lemma SendPVAct_units_prefix:
  "n \<le> length (ModNeurs rly) \<Longrightarrow>
   forE (SendPVAct_unit ly) [0..<n] rly =
     Inr (rly\<lparr>ModNeurs := map (\<lambda>p_i.
        if p_i < n
        then (ModNeurs rly ! p_i)\<lparr>PVAct := max (Neuron.Act (Neurons ly ! p_i)) (Ext (Neurons ly ! p_i))\<rparr>
        else ModNeurs rly ! p_i) [0..<length (ModNeurs rly)]\<rparr>)"
proof (induction n)
  case 0
  then show ?case by (simp add: map_nth)
next
  case (Suc n)
  let ?f = "\<lambda>n p_i. if p_i < n
        then (ModNeurs rly ! p_i)\<lparr>PVAct := max (Neuron.Act (Neurons ly ! p_i)) (Ext (Neurons ly ! p_i))\<rparr>
        else ModNeurs rly ! p_i"
  let ?q = "rly\<lparr>ModNeurs := map (?f n) [0..<length (ModNeurs rly)]\<rparr>"
  have n: "n < length (ModNeurs rly)" using Suc.prems by simp
  have pre: "forE (SendPVAct_unit ly) [0..<n] rly = Inr ?q" using Suc.IH n by simp
  have "forE (SendPVAct_unit ly) [0..<Suc n] rly = SendPVAct_unit ly n ?q"
    using pre by (simp add: forE_snoc)
  also have "\<dots> = Inr (?q\<lparr>ModNeurs := (ModNeurs ?q)[n := (ModNeurs ?q ! n)\<lparr>PVAct := max (Neuron.Act (Neurons ly ! n)) (Ext (Neurons ly ! n))\<rparr>]\<rparr>)"
    using n by (intro SendPVAct_unit_at) simp
  also have "(ModNeurs ?q)[n := (ModNeurs ?q ! n)\<lparr>PVAct := max (Neuron.Act (Neurons ly ! n)) (Ext (Neurons ly ! n))\<rparr>]
      = map (?f (Suc n)) [0..<length (ModNeurs rly)]"
  proof (rule nth_equalityI)
    show "length ((ModNeurs ?q)[n := (ModNeurs ?q ! n)\<lparr>PVAct := max (Neuron.Act (Neurons ly ! n)) (Ext (Neurons ly ! n))\<rparr>])
        = length (map (?f (Suc n)) [0..<length (ModNeurs rly)])"
      by simp
  next
    fix i
    assume "i < length ((ModNeurs ?q)[n := (ModNeurs ?q ! n)\<lparr>PVAct := max (Neuron.Act (Neurons ly ! n)) (Ext (Neurons ly ! n))\<rparr>])"
    then have i: "i < length (ModNeurs rly)" by simp
    show "(ModNeurs ?q)[n := (ModNeurs ?q ! n)\<lparr>PVAct := max (Neuron.Act (Neurons ly ! n)) (Ext (Neurons ly ! n))\<rparr>] ! i
        = map (?f (Suc n)) [0..<length (ModNeurs rly)] ! i"
    proof (cases "i = n")
      case True
      then show ?thesis using i by simp
    next
      case False
      then have "(i < Suc n) = (i < n)" by auto
      then show ?thesis using i False by (simp add: nth_list_update)
    qed
  qed
  finally show ?case by simp
qed

lemma SendPVAct_units_short:
  "length (ModNeurs rly) < n \<Longrightarrow> forE (SendPVAct_unit ly) [0..<n] rly = Inl IndexOutOfRange"
proof (induction n)
  case 0
  then show ?case by simp
next
  case (Suc n)
  show ?case
  proof (cases "length (ModNeurs rly) < n")
    case True
    then show ?thesis using Suc.IH by (simp add: forE_snoc)
  next
    case False
    then have n: "n = length (ModNeurs rly)" using Suc.prems by simp
    have "forE (SendPVAct_unit ly) [0..<Suc n] rly =
        bindE (forE (SendPVAct_unit ly) [0..<n] rly) (SendPVAct_unit ly n)"
      by (simp add: forE_snoc)
    also have "\<dots> = Inl IndexOutOfRange"
      using n by (simp add: SendPVAct_units_prefix SendPVAct_unit_beyond)
    finally show ?thesis .
  qed
qed

lemma SendPVAct_units:
  "forE (SendPVAct_unit ly) [0..<length (Neurons ly)] rly =
     (if length (Neurons ly) \<le> length (ModNeurs rly) then Inr (sent_PVAct ly rly)
      else Inl IndexOutOfRange)"
  using SendPVAct_units_prefix [of "length (Neurons ly)" rly ly]
    SendPVAct_units_short [of rly "length (Neurons ly)" ly]
  by (auto simp: sent_PVAct_def)

lemma sent_PVAct_length [simp]: "length (ModNeurs (sent_PVAct ly rly)) = length (ModNeurs rly)"
  by (simp add: sent_PVAct_def)

lemma recv_ok_iff:
  "recv_ok ly net r \<longleftrightarrow> (\<exists>rly. net r = Some (IModLayer rly) \<and> length (Neurons ly) \<le> length (ModNeurs rly))"
  by (auto simp: recv_ok_def split: option.splits PVLVLayer.splits)

lemma SendPVAct_recv_eq:
  "SendPVAct_recv ly li net =
     (case net (PVReceivers ly ! li) of
        Some (IModLayer rly) \<Rightarrow>
          if length (Neurons ly) \<le> length (ModNeurs rly)
          then Inr (net(PVReceivers ly ! li \<mapsto> IModLayer (sent_PVAct ly rly)))
          else Inl IndexOutOfRange
      | _ \<Rightarrow> Inl TypeAssertionFailed)"
  by (simp add: SendPVAct_recv_def Let_def SendPVAct_units split: option.splits PVLVLayer.splits)

lemma recv_ok_sent_net: "recv_ok ly (sent_net ly net rs) r = recv_ok ly net r"
  by (auto simp: recv_ok_def sent_net_def split: option.splits PVLVLayer.splits)

lemma SendPVAct_recv_sent:
  assumes "recv_ok ly net (PVReceivers ly ! k)"
  shows "SendPVAct_recv ly k (sent_net ly net rs)
          = Inr (sent_net ly net (rs @ [PVReceivers ly ! k]))"
proof -
  from assms obtain rly where r: "net (PVReceivers ly ! k) = Some (IModLayer rly)"
    and l: "length (Neurons ly) \<le> length (ModNeurs rly)"
    by (auto simp: recv_ok_iff)
  have "(sent_net ly net rs)(PVReceivers ly ! k \<mapsto> IModLayer (sent_PVAct ly rly))
      = sent_net ly net (rs @ [PVReceivers ly ! k])"
    using r by (auto simp: sent_net_def fun_eq_iff)
  then show ?thesis
    using r l by (cases "PVReceivers ly ! k \<in> set rs")
      (simp_all add: SendPVAct_recv_eq sent_net_def sent_PVAct_idem)
qed

lemma SendPVAct_prefix_ok:
  assumes "k \<le> length (PVReceivers ly)"
    and "\<And>r. r \<in> set (take k (PVReceivers ly)) \<Longrightarrow> recv_ok ly net r"
  shows "forE (SendPVAct_recv ly) [0..<k] net = Inr (sent_net ly net (take k (PVReceivers ly)))"
  using assms
proof (induction k)
  case 0
  then show ?case by (simp add: sent_net_def)
next
  case (Suc k)
  have k: "k < length (PVReceivers ly)" using Suc.prems(1) by simp
  have tk: "take (Suc k) (PVReceivers ly) = take k (PVReceivers ly) @ [PVReceivers ly ! k]"
    using k by (simp add: take_Suc_conv_app_nth)
  have pre: "forE (SendPVAct_recv ly) [0..<k] net = Inr (sent_net ly net (take k (PVReceivers ly)))"
    using Suc.IH Suc.prems k tk by simp
  have ok: "recv_ok ly net (PVReceivers ly ! k)" using Suc.prems(2) tk by simp
  show ?case
    using pre SendPVAct_recv_sent [OF ok] tk by (simp add: forE_snoc)
qed

lemma SendPVAct_prefix_Inr:
  assumes "k \<le> length (PVReceivers ly)"
    and "forE (SendPVAct_recv ly) [0..<k] net = Inr t"
  shows "\<forall>r \<in> set (take k (PVReceivers ly)). recv_ok ly net r"
  using assms
proof (induction k arbitrary: t)
  case 0
  then show ?case by simp
next
  case (Suc k)
  have k: "k < length (PVReceivers ly)" using Suc.prems(1) by simp
  have tk: "take (Suc k) (PVReceivers ly) = take k (PVReceivers ly) @ [PVReceivers ly ! k]"
    using k by (simp add: take_Suc_conv_app_nth)
  from Suc.prems(2) obtain t0 where t0: "forE (SendPVAct_recv ly) [0..<k] net = Inr t0"
    and b: "SendPVAct_recv ly k t0 = Inr t"
    by (auto simp: forE_snoc bindE_Inr_iff)
  have ih: "\<forall>r \<in> set (take k (PVReceivers ly)). recv_ok ly net r"
    using Suc.IH [OF _ t0] k by simp
  then have "t0 = sent_net ly net (take k (PVReceivers ly))"
    using SendPVAct_prefix_ok [of k ly net] t0 k by simp
  moreover have "recv_ok ly t0 (PVReceivers ly ! k)"
    using b by (auto simp: SendPVAct_recv_eq recv_ok_def split: option.splits PVLVLayer.splits if_splits)
  ultimately have "recv_ok ly net (PVReceivers ly ! k)"
    by (simp add: recv_ok_sent_net)
  then show ?case using ih tk by simp
qed

lemma SendPVAct_Inr_iff:
  "SendPVAct ly net = Inr net' \<longleftrightarrow>
     (\<forall>r \<in> set (PVReceivers ly). recv_ok ly net r) \<and> net' = sent_net ly net (PVReceivers ly)"
  using SendPVAct_prefix_ok [of "length (PVReceivers ly)" ly net]
    SendPVAct_prefix_Inr [of "length (PVReceivers ly)" ly net net']
  by (auto simp: SendPVAct_def)

lemma sent_net_idem: "sent_net ly (sent_net ly net rs) rs = sent_net ly net rs"
  by (auto simp: sent_net_def fun_eq_iff sent_PVAct_idem split: option.splits PVLVLayer.splits)

text \<open>
  Claim C9. Whenever \<^verbatim>\<open>CyclePost\<close> returns in a cycle of the send quarter, every
  registered receiver is a modulatory layer of the network whose unit \<open>p_i\<close>, for every
  unit \<open>p_i\<close> of the source, has \<open>PVAct = max Act Ext\<close> of the source unit \<open>p_i\<close>; the
  receiver's other units and every other layer are untouched, and a further call in the
  same quarter changes nothing more. In a cycle of any other quarter the network is
  unchanged. \<^verbatim>\<open>CyclePost\<close> returns whenever every registered receiver is a modulatory
  layer with at least as many units as the source.
\<close>

theorem CyclePost_sends_PVAct:
  "(CyclePost ltime ly net = Inr net' \<longrightarrow>
      (Quarter ltime = SendPVQuarter ly \<longrightarrow>
         (\<forall>r \<in> set (PVReceivers ly). \<exists>rly rly'.
            net r = Some (IModLayer rly) \<and> net' r = Some (IModLayer rly') \<and>
            length (ModNeurs rly') = length (ModNeurs rly) \<and>
            IsPVReceiver rly' = IsPVReceiver rly \<and>
            (\<forall>p_i < length (Neurons ly).
               PVAct (ModNeurs rly' ! p_i) = max (Neuron.Act (Neurons ly ! p_i)) (Ext (Neurons ly ! p_i))) \<and>
            (\<forall>p_i < length (ModNeurs rly). length (Neurons ly) \<le> p_i \<longrightarrow>
               ModNeurs rly' ! p_i = ModNeurs rly ! p_i))
         \<and> (\<forall>r. r \<notin> set (PVReceivers ly) \<longrightarrow> net' r = net r)
         \<and> CyclePost ltime ly net' = Inr net')
      \<and> (Quarter ltime \<noteq> SendPVQuarter ly \<longrightarrow> net' = net))
   \<and> ((\<forall>r \<in> set (PVReceivers ly). recv_ok ly net r) \<longrightarrow> (\<exists>net'. CyclePost ltime ly net = Inr net'))"
proof (intro conjI impI)
  assume run: "CyclePost ltime ly net = Inr net'" and q: "Quarter ltime = SendPVQuarter ly"
  then have s: "SendPVAct ly net = Inr net'" by (simp add: CyclePost_def)
  then have ok: "\<forall>r \<in> set (PVReceivers ly). recv_ok ly net r"
    and net': "net' = sent_net ly net (PVReceivers ly)"
    by (simp_all add: SendPVAct_Inr_iff)
  show "\<forall>r \<in> set (PVReceivers ly). \<exists>rly rly'.
            net r = Some (IModLayer rly) \<and> net' r = Some (IModLayer rly') \<and>
            length (ModNeurs rly') = length (ModNeurs rly) \<and>
            IsPVReceiver rly' = IsPVReceiver rly \<and>
            (\<forall>p_i < length (Neurons ly).
               PVAct (ModNeurs rly' ! p_i) = max (Neuron.Act (Neurons ly ! p_i)) (Ext (Neurons ly ! p_i))) \<and>
            (\<forall>p_i < length (ModNeurs rly). length (Neurons ly) \<le> p_i \<longrightarrow>
               ModNeurs rly' ! p_i = ModNeurs rly ! p_i)"
  proof
    fix r assume r: "r \<in> set (PVReceivers ly)"
    with ok obtain rly where rly: "net r = Some (IModLayer rly)"
      and l: "length (Neurons ly) \<le> length (ModNeurs rly)"
      by (auto simp: recv_ok_iff)
    have "net' r = Some (IModLayer (sent_PVAct ly rly))"
      using r rly net' by (simp add: sent_net_def)
    moreover have "\<forall>p_i < length (Neurons ly).
        PVAct (ModNeurs (sent_PVAct ly rly) ! p_i) = max (Neuron.Act (Neurons ly ! p_i)) (Ext (Neurons ly ! p_i))"
      using l by (simp add: sent_PVAct_def)
    moreover have "\<forall>p_i < length (ModNeurs rly). length (Neurons ly) \<le> p_i \<longrightarrow>
        ModNeurs (sent_PVAct ly rly) ! p_i = ModNeurs rly ! p_i"
      by (simp add: sent_PVAct_def)
    moreover have "IsPVReceiver (sent_PVAct ly rly) = IsPVReceiver rly"
      by (simp add: sent_PVAct_def)
    ultimately show "\<exists>rly rly'.
            net r = Some (IModLayer rly) \<and> net' r = Some (IModLayer rly') \<and>
            length (ModNeurs rly') = length (ModNeurs rly) \<and>
            IsPVReceiver rly' = IsPVReceiver rly \<and>
            (\<forall>p_i < length (Neurons ly).
               PVAct (ModNeurs rly' ! p_i) = max (Neuron.Act (Neurons ly ! p_i)) (Ext (Neurons ly ! p_i))) \<and>
            (\<forall>p_i < length (ModNeurs rly). length (Neurons ly) \<le> p_i \<longrightarrow>
               ModNeurs rly' ! p_i = ModNeurs rly ! p_i)"
      using rly by (intro exI [of _ rly] exI [of _ "sent_PVAct ly rly"]) simp
  qed
  show "\<forall>r. r \<notin> set (PVReceivers ly) \<longrightarrow> net' r = net r"
    using net' by (simp add: sent_net_def)
  have "\<forall>r \<in> set (PVReceivers ly). recv_ok ly net' r"
    using ok net' by (simp add: recv_ok_sent_net)
  then show "CyclePost ltime ly net' = Inr net'"
    using q net' by (simp add: CyclePost_def SendPVAct_Inr_iff sent_net_idem)
next
  assume "CyclePost ltime ly net = Inr net'" and "Quarter ltime \<noteq> SendPVQuarter ly"
  then show "net' = net" by (simp add: CyclePost_def)
next
  assume "\<forall>r \<in> set (PVReceivers ly). recv_ok ly net r"
  then show "\<exists>net'. CyclePost ltime ly net = Inr net'"
    by (simp add: CyclePost_def SendPVAct_Inr_iff)
qed

theorem CyclePost_sends_PVAct_witness:
  "(\<exists>net' rly'. CyclePost \<lparr>Quarter = 3, Cycle = 80\<rparr> ex_pv ex_pvlv_net = Inr net'
       \<and> Quarter \<lparr>Quarter = 3, Cycle = 80\<rparr> = SendPVQuarter ex_pv
       \<and> ''CElAcq'' \<in> set (PVReceivers ex_pv)
       \<and> net' ''CElAcq'' = Some (IModLayer rly')
       \<and> ModNeurs rly' = [\<lparr>PVAct = 0.75\<rparr>, \<lparr>PVAct = 0.5\<rparr>, \<lparr>PVAct = 1\<rparr>]
       \<and> net' ''PosPV'' = Some NotModLayer)
   \<and> CyclePost \<lparr>Quarter = 2, Cycle = 60\<rparr> ex_pv ex_pvlv_net = Inr ex_pvlv_net"
proof -
  let ?t = "\<lparr>Quarter = 3, Cycle = 80\<rparr>"
  have ok: "\<forall>r \<in> set (PVReceivers ex_pv). recv_ok ex_pv ex_pvlv_net r"
    by (simp add: ex_pv_def ex_pvlv_net_def recv_ok_def)
  from CyclePost_sends_PVAct [of ?t ex_pv ex_pvlv_net] ok
  obtain net' where run: "CyclePost ?t ex_pv ex_pvlv_net = Inr net'" by blast
  have q: "Quarter ?t = SendPVQuarter ex_pv" by (simp add: ex_pv_def)
  have r: "''CElAcq'' \<in> set (PVReceivers ex_pv)" by (simp add: ex_pv_def)
  have r2: "''PosPV'' \<notin> set (PVReceivers ex_pv)" by (simp add: ex_pv_def)
  from CyclePost_sends_PVAct [of ?t ex_pv ex_pvlv_net net'] run q r
  obtain rly rly' where a: "ex_pvlv_net ''CElAcq'' = Some (IModLayer rly)"
    "net' ''CElAcq'' = Some (IModLayer rly')"
    "length (ModNeurs rly') = length (ModNeurs rly)"
    "\<forall>p_i < length (Neurons ex_pv).
               PVAct (ModNeurs rly' ! p_i) = max (Neuron.Act (Neurons ex_pv ! p_i)) (Ext (Neurons ex_pv ! p_i))"
    "\<forall>p_i < length (ModNeurs rly). length (Neurons ex_pv) \<le> p_i \<longrightarrow>
               ModNeurs rly' ! p_i = ModNeurs rly ! p_i"
    by blast
  have rly: "rly = \<lparr>ModNeurs = [\<lparr>PVAct = 1\<rparr>, \<lparr>PVAct = 1\<rparr>, \<lparr>PVAct = 1\<rparr>], IsPVReceiver = True\<rparr>"
    using a(1) by (simp add: ex_pvlv_net_def)
  have "ModNeurs rly' ! 0 = \<lparr>PVAct = 0.75\<rparr>" "ModNeurs rly' ! 1 = \<lparr>PVAct = 0.5\<rparr>"
    using a(4) by (simp_all add: ex_pv_def)
  moreover have "ModNeurs rly' ! 2 = \<lparr>PVAct = 1\<rparr>"
    using a(5) rly by (simp add: ex_pv_def)
  moreover have "length (ModNeurs rly') = 3" using a(3) rly by simp
  ultimately have m: "ModNeurs rly' = [\<lparr>PVAct = 0.75\<rparr>, \<lparr>PVAct = 0.5\<rparr>, \<lparr>PVAct = 1\<rparr>]"
    by (simp add: list_eq_iff_nth_eq less_Suc_eq numeral_3_eq_3 numeral_2_eq_2)
  have "net' ''PosPV'' = ex_pvlv_net ''PosPV''"
    using CyclePost_sends_PVAct [of ?t ex_pv ex_pvlv_net net'] run q r2 by blast
  then have p: "net' ''PosPV'' = Some NotModLayer" by (simp add: ex_pvlv_net_def)
  have other: "CyclePost \<lparr>Quarter = 2, Cycle = 60\<rparr> ex_pv ex_pvlv_net = Inr ex_pvlv_net"
    by (simp add: CyclePost_def ex_pv_def)
  show ?thesis using run q r a(2) m p other by blast
qed

section \<open>Properties of the PFC deep layer\<close>

subsection \<open>The gate counter\<close>

lemma UpdtGateCnt_frame [simp]:
  "Gate (UpdtGateCnt t ly) = Gate ly"
  "length (GateStates (UpdtGateCnt t ly)) = length (GateStates ly)"
  by (simp_all add: UpdtGateCnt_def)

lemma wrap64_in_range:
  "- (2 ^ 63) \<le> x \<Longrightarrow> x < 2 ^ 63 \<Longrightarrow> wrap64 x = x"
  by (simp add: wrap64_def)

lemma wrap64_range:
  "- (2 ^ 63) \<le> wrap64 x \<and> wrap64 x < 2 ^ 63"
proof -
  have "0 \<le> (x + 2 ^ 63) mod (2 ^ 64 :: int)" "(x + 2 ^ 63) mod (2 ^ 64 :: int) < 2 ^ 64"
    by simp_all
  then show ?thesis unfolding wrap64_def by simp
qed

lemma wrap64_sint:
  "wrap64 x = sint (word_of_int x :: 64 word)"
  by (simp add: wrap64_def sint_sbintrunc' signed_take_bit_eq_take_bit_shift take_bit_eq_mod)

lemma UpdtGateCnt_Cnt:
  "gi < length (GateStates ly) \<Longrightarrow>
   Cnt (GateStates (UpdtGateCnt t ly) ! gi) =
     (if Quarter t \<notin> GateQtr (Gate ly) then Cnt (GateStates ly ! gi)
      else if Cnt (GateStates ly ! gi) < 0 then wrap64 (Cnt (GateStates ly ! gi) - 1)
      else wrap64 (Cnt (GateStates ly ! gi) + 1))"
  by (simp add: UpdtGateCnt_def UpdtGateCnt_pool_def)

lemma UpdtGateCnt_Now_Act:
  "gi < length (GateStates ly) \<Longrightarrow>
   Now (GateStates (UpdtGateCnt t ly) ! gi) = Now (GateStates ly ! gi) \<and>
   GateState.Act (GateStates (UpdtGateCnt t ly) ! gi) = GateState.Act (GateStates ly ! gi)"
  by (simp add: UpdtGateCnt_def UpdtGateCnt_pool_def)

lemma fold_UpdtGateCnt_frame [simp]:
  "Gate (fold UpdtGateCnt ts ly) = Gate ly"
  "length (GateStates (fold UpdtGateCnt ts ly)) = length (GateStates ly)"
  by (induction ts arbitrary: ly) simp_all

text \<open>
  A run of calls on a counter that is \<open>\<ge> 0\<close> and has room for the eligible quarters of the run
  below \<open>2 ^ 63\<close> adds their number; on a counter that is \<open>< 0\<close> and has room above
  \<open>- (2 ^ 63)\<close>, it subtracts it.
\<close>

lemma fold_UpdtGateCnt_Cnt_up:
  assumes "gi < length (GateStates ly)"
    and "0 \<le> Cnt (GateStates ly ! gi)"
    and "Cnt (GateStates ly ! gi) + int (length (filter (\<lambda>t. Quarter t \<in> GateQtr (Gate ly)) ts)) < 2 ^ 63"
  shows "Cnt (GateStates (fold UpdtGateCnt ts ly) ! gi) =
     Cnt (GateStates ly ! gi) + int (length (filter (\<lambda>t. Quarter t \<in> GateQtr (Gate ly)) ts))"
  using assms
proof (induction ts arbitrary: ly)
  case Nil
  then show ?case by simp
next
  case (Cons t ts)
  let ?ly = "UpdtGateCnt t ly"
  let ?c = "Cnt (GateStates ly ! gi)"
  have g: "gi < length (GateStates ?ly)" using Cons.prems by simp
  show ?case
  proof (cases "Quarter t \<in> GateQtr (Gate ly)")
    case True
    have "?c + 1 < 2 ^ 63" using Cons.prems True by simp
    then have c: "Cnt (GateStates ?ly ! gi) = ?c + 1"
      using Cons.prems True by (simp add: UpdtGateCnt_Cnt wrap64_in_range)
    have "Cnt (GateStates (fold UpdtGateCnt ts ?ly) ! gi) =
        Cnt (GateStates ?ly ! gi) + int (length (filter (\<lambda>t. Quarter t \<in> GateQtr (Gate ?ly)) ts))"
      using Cons.prems True c by (intro Cons.IH [OF g]) simp_all
    then show ?thesis using True c by simp
  next
    case False
    then have c: "Cnt (GateStates ?ly ! gi) = ?c"
      using Cons.prems by (simp add: UpdtGateCnt_Cnt)
    have "Cnt (GateStates (fold UpdtGateCnt ts ?ly) ! gi) =
        Cnt (GateStates ?ly ! gi) + int (length (filter (\<lambda>t. Quarter t \<in> GateQtr (Gate ?ly)) ts))"
      using Cons.prems False c by (intro Cons.IH [OF g]) simp_all
    then show ?thesis using False c by simp
  qed
qed

lemma fold_UpdtGateCnt_Cnt_down:
  assumes "gi < length (GateStates ly)"
    and "Cnt (GateStates ly ! gi) < 0"
    and "- (2 ^ 63) \<le> Cnt (GateStates ly ! gi) - int (length (filter (\<lambda>t. Quarter t \<in> GateQtr (Gate ly)) ts))"
  shows "Cnt (GateStates (fold UpdtGateCnt ts ly) ! gi) =
     Cnt (GateStates ly ! gi) - int (length (filter (\<lambda>t. Quarter t \<in> GateQtr (Gate ly)) ts))"
  using assms
proof (induction ts arbitrary: ly)
  case Nil
  then show ?case by simp
next
  case (Cons t ts)
  let ?ly = "UpdtGateCnt t ly"
  let ?c = "Cnt (GateStates ly ! gi)"
  have g: "gi < length (GateStates ?ly)" using Cons.prems by simp
  show ?case
  proof (cases "Quarter t \<in> GateQtr (Gate ly)")
    case True
    have "- (2 ^ 63) \<le> ?c - 1" using Cons.prems True by simp
    then have c: "Cnt (GateStates ?ly ! gi) = ?c - 1"
      using Cons.prems True by (simp add: UpdtGateCnt_Cnt wrap64_in_range)
    have "Cnt (GateStates (fold UpdtGateCnt ts ?ly) ! gi) =
        Cnt (GateStates ?ly ! gi) - int (length (filter (\<lambda>t. Quarter t \<in> GateQtr (Gate ?ly)) ts))"
      using Cons.prems True c by (intro Cons.IH [OF g]) simp_all
    then show ?thesis using True c by simp
  next
    case False
    then have c: "Cnt (GateStates ?ly ! gi) = ?c"
      using Cons.prems by (simp add: UpdtGateCnt_Cnt)
    have "Cnt (GateStates (fold UpdtGateCnt ts ?ly) ! gi) =
        Cnt (GateStates ?ly ! gi) - int (length (filter (\<lambda>t. Quarter t \<in> GateQtr (Gate ?ly)) ts))"
      using Cons.prems False c by (intro Cons.IH [OF g]) simp_all
    then show ?thesis using False c by simp
  qed
qed

text \<open>
  Claim C4, as it is written, at the end of the range. A pool whose counter is \<open>2 ^ 63 - 1\<close>
  is maintaining (\<open>Cnt \<ge> 0\<close>); one call of \<^verbatim>\<open>UpdtGateCnt\<close> in a gating quarter, with no gate
  event in between, leaves it at \<open>- (2 ^ 63)\<close>: the counter has decreased, and not by the
  increment of one. In the same way a pool at \<open>- (2 ^ 63)\<close> is idle, and the call leaves it at
  \<open>2 ^ 63 - 1\<close>: it has increased.
\<close>

theorem UpdtGateCnt_Cnt_wraps:
  "Quarter \<lparr>Quarter = 1, Cycle = 50\<rparr> \<in> GateQtr (Gate ex_deep)
   \<and> 0 \<le> Cnt (GateStates (ex_deep\<lparr>GateStates :=
        [\<lparr>Act = 0, Now = False, Cnt = 9223372036854775807\<rparr>,
         \<lparr>Act = 0, Now = False, Cnt = - 9223372036854775808\<rparr>]\<rparr>) ! 0)
   \<and> Cnt (GateStates (UpdtGateCnt \<lparr>Quarter = 1, Cycle = 50\<rparr> (ex_deep\<lparr>GateStates :=
        [\<lparr>Act = 0, Now = False, Cnt = 9223372036854775807\<rparr>,
         \<lparr>Act = 0, Now = False, Cnt = - 9223372036854775808\<rparr>]\<rparr>)) ! 0)
       = - 9223372036854775808
   \<and> \<not> Cnt (GateStates (ex_deep\<lparr>GateStates :=
        [\<lparr>Act = 0, Now = False, Cnt = 9223372036854775807\<rparr>,
         \<lparr>Act = 0, Now = False, Cnt = - 9223372036854775808\<rparr>]\<rparr>) ! 0)
       \<le> Cnt (GateStates (UpdtGateCnt \<lparr>Quarter = 1, Cycle = 50\<rparr> (ex_deep\<lparr>GateStates :=
        [\<lparr>Act = 0, Now = False, Cnt = 9223372036854775807\<rparr>,
         \<lparr>Act = 0, Now = False, Cnt = - 9223372036854775808\<rparr>]\<rparr>)) ! 0)
   \<and> Cnt (GateStates (UpdtGateCnt \<lparr>Quarter = 1, Cycle = 50\<rparr> (ex_deep\<lparr>GateStates :=
        [\<lparr>Act = 0, Now = False, Cnt = 9223372036854775807\<rparr>,
         \<lparr>Act = 0, Now = False, Cnt = - 9223372036854775808\<rparr>]\<rparr>)) ! 1)
       = 9223372036854775807
   \<and> \<not> Cnt (GateStates (UpdtGateCnt \<lparr>Quarter = 1, Cycle = 50\<rparr> (ex_deep\<lparr>GateStates :=
        [\<lparr>Act = 0, Now = False, Cnt = 9223372036854775807\<rparr>,
         \<lparr>Act = 0, Now = False, Cnt = - 9223372036854775808\<rparr>]\<rparr>)) ! 1)
       \<le> Cnt (GateStates (ex_deep\<lparr>GateStates :=
        [\<lparr>Act = 0, Now = False, Cnt = 9223372036854775807\<rparr>,
         \<lparr>Act = 0, Now = False, Cnt = - 9223372036854775808\<rparr>]\<rparr>) ! 1)"
  by (simp add: UpdtGateCnt_def UpdtGateCnt_pool_def wrap64_def ex_deep_def)

text \<open>
  Claim C4, amended. Over any two successive runs \<open>ts1\<close>, \<open>ts2\<close> of calls of \<^verbatim>\<open>UpdtGateCnt\<close>
  during which the counter of a pool stays inside the 64-bit range, it moves by one per call
  whose quarter is in \<open>GateQtr\<close> and not at all otherwise: up while it is \<open>\<ge> 0\<close>, so that it
  never decreases, and down while it is \<open>< 0\<close>, so that it never increases and stays negative.
  The counter stays inside the range when it is \<open>\<ge> 0\<close> and the eligible quarters of both runs
  fit below \<open>2 ^ 63\<close>, or it is \<open>< 0\<close> and they fit above \<open>- (2 ^ 63)\<close>. (What resets a counter
  is \<^verbatim>\<open>Gating\<close>, see claim C3.)
\<close>

theorem UpdtGateCnt_Cnt_monotone_in_range:
  assumes "gi < length (GateStates ly)"
    and "ly1 = fold UpdtGateCnt ts1 ly" and "ly2 = fold UpdtGateCnt ts2 ly1"
    and "c = Cnt (GateStates ly ! gi)" and "c1 = Cnt (GateStates ly1 ! gi)"
    and "c2 = Cnt (GateStates ly2 ! gi)"
    and "k1 = int (length (filter (\<lambda>t. Quarter t \<in> GateQtr (Gate ly)) ts1))"
    and "k2 = int (length (filter (\<lambda>t. Quarter t \<in> GateQtr (Gate ly)) ts2))"
  shows "(0 \<le> c \<and> c + k1 + k2 < 2 ^ 63 \<longrightarrow>
            c1 = c + k1 \<and> c2 = c1 + k2 \<and> c \<le> c1 \<and> c1 \<le> c2)
       \<and> (c < 0 \<and> - (2 ^ 63) \<le> c - k1 - k2 \<longrightarrow>
            c1 = c - k1 \<and> c2 = c1 - k2 \<and> c2 \<le> c1 \<and> c1 \<le> c \<and> c2 < 0)"
proof -
  have k: "0 \<le> k1" "0 \<le> k2" using assms by simp_all
  have g1: "gi < length (GateStates ly1)" using assms by simp
  have G: "Gate ly1 = Gate ly" using assms by simp
  have up: "c1 = c + k1 \<and> c2 = c1 + k2 \<and> c \<le> c1 \<and> c1 \<le> c2"
    if "0 \<le> c" "c + k1 + k2 < 2 ^ 63"
  proof -
    have 1: "c1 = c + k1"
      using assms that k
      by (simp add: fold_UpdtGateCnt_Cnt_up [OF assms(1)])
    have "0 \<le> Cnt (GateStates ly1 ! gi)" using 1 that k assms(5) by simp
    moreover have "Cnt (GateStates ly1 ! gi)
        + int (length (filter (\<lambda>t. Quarter t \<in> GateQtr (Gate ly1)) ts2)) < 2 ^ 63"
      using 1 that assms(5,8) G by simp
    ultimately have 2: "c2 = c1 + k2"
      using fold_UpdtGateCnt_Cnt_up [OF g1, of ts2] assms(3,5,6,8) G by simp
    show ?thesis using 1 2 k by simp
  qed
  have down: "c1 = c - k1 \<and> c2 = c1 - k2 \<and> c2 \<le> c1 \<and> c1 \<le> c \<and> c2 < 0"
    if "c < 0" "- (2 ^ 63) \<le> c - k1 - k2"
  proof -
    have 1: "c1 = c - k1"
      using assms that k
      by (simp add: fold_UpdtGateCnt_Cnt_down [OF assms(1)])
    have "Cnt (GateStates ly1 ! gi) < 0" using 1 that k assms(5) by simp
    moreover have "- (2 ^ 63) \<le> Cnt (GateStates ly1 ! gi)
        - int (length (filter (\<lambda>t. Quarter t \<in> GateQtr (Gate ly1)) ts2))"
      using 1 that assms(5,8) G by simp
    ultimately have 2: "c2 = c1 - k2"
      using fold_UpdtGateCnt_Cnt_down [OF g1, of ts2] assms(3,5,6,8) G by simp
    show ?thesis using 1 2 k that by simp
  qed
  show ?thesis using up down by blast
qed

theorem UpdtGateCnt_Cnt_monotone_in_range_witness:
  "Cnt (GateStates ex_deep ! 0) = 1
   \<and> Cnt (GateStates (fold UpdtGateCnt [\<lparr>Quarter = 1, Cycle = 50\<rparr>, \<lparr>Quarter = 2, Cycle = 75\<rparr>] ex_deep) ! 0) = 2
   \<and> Cnt (GateStates (fold UpdtGateCnt [\<lparr>Quarter = 3, Cycle = 100\<rparr>]
        (fold UpdtGateCnt [\<lparr>Quarter = 1, Cycle = 50\<rparr>, \<lparr>Quarter = 2, Cycle = 75\<rparr>] ex_deep)) ! 0) = 3
   \<and> Cnt (GateStates ex_deep ! 1) = - 2
   \<and> Cnt (GateStates (fold UpdtGateCnt [\<lparr>Quarter = 1, Cycle = 50\<rparr>, \<lparr>Quarter = 2, Cycle = 75\<rparr>] ex_deep) ! 1) = - 3
   \<and> Cnt (GateStates (fold UpdtGateCnt [\<lparr>Quarter = 3, Cycle = 100\<rparr>]
        (fold UpdtGateCnt [\<lparr>Quarter = 1, Cycle = 50\<rparr>, \<lparr>Quarter = 2, Cycle = 75\<rparr>] ex_deep)) ! 1) = - 4"
proof -
  have g: "0 < length (GateStates ex_deep)" "1 < length (GateStates ex_deep)"
    by (simp_all add: ex_deep_def)
  note a = UpdtGateCnt_Cnt_monotone_in_range [where ?ts2.0 = "[\<lparr>Quarter = 3, Cycle = 100\<rparr>]"
        and ?ts1.0 = "[\<lparr>Quarter = 1, Cycle = 50\<rparr>, \<lparr>Quarter = 2, Cycle = 75\<rparr>]",
      OF g(1) refl refl refl refl refl refl refl]
  note b = UpdtGateCnt_Cnt_monotone_in_range [where ?ts2.0 = "[\<lparr>Quarter = 3, Cycle = 100\<rparr>]"
        and ?ts1.0 = "[\<lparr>Quarter = 1, Cycle = 50\<rparr>, \<lparr>Quarter = 2, Cycle = 75\<rparr>]",
      OF g(2) refl refl refl refl refl refl refl]
  have c: "Cnt (GateStates ex_deep ! 0) = 1" "Cnt (GateStates ex_deep ! 1) = - 2"
    "GateQtr (Gate ex_deep) = {1, 3}"
    by (simp_all add: ex_deep_def)
  show ?thesis using a b c by simp
qed

subsection \<open>Deep maintenance\<close>

lemma DeepMaint_unit_other:
  "DeepMaint_unit ly sns xN nn syN sxN snn dtyp j t = Inr t' \<Longrightarrow> j \<noteq> ni \<Longrightarrow>
     (t' ! ni, length t') = (t ! ni, length t)"
  unfolding DeepMaint_unit_def Let_def
  by (auto simp: bindE_Inr_iff split: if_splits)

lemma DeepMaint_unit_off:
  "DeepMaint_unit ly sns xN nn syN sxN snn dtyp ni t = Inr t' \<Longrightarrow> IsOff (Neurons ly ! ni) \<Longrightarrow> t' = t"
  unfolding DeepMaint_unit_def Let_def by simp

lemma DeepMaint_unit_self:
  assumes "DeepMaint_unit ly sns xN (yN * xN) syN sxN (syN * sxN) dtyp ni t = Inr t'"
    and "\<not> IsOff (Neurons ly ! ni)"
    and "gs = GateStates ly ! nat (SubPool (Neurons ly ! ni) - 1)"
  shows "ni < length t \<and>
     (Cnt gs < 0 \<longrightarrow> PFCNeuron.Maint (t' ! ni) = 0 \<and> MaintGe (t' ! ni) = 0) \<and>
     (0 \<le> Cnt gs \<and> Cnt gs \<le> 1 \<longrightarrow>
        PFCNeuron.Maint (t' ! ni) =
          MaintGain (PFCDeepLayer.Maint ly) * Neuron.Act (sns ! nat (DeepMaint_si yN xN syN sxN ni))) \<and>
     (1 < Cnt gs \<longrightarrow> PFCNeuron.Maint (t' ! ni) = PFCNeuron.Maint (t ! ni)) \<and>
     (0 \<le> Cnt gs \<longrightarrow>
        MaintGe (t' ! ni) =
          (if UseDyn (PFCDeepLayer.Maint ly)
           then PFCNeuron.Maint (t' ! ni) * Dyns_Value ly dtyp (real_of_int (Cnt gs - 1))
           else PFCNeuron.Maint (t' ! ni))) \<and>
     ActG (t' ! ni) = ActG (t ! ni)"
  using assms unfolding DeepMaint_unit_def Let_def DeepMaint_si_def go_div_def go_mod_def
  by (auto simp: bindE_Inr_iff at_idx_Inr_iff split: if_splits)

lemma ex_DeepMaint:
  "DeepMaint ''PFCmntD'' \<lparr>Quarter = 1, Cycle = 50\<rparr> ex_pbwm_net =
     Inr (ex_pbwm_net(''PFCmntD'' \<mapsto> PFCDeep (ex_deep\<lparr>PFCNeurs :=
       [\<lparr>ActG = 0, Maint = 0.25, MaintGe = 0.5\<rparr>,
        \<lparr>ActG = 0, Maint = 0.25, MaintGe = 0.5\<rparr>,
        \<lparr>ActG = 0, Maint = 0, MaintGe = 0\<rparr>,
        \<lparr>ActG = 0, Maint = 0, MaintGe = 0\<rparr>,
        \<lparr>ActG = 0, Maint = 0.25, MaintGe = 1\<rparr>,
        \<lparr>ActG = 0, Maint = 0.25, MaintGe = 0.125\<rparr>]\<rparr>)))"
  by (simp add: DeepMaint_def SuperPFC_def DeepMaint_unit_def go_div_def go_mod_def at_idx_def
      upt_rec Let_def signed_divide_int_def signed_modulo_int_def
      ex_pbwm_net_def ex_deep_def ex_super_def numeral_eq_Suc)

text \<open>
  Claim C2. Whenever \<^verbatim>\<open>DeepMaint\<close> returns at a quarter of \<open>GateQtr\<close> with the super layer
  in the network, every unit \<open>ni\<close> of the deep layer that is on, with \<open>gs\<close> the gate
  state of its pool, ends with: \<open>Maint = 0\<close> and \<open>MaintGe = 0\<close> if \<open>Cnt < 0\<close>;
  \<open>Maint = MaintGain * Act\<close> of the super-layer unit \<open>si\<close> if \<open>0 \<le> Cnt \<le> 1\<close>; its old
  \<open>Maint\<close> if \<open>Cnt > 1\<close>; and, whenever \<open>Cnt \<ge> 0\<close>, \<open>MaintGe\<close> equal to the new \<open>Maint\<close>
  times \<open>Dyns_Value dtyp (Cnt - 1)\<close> when \<open>UseDyn\<close> is set and to the new \<open>Maint\<close>
  otherwise.
\<close>

theorem DeepMaint_sets_Maint:
  assumes run: "DeepMaint nm ltime net = Inr net'"
    and ly: "net nm = Some (PFCDeep ly)"
    and q: "Quarter ltime \<in> GateQtr (Gate ly)"
    and sly: "net (take (length nm - 1) nm) = Some sly"
    and ni: "ni < length (Neurons ly)" and on: "\<not> IsOff (Neurons ly ! ni)"
    and gs: "gs = GateStates ly ! nat (SubPool (Neurons ly ! ni) - 1)"
    and si: "si = nat (DeepMaint_si (Shp ly ! 2) (Shp ly ! 3) (AsLeabra_Shp sly ! 2) (AsLeabra_Shp sly ! 3) ni)"
    and dtyp: "dtyp = DeepMaint_dtyp (Shp ly ! 2) (AsLeabra_Shp sly ! 2)"
  shows "\<exists>ly'. net' nm = Some (PFCDeep ly') \<and>
     (Cnt gs < 0 \<longrightarrow> PFCNeuron.Maint (PFCNeurs ly' ! ni) = 0 \<and> MaintGe (PFCNeurs ly' ! ni) = 0) \<and>
     (0 \<le> Cnt gs \<and> Cnt gs \<le> 1 \<longrightarrow>
        PFCNeuron.Maint (PFCNeurs ly' ! ni) =
          MaintGain (PFCDeepLayer.Maint ly) * Neuron.Act (AsLeabra_Neurons sly ! si)) \<and>
     (1 < Cnt gs \<longrightarrow> PFCNeuron.Maint (PFCNeurs ly' ! ni) = PFCNeuron.Maint (PFCNeurs ly ! ni)) \<and>
     (0 \<le> Cnt gs \<longrightarrow>
        MaintGe (PFCNeurs ly' ! ni) =
          (if UseDyn (PFCDeepLayer.Maint ly)
           then PFCNeuron.Maint (PFCNeurs ly' ! ni) * Dyns_Value ly dtyp (real_of_int (Cnt gs - 1))
           else PFCNeuron.Maint (PFCNeurs ly' ! ni)))"
proof -
  let ?yN = "Shp ly ! 2" and ?xN = "Shp ly ! 3"
  let ?syN = "AsLeabra_Shp sly ! 2" and ?sxN = "AsLeabra_Shp sly ! 3"
  have sp: "SuperPFC net nm = Inr (Some (take (length nm - 1) nm))"
    using run ly q sly
    by (auto simp: DeepMaint_def SuperPFC_def Let_def split: if_splits)
  from run ly q sp sly obtain pns
    where loop: "forE (DeepMaint_unit ly (AsLeabra_Neurons sly) ?xN (?yN * ?xN) ?syN ?sxN (?syN * ?sxN)
                    (DeepMaint_dtyp ?yN ?syN)) [0..<length (Neurons ly)] (PFCNeurs ly) = Inr pns"
      and net': "net' = net(nm \<mapsto> PFCDeep (ly\<lparr>PFCNeurs := pns\<rparr>))"
    by (auto simp: DeepMaint_def Let_def bindE_Inr_iff at_idx_Inr_iff go_div_def DeepMaint_dtyp_def
        split: if_splits)
  let ?body = "DeepMaint_unit ly (AsLeabra_Neurons sly) ?xN (?yN * ?xN) ?syN ?sxN (?syN * ?sxN)
                    (DeepMaint_dtyp ?yN ?syN)"
  have "\<exists>t t'. (t ! ni, length t) = (PFCNeurs ly ! ni, length (PFCNeurs ly))
            \<and> ?body ni t = Inr t' \<and> (t' ! ni, length t') = (pns ! ni, length pns)"
  proof (rule forE_focus [OF loop])
    show "distinct [0..<length (Neurons ly)]" by simp
    show "ni \<in> set [0..<length (Neurons ly)]" using ni by simp
    show "\<And>j t t'. j \<in> set [0..<length (Neurons ly)] \<Longrightarrow> j \<noteq> ni \<Longrightarrow>
        ?body j t = Inr t' \<Longrightarrow> (t' ! ni, length t') = (t ! ni, length t)"
      by (rule DeepMaint_unit_other)
  qed
  then obtain t t' where t: "t ! ni = PFCNeurs ly ! ni"
    and b: "?body ni t = Inr t'" and t': "t' ! ni = pns ! ni"
    by auto
  note u = DeepMaint_unit_self [OF b on gs]
  show ?thesis
    using u t t' net' si dtyp by (intro exI [of _ "ly\<lparr>PFCNeurs := pns\<rparr>"]) simp
qed

theorem DeepMaint_sets_Maint_witness:
  "\<exists>net' ly'. DeepMaint ''PFCmntD'' \<lparr>Quarter = 1, Cycle = 50\<rparr> ex_pbwm_net = Inr net'
     \<and> net' ''PFCmntD'' = Some (PFCDeep ly')
     \<and> Cnt (GateStates ex_deep ! nat (SubPool (Neurons ex_deep ! 0) - 1)) = 1
     \<and> PFCNeuron.Maint (PFCNeurs ly' ! 0) = 0.25 \<and> MaintGe (PFCNeurs ly' ! 0) = 0.5
     \<and> Cnt (GateStates ex_deep ! nat (SubPool (Neurons ex_deep ! 2) - 1)) = - 2
     \<and> PFCNeuron.Maint (PFCNeurs ly' ! 2) = 0 \<and> MaintGe (PFCNeurs ly' ! 2) = 0
     \<and> Cnt (GateStates ex_deep ! nat (SubPool (Neurons ex_deep ! 4) - 1)) = 3
     \<and> PFCNeuron.Maint (PFCNeurs ly' ! 4) = 0.25 \<and> MaintGe (PFCNeurs ly' ! 4) = 1"
proof -
  have ly: "ex_pbwm_net ''PFCmntD'' = Some (PFCDeep ex_deep)"
    and q: "Quarter \<lparr>Quarter = 1, Cycle = 50\<rparr> \<in> GateQtr (Gate ex_deep)"
    and sly: "ex_pbwm_net (take (length ''PFCmntD'' - 1) ''PFCmntD'') = Some (Leabra ex_super)"
    and ni: "0 < length (Neurons ex_deep)" "2 < length (Neurons ex_deep)" "4 < length (Neurons ex_deep)"
    and on: "\<not> IsOff (Neurons ex_deep ! 0)" "\<not> IsOff (Neurons ex_deep ! 2)" "\<not> IsOff (Neurons ex_deep ! 4)"
    by (simp_all add: ex_pbwm_net_def ex_deep_def)
  note a = DeepMaint_sets_Maint [OF ex_DeepMaint ly q sly ni(1) on(1) refl refl refl]
  note b = DeepMaint_sets_Maint [OF ex_DeepMaint ly q sly ni(2) on(2) refl refl refl]
  note c = DeepMaint_sets_Maint [OF ex_DeepMaint ly q sly ni(3) on(3) refl refl refl]
  show ?thesis
    using a b c
    by (simp add: ex_DeepMaint)
       (simp add: ex_deep_def ex_super_def DeepMaint_si_def DeepMaint_dtyp_def
          signed_divide_int_def signed_modulo_int_def Let_def)
qed

subsection \<open>Gating\<close>

lemma gate_part_set_Neurons [simp]:
  "gate_part (Some (AsLeabra_set_Neurons ns l)) = gate_part (Some l)"
  by (cases l) simp_all

lemma DecayStatePool_gate_part:
  "AsLeabra_DecayStatePool dsp x pool decay net = Inr net' \<Longrightarrow> gate_part (net' n) = gate_part (net n)"
  by (auto simp: AsLeabra_DecayStatePool_def split: option.splits)

lemma gate_part_PFCDeep:
  "gate_part x = Some (Some (gss, g, m)) \<longleftrightarrow>
     (\<exists>ly. x = Some (PFCDeep ly) \<and> GateStates ly = gss \<and> Gate ly = g \<and> PFCDeepLayer.Maint ly = m)"
  by (cases x rule: gate_part.cases) auto

lemma ClearMaint_gate_part:
  assumes "ClearMaint dsp nm pool net = Inr net'" and "net nm = Some (PFCDeep ly)"
    and "Cnt (GateStates ly ! nat pool) < 1"
  shows "gate_part (net' nm) = gate_part (net nm)"
proof -
  from assms(1) obtain r where r: "MaintPFC net nm = Inr r"
    and c: "(case r of None \<Rightarrow> Inr net
             | Some (mnm, pfcm) \<Rightarrow>
                 bindE (at_idx (GateStates pfcm) pool) (\<lambda>gs.
                 if Cnt gs \<ge> 1
                 then
                   let net1 = net(mnm \<mapsto> PFCDeep (pfcm\<lparr>GateStates := (GateStates pfcm)[nat pool := gs\<lparr>Cnt := - 1\<rparr>]\<rparr>)) in
                   bindE (SuperPFC net1 mnm) (\<lambda>pfcs.
                   AsLeabra_DecayStatePool dsp pfcs pool (Clear (PFCDeepLayer.Maint pfcm)) net1)
                 else Inr net)) = Inr net'"
    by (auto simp: ClearMaint_def bindE_Inr_iff)
  show ?thesis
  proof (cases r)
    case None
    then show ?thesis using c by simp
  next
    case (Some p)
    obtain mnm pfcm where p: "p = (mnm, pfcm)" by (cases p)
    have m: "net mnm = Some (PFCDeep pfcm)"
      using r Some p by (auto simp: MaintPFC_def Let_def split: if_splits option.splits PBWMLayer.splits)
    from c Some p obtain gs where gs: "at_idx (GateStates pfcm) pool = Inr gs"
      and d: "(if Cnt gs \<ge> 1
                 then
                   let net1 = net(mnm \<mapsto> PFCDeep (pfcm\<lparr>GateStates := (GateStates pfcm)[nat pool := gs\<lparr>Cnt := - 1\<rparr>]\<rparr>)) in
                   bindE (SuperPFC net1 mnm) (\<lambda>pfcs.
                   AsLeabra_DecayStatePool dsp pfcs pool (Clear (PFCDeepLayer.Maint pfcm)) net1)
                 else Inr net) = Inr net'"
      by (auto simp: bindE_Inr_iff)
    show ?thesis
    proof (cases "Cnt gs \<ge> 1")
      case False
      then show ?thesis using d by simp
    next
      case True
      have "mnm \<noteq> nm"
      proof
        assume "mnm = nm"
        then have "pfcm = ly" using m assms(2) by simp
        then have "gs = GateStates ly ! nat pool" using gs by (simp add: at_idx_Inr_iff)
        then show False using True assms(3) by simp
      qed
      moreover from d True obtain pfcs net1 where
        "net1 = net(mnm \<mapsto> PFCDeep (pfcm\<lparr>GateStates := (GateStates pfcm)[nat pool := gs\<lparr>Cnt := - 1\<rparr>]\<rparr>))"
        and "AsLeabra_DecayStatePool dsp pfcs pool (Clear (PFCDeepLayer.Maint pfcm)) net1 = Inr net'"
        by (auto simp: Let_def bindE_Inr_iff)
      ultimately show ?thesis
        using DecayStatePool_gate_part [of dsp pfcs pool "Clear (PFCDeepLayer.Maint pfcm)" net1 net' nm]
        by simp
    qed
  qed
qed

lemma Gating_pool_gate_part:
  assumes run: "Gating_pool dsp nm j net = Inr net'" and ly: "net nm = Some (PFCDeep ly)"
    and j: "j < length (GateStates ly)"
  shows "gate_part (net' nm) =
     Some (Some ((GateStates ly)[j := (GateStates ly ! j)\<lparr>Cnt := gating_cnt (PFCDeepLayer.Maint ly) (GateStates ly ! j)\<rparr>],
                 Gate ly, PFCDeepLayer.Maint ly))"
proof -
  let ?gs = "GateStates ly ! j"
  let ?mp = "PFCDeepLayer.Maint ly"
  show ?thesis
  proof (cases "Now ?gs")
    case False
    then have "net' = net" using run ly by (simp add: Gating_pool_def Let_def)
    then show ?thesis using False ly by (simp add: gating_cnt_def)
  next
    case True
    let ?c = "if GateState.Act ?gs > 0 then 0 else Cnt ?gs"
    let ?ly1 = "ly\<lparr>GateStates := (GateStates ly)[j := ?gs\<lparr>Cnt := 0\<rparr>]\<rparr>"
    let ?net1 = "net(nm \<mapsto> PFCDeep ?ly1)"
    let ?first = "if GateState.Act ?gs > 0
               then
                 if OutGate (Gate ly)
                 then (if OutClearMaint ?mp then ClearMaint dsp nm (int j) ?net1 else Inr ?net1)
                 else
                   bindE (SuperPFC ?net1 nm) (\<lambda>pfcs.
                   AsLeabra_DecayStatePool dsp pfcs (int j) (Clear ?mp) ?net1)
               else Inr net"
    let ?second = "\<lambda>net2. case net2 nm of
                   Some (PFCDeep ly2) \<Rightarrow>
                     if Cnt (GateStates ly2 ! j) \<ge> MaxMaint (PFCDeepLayer.Maint ly2)
                     then Inr (net2(nm \<mapsto> PFCDeep (ly2\<lparr>GateStates := (GateStates ly2)[j := (GateStates ly2 ! j)\<lparr>Cnt := - 1\<rparr>]\<rparr>)))
                     else Inr net2
                 | _ \<Rightarrow> Inl NilDereference"
    have "Gating_pool dsp nm j net = bindE ?first ?second"
      using ly True unfolding Gating_pool_def Let_def by simp
    then have "bindE ?first ?second = Inr net'"
      using run by simp
    then have "\<exists>net2. ?first = Inr net2 \<and> ?second net2 = Inr net'"
      by (rule iffD1 [OF bindE_Inr_iff])
    then obtain net2 where first: "?first = Inr net2" and second: "?second net2 = Inr net'"
      by blast
    have g2: "gate_part (net2 nm) = Some (Some ((GateStates ly)[j := ?gs\<lparr>Cnt := ?c\<rparr>], Gate ly, ?mp))"
    proof (cases "GateState.Act ?gs > 0")
      case False
      then show ?thesis using first ly by simp
    next
      case act: True
      have n1: "?net1 nm = Some (PFCDeep ?ly1)" by simp
      have c1: "Cnt (GateStates ?ly1 ! nat (int j)) < 1" using j by simp
      have "gate_part (net2 nm) = gate_part (?net1 nm)"
      proof (cases "OutGate (Gate ly)")
        case True
        show ?thesis
        proof (cases "OutClearMaint ?mp")
          case True
          then have cm: "ClearMaint dsp nm (int j) ?net1 = Inr net2"
            using first act \<open>OutGate (Gate ly)\<close> by simp
          show ?thesis by (rule ClearMaint_gate_part [OF cm n1 c1])
        next
          case False
          then show ?thesis using first act \<open>OutGate (Gate ly)\<close> by simp
        qed
      next
        case False
        then obtain pfcs where "AsLeabra_DecayStatePool dsp pfcs (int j) (Clear ?mp) ?net1 = Inr net2"
          using first act by (auto simp: bindE_Inr_iff)
        then show ?thesis by (rule DecayStatePool_gate_part)
      qed
      then show ?thesis using act by simp
    qed
    then obtain ly2 where ly2: "net2 nm = Some (PFCDeep ly2)"
      and gs2: "GateStates ly2 = (GateStates ly)[j := ?gs\<lparr>Cnt := ?c\<rparr>]"
      and p2: "Gate ly2 = Gate ly" "PFCDeepLayer.Maint ly2 = ?mp"
      by (auto simp: gate_part_PFCDeep)
    show ?thesis
    proof (cases "?c \<ge> MaxMaint ?mp")
      case True
      then have "net' = net2(nm \<mapsto> PFCDeep (ly2\<lparr>GateStates := (GateStates ly2)[j := (GateStates ly2 ! j)\<lparr>Cnt := - 1\<rparr>]\<rparr>))"
        using second ly2 gs2 p2 j by (simp add: Let_def)
      then show ?thesis
        using True \<open>Now ?gs\<close> gs2 p2 j by (simp add: gating_cnt_def Let_def)
    next
      case False
      then have "net' = net2"
        using second ly2 gs2 p2 j by (simp add: Let_def)
      then show ?thesis
        using False \<open>Now ?gs\<close> g2 by (simp add: gating_cnt_def Let_def)
    qed
  qed
qed

lemma Gating_gate_part:
  assumes run: "Gating dsp nm ltime net = Inr net'" and ly: "net nm = Some (PFCDeep ly)"
    and go: "\<not> (OutGate (Gate ly) \<and> OutQ1Only (Gate ly) \<and> Quarter ltime > 1)"
    and gi: "gi < length (GateStates ly)"
  shows "\<exists>ly'. net' nm = Some (PFCDeep ly') \<and> Gate ly' = Gate ly
       \<and> PFCDeepLayer.Maint ly' = PFCDeepLayer.Maint ly
       \<and> length (GateStates ly') = length (GateStates ly)
       \<and> GateStates ly' ! gi =
           (GateStates ly ! gi)\<lparr>Cnt := gating_cnt (PFCDeepLayer.Maint ly) (GateStates ly ! gi)\<rparr>"
proof -
  let ?I = "\<lambda>t. \<exists>l. t nm = Some (PFCDeep l) \<and> Gate l = Gate ly
       \<and> PFCDeepLayer.Maint l = PFCDeepLayer.Maint ly \<and> length (GateStates l) = length (GateStates ly)"
  let ?v = "\<lambda>t. case t nm of Some (PFCDeep l) \<Rightarrow> Some (GateStates l ! gi) | _ \<Rightarrow> None"
  have loop: "forE (Gating_pool dsp nm) [0..<length (GateStates ly)] net = Inr net'"
    using run ly go by (simp add: Gating_def)
  have step: "\<exists>l'. t' nm = Some (PFCDeep l') \<and> Gate l' = Gate ly
       \<and> PFCDeepLayer.Maint l' = PFCDeepLayer.Maint ly
       \<and> GateStates l' = (GateStates l)[j := (GateStates l ! j)\<lparr>Cnt := gating_cnt (PFCDeepLayer.Maint ly) (GateStates l ! j)\<rparr>]"
    if "j < length (GateStates ly)" "t nm = Some (PFCDeep l)" "Gate l = Gate ly"
      "PFCDeepLayer.Maint l = PFCDeepLayer.Maint ly" "length (GateStates l) = length (GateStates ly)"
      "Gating_pool dsp nm j t = Inr t'" for j t t' l
    using Gating_pool_gate_part [OF that(6) that(2)] that by (auto simp: gate_part_PFCDeep)
  have "\<exists>t t'. ?I t \<and> ?v t = ?v net \<and> Gating_pool dsp nm gi t = Inr t' \<and> ?v t' = ?v net'"
  proof (rule forE_focus_inv [OF loop, where I = ?I and v = ?v])
    show "distinct [0..<length (GateStates ly)]" by simp
    show "gi \<in> set [0..<length (GateStates ly)]" using gi by simp
    show "?I net" using ly by simp
  next
    fix j t t'
    assume "j \<in> set [0..<length (GateStates ly)]" "?I t" "Gating_pool dsp nm j t = Inr t'"
    then show "?I t'" using step [of j t _ t'] by fastforce
  next
    fix j t t'
    assume "j \<in> set [0..<length (GateStates ly)]" "j \<noteq> gi" "?I t" "Gating_pool dsp nm j t = Inr t'"
    then show "?v t' = ?v t" using step [of j t _ t'] by fastforce
  qed
  then obtain t t' l where t: "t nm = Some (PFCDeep l)" "Gate l = Gate ly"
      "PFCDeepLayer.Maint l = PFCDeepLayer.Maint ly" "length (GateStates l) = length (GateStates ly)"
    and vt: "?v t = ?v net" and b: "Gating_pool dsp nm gi t = Inr t'" and vt': "?v t' = ?v net'"
    by blast
  from step [OF gi t b] obtain l' where l': "t' nm = Some (PFCDeep l')" "Gate l' = Gate ly"
       "PFCDeepLayer.Maint l' = PFCDeepLayer.Maint ly"
       "GateStates l' = (GateStates l)[gi := (GateStates l ! gi)\<lparr>Cnt := gating_cnt (PFCDeepLayer.Maint ly) (GateStates l ! gi)\<rparr>]"
    by blast
  have inv: "?I net'"
  proof (rule forE_invariant [OF loop, where P = ?I])
    show "?I net" using ly by simp
  next
    fix j t t'
    assume "j \<in> set [0..<length (GateStates ly)]" "?I t" "Gating_pool dsp nm j t = Inr t'"
    then show "?I t'" using step [of j t _ t'] by fastforce
  qed
  then obtain ly' where ly': "net' nm = Some (PFCDeep ly')" "Gate ly' = Gate ly"
       "PFCDeepLayer.Maint ly' = PFCDeepLayer.Maint ly" "length (GateStates ly') = length (GateStates ly)"
    by blast
  have "GateStates l ! gi = GateStates ly ! gi" using vt t(1) ly by simp
  moreover have "GateStates ly' ! gi = GateStates l' ! gi" using vt' l'(1) ly'(1) by simp
  ultimately have "GateStates ly' ! gi =
           (GateStates ly ! gi)\<lparr>Cnt := gating_cnt (PFCDeepLayer.Maint ly) (GateStates ly ! gi)\<rparr>"
    using l'(4) gi t(4) by simp
  then show ?thesis using ly' by blast
qed

lemmas ex_pbwm_defs =
  Gating_def Gating_pool_def ClearMaint_def MaintPFC_def SuperPFC_def AsLeabra_DecayStatePool_def
  at_idx_def ex_dsp_def upt_rec Let_def ex_pbwm_net_def ex_deep_def ex_out_def ex_super_def

lemma ex_Gating_mnt:
  "\<exists>net'. Gating ex_dsp ''PFCmntD'' \<lparr>Quarter = 1, Cycle = 50\<rparr> ex_pbwm_net = Inr net'
      \<and> net' ''PFCmntD'' = Some (PFCDeep (ex_deep\<lparr>GateStates :=
            [\<lparr>Act = 1, Now = True, Cnt = 0\<rparr>,
             \<lparr>Act = 0, Now = True, Cnt = - 2\<rparr>,
             \<lparr>Act = 0, Now = True, Cnt = - 1\<rparr>]\<rparr>))"
  by (simp add: ex_pbwm_defs)

lemma ex_Gating_out:
  "\<exists>net'. Gating ex_dsp ''PFCoutD'' \<lparr>Quarter = 0, Cycle = 20\<rparr> ex_pbwm_net = Inr net'
      \<and> net' ''PFCoutD'' = Some (PFCDeep (ex_out\<lparr>GateStates :=
            [\<lparr>Act = 1, Now = True, Cnt = 0\<rparr>,
             \<lparr>Act = 1, Now = False, Cnt = - 1\<rparr>,
             \<lparr>Act = 0, Now = True, Cnt = - 1\<rparr>]\<rparr>))
      \<and> net' ''PFCmntD'' = Some (PFCDeep (ex_deep\<lparr>GateStates :=
            [\<lparr>Act = 1, Now = True, Cnt = - 1\<rparr>,
             \<lparr>Act = 0, Now = True, Cnt = - 2\<rparr>,
             \<lparr>Act = 0, Now = True, Cnt = 3\<rparr>]\<rparr>))"
  by (simp add: ex_pbwm_defs)

lemma ex_Gating_no_super:
  "Gating ex_dsp ''PFCmntD'' \<lparr>Quarter = 1, Cycle = 50\<rparr> (ex_pbwm_net(''PFCmnt'' := None))
     = Inl NilDereference"
  by (simp add: ex_pbwm_defs)

lemma ex_ClearMaint_no_super:
  "ClearMaint ex_dsp ''PFCoutD'' 0 (ex_pbwm_net(''PFCmnt'' := None)) = Inl NilDereference"
  by (simp add: ex_pbwm_defs)

lemma ex_ClearMaint_no_maint:
  "ClearMaint ex_dsp ''PFCoutD'' 0 (ex_pbwm_net(''PFCmntD'' := None)) = Inr (ex_pbwm_net(''PFCmntD'' := None))"
  by (simp add: ex_pbwm_defs)

lemma ex_DeepMaint_no_super:
  "DeepMaint ''PFCmntD'' \<lparr>Quarter = 1, Cycle = 50\<rparr> (ex_pbwm_net(''PFCmnt'' := None))
     = Inr (ex_pbwm_net(''PFCmnt'' := None))"
  by (simp add: DeepMaint_def ex_pbwm_defs)

lemma ex_DAActLrn_no_thal:
  "DAActLrn Map.empty \<lparr>Quarter = 1, Cycle = 40\<rparr> ex_matrix = Inr (ex_matrix\<lparr>DALrn := 1\<rparr>)"
  by (simp add: DAActLrn_def ThalLayer_def DALrn_FmDA_def ex_matrix_def)

text \<open>
  Claim C3. Take a pool whose counter has reached \<open>MaxMaint\<close> and a call of \<^verbatim>\<open>Gating\<close>
  that evaluates it: the call is not cut short by the \<open>OutQ1Only\<close> guard and the pool's
  \<open>Now\<close> is set. Whenever the call returns, the counter is \<open>- 1\<close> if the pool's \<open>Act\<close> is
  not positive; with a positive \<open>Act\<close> (a fresh gate event) it is 0 instead, for a
  positive \<open>MaxMaint\<close> (and \<open>- 1\<close> for a \<open>MaxMaint \<le> 0\<close>, which the reset to 0 reaches at
  once).
\<close>

theorem Gating_forced_clear:
  assumes "Gating dsp nm ltime net = Inr net'" and "net nm = Some (PFCDeep ly)"
    and "\<not> (OutGate (Gate ly) \<and> OutQ1Only (Gate ly) \<and> Quarter ltime > 1)"
    and "gi < length (GateStates ly)" and "gs = GateStates ly ! gi"
    and "Now gs" and "MaxMaint (PFCDeepLayer.Maint ly) \<le> Cnt gs"
  shows "\<exists>ly'. net' nm = Some (PFCDeep ly')
       \<and> (\<not> GateState.Act gs > 0 \<longrightarrow> Cnt (GateStates ly' ! gi) = - 1)
       \<and> (GateState.Act gs > 0 \<and> 0 < MaxMaint (PFCDeepLayer.Maint ly) \<longrightarrow> Cnt (GateStates ly' ! gi) = 0)
       \<and> (GateState.Act gs > 0 \<and> MaxMaint (PFCDeepLayer.Maint ly) \<le> 0 \<longrightarrow> Cnt (GateStates ly' ! gi) = - 1)"
proof -
  from Gating_gate_part [OF assms(1-4)] obtain ly' where
    "net' nm = Some (PFCDeep ly')"
    "GateStates ly' ! gi = gs\<lparr>Cnt := gating_cnt (PFCDeepLayer.Maint ly) gs\<rparr>"
    using assms(5) by auto
  then show ?thesis
    using assms(6,7) by (intro exI [of _ ly']) (auto simp: gating_cnt_def Let_def)
qed

theorem Gating_forced_clear_witness:
  "(\<exists>net' ly'. Gating ex_dsp ''PFCmntD'' \<lparr>Quarter = 1, Cycle = 50\<rparr> ex_pbwm_net = Inr net'
      \<and> net' ''PFCmntD'' = Some (PFCDeep ly')
      \<and> GateStates ex_deep ! 2 = \<lparr>Act = 0, Now = True, Cnt = 3\<rparr>
      \<and> MaxMaint (PFCDeepLayer.Maint ex_deep) = 3
      \<and> Cnt (GateStates ly' ! 2) = - 1)
   \<and> (\<exists>net' ly'. Gating ex_dsp ''PFCoutD'' \<lparr>Quarter = 0, Cycle = 20\<rparr> ex_pbwm_net = Inr net'
      \<and> net' ''PFCoutD'' = Some (PFCDeep ly')
      \<and> GateStates ex_out ! 0 = \<lparr>Act = 1, Now = True, Cnt = 2\<rparr>
      \<and> MaxMaint (PFCDeepLayer.Maint ex_out) = 1
      \<and> Cnt (GateStates ly' ! 0) = 0)"
proof -
  from ex_Gating_mnt obtain n1 where
    r1: "Gating ex_dsp ''PFCmntD'' \<lparr>Quarter = 1, Cycle = 50\<rparr> ex_pbwm_net = Inr n1" by blast
  from ex_Gating_out obtain n2 where
    r2: "Gating ex_dsp ''PFCoutD'' \<lparr>Quarter = 0, Cycle = 20\<rparr> ex_pbwm_net = Inr n2" by blast
  have l1: "ex_pbwm_net ''PFCmntD'' = Some (PFCDeep ex_deep)"
    and l2: "ex_pbwm_net ''PFCoutD'' = Some (PFCDeep ex_out)"
    by (simp_all add: ex_pbwm_net_def)
  have g1: "\<not> (OutGate (Gate ex_deep) \<and> OutQ1Only (Gate ex_deep) \<and> Quarter \<lparr>Quarter = 1, Cycle = 50\<rparr> > 1)"
    and g2: "\<not> (OutGate (Gate ex_out) \<and> OutQ1Only (Gate ex_out) \<and> Quarter \<lparr>Quarter = 0, Cycle = 20\<rparr> > 1)"
    by (simp_all add: ex_deep_def ex_out_def)
  have p1: "2 < length (GateStates ex_deep)" "Now (GateStates ex_deep ! 2)"
      "MaxMaint (PFCDeepLayer.Maint ex_deep) \<le> Cnt (GateStates ex_deep ! 2)"
    and p2: "0 < length (GateStates ex_out)" "Now (GateStates ex_out ! 0)"
      "MaxMaint (PFCDeepLayer.Maint ex_out) \<le> Cnt (GateStates ex_out ! 0)"
    by (simp_all add: ex_deep_def ex_out_def)
  note a = Gating_forced_clear [OF r1 l1 g1 p1(1) refl p1(2,3)]
  note b = Gating_forced_clear [OF r2 l2 g2 p2(1) refl p2(2,3)]
  have v: "GateStates ex_deep ! 2 = \<lparr>Act = 0, Now = True, Cnt = 3\<rparr>"
      "MaxMaint (PFCDeepLayer.Maint ex_deep) = 3"
      "GateStates ex_out ! 0 = \<lparr>Act = 1, Now = True, Cnt = 2\<rparr>"
      "MaxMaint (PFCDeepLayer.Maint ex_out) = 1"
    by (simp_all add: ex_deep_def ex_out_def)
  from a v obtain ly1 where "n1 ''PFCmntD'' = Some (PFCDeep ly1)" "Cnt (GateStates ly1 ! 2) = - 1"
    by auto
  moreover from b v obtain ly2 where "n2 ''PFCoutD'' = Some (PFCDeep ly2)" "Cnt (GateStates ly2 ! 0) = 0"
    by auto
  ultimately show ?thesis using r1 r2 v by blast
qed

subsection \<open>Paired layers that are absent\<close>

text \<open>
  Three operations skip an absent paired layer, for every network; the maintenance-gate
  branch of \<^verbatim>\<open>Gating\<close> does not.
\<close>

lemma ClearMaint_absent_maint:
  "4 \<le> length nm \<Longrightarrow> net (take (length nm - 4) nm @ ''mntD'') = None \<Longrightarrow>
   ClearMaint dsp nm pool net = Inr net"
  by (simp add: ClearMaint_def MaintPFC_def Let_def)

lemma DeepMaint_absent_super:
  "net nm = Some (PFCDeep ly) \<Longrightarrow> nm \<noteq> [] \<Longrightarrow> net (take (length nm - 1) nm) = None \<Longrightarrow>
   DeepMaint nm ltime net = Inr net"
  by (simp add: DeepMaint_def SuperPFC_def Let_def)

lemma DAActLrn_absent_thal:
  "net (ThalLay (Matrix ly)) = None \<Longrightarrow>
   DAActLrn net ltime ly = Inr (ly\<lparr>DALrn := DALrn_FmDA ly\<rparr>)"
  by (simp add: DAActLrn_def ThalLayer_def Let_def)

lemma butlast_name_neq: "nm \<noteq> [] \<Longrightarrow> take (length nm - 1) nm \<noteq> nm"
proof
  assume ne: "nm \<noteq> []" and eq: "take (length nm - 1) nm = nm"
  have "length (take (length nm - 1) nm) = length nm"
    by (rule arg_cong [OF eq])
  then have "min (length nm - 1) (length nm) = length nm" by (simp only: length_take min.commute)
  moreover have "0 < length nm" using ne by simp
  ultimately show False by arith
qed

lemma Gating_pool_absent_super:
  assumes "net nm = Some (PFCDeep ly)" and "nm \<noteq> []"
    and "net (take (length nm - 1) nm) = None"
    and "\<not> OutGate (Gate ly)"
    and "Now (GateStates ly ! gi)" and "GateState.Act (GateStates ly ! gi) > 0"
  shows "Gating_pool dsp nm gi net = Inl NilDereference"
  using assms butlast_name_neq [OF assms(2)] unfolding Gating_pool_def Let_def
  by (simp add: SuperPFC_def AsLeabra_DecayStatePool_def Let_def)

text \<open>
  Claim C8. The operations do not all skip an absent paired layer. On the example
  network without the super layer \<^verbatim>\<open>PFCmnt\<close>, \<^verbatim>\<open>Gating\<close> of the maintenance layer panics
  with a nil dereference at line 224 (pool 0 has \<open>Now\<close> and a positive \<open>Act\<close>), and so
  does \<^verbatim>\<open>ClearMaint\<close> at line 244. The other operations skip: \<^verbatim>\<open>ClearMaint\<close> without the
  maintenance layer, \<^verbatim>\<open>DeepMaint\<close> without the super layer and \<^verbatim>\<open>DAActLrn\<close> without the
  thalamic layer return, and change nothing that depends on the absent layer.
\<close>

theorem absent_super_layer_panics:
  "Gating ex_dsp ''PFCmntD'' \<lparr>Quarter = 1, Cycle = 50\<rparr> (ex_pbwm_net(''PFCmnt'' := None))
     = Inl NilDereference
   \<and> ClearMaint ex_dsp ''PFCoutD'' 0 (ex_pbwm_net(''PFCmnt'' := None)) = Inl NilDereference
   \<and> ClearMaint ex_dsp ''PFCoutD'' 0 (ex_pbwm_net(''PFCmntD'' := None))
     = Inr (ex_pbwm_net(''PFCmntD'' := None))
   \<and> DeepMaint ''PFCmntD'' \<lparr>Quarter = 1, Cycle = 50\<rparr> (ex_pbwm_net(''PFCmnt'' := None))
     = Inr (ex_pbwm_net(''PFCmnt'' := None))
   \<and> DAActLrn Map.empty \<lparr>Quarter = 1, Cycle = 40\<rparr> ex_matrix = Inr (ex_matrix\<lparr>DALrn := 1\<rparr>)"
  using ex_Gating_no_super ex_ClearMaint_no_super ex_ClearMaint_no_maint ex_DeepMaint_no_super
    ex_DAActLrn_no_thal
  by simp

end
